(* ===== verification/Prelude.thy ===== *)
theory Prelude
  imports Main "HOL-Library.Word"
begin

text \<open>
  Shared vocabulary of the development: the machine types of the C++ sources on the
  platform they are written for (x86-64 Linux, little endian, LP64), the byte-order
  conversions of the C library, the numeric constants of the POSIX headers the sources
  use, \<open>errno\<close> values, socket addresses, and the list lemmas several components need.
  \<open>word_mem\<close> collects the facts that relate words to their bytes in memory.
\<close>

unbundle bit_operations_syntax

named_theorems word_mem \<open>words and their bytes in memory\<close>

section \<open>Machine types\<close>

type_synonym byte = "8 word"
type_synonym u16 = "16 word"
type_synonym u32 = "32 word"
type_synonym u64 = "64 word"

abbreviation NUL :: byte where "NUL \<equiv> 0"
abbreviation NEWLINE :: byte where "NEWLINE \<equiv> 10"

text \<open>The bytes of a string literal of the source.\<close>

definition lit :: "string \<Rightarrow> byte list" where
  "lit s = map (\<lambda>c. of_nat (of_char c)) s"

lemma length_lit [simp]: "length (lit s) = length s"
  by (simp add: lit_def)

section \<open>Byte order and memory layout\<close>

text \<open>A 16-bit word in memory, low byte first, and the conversions \<open>htons\<close>, \<open>ntohs\<close>,
  \<open>htonl\<close> and \<open>ntohl\<close>, which on this platform reverse the bytes.\<close>

definition le16 :: "byte \<Rightarrow> byte \<Rightarrow> u16" where
  "le16 b0 b1 = ucast b0 OR push_bit 8 (ucast b1)"

definition bytes16 :: "u16 \<Rightarrow> byte list" where
  "bytes16 x = [ucast x, ucast (drop_bit 8 x)]"

definition htons :: "u16 \<Rightarrow> u16" where
  "htons x = le16 (ucast (drop_bit 8 x)) (ucast x)"

definition ntohs :: "u16 \<Rightarrow> u16" where
  "ntohs x = htons x"

definition le32 :: "byte \<Rightarrow> byte \<Rightarrow> byte \<Rightarrow> byte \<Rightarrow> u32" where
  "le32 b0 b1 b2 b3 =
     ucast b0 OR push_bit 8 (ucast b1) OR push_bit 16 (ucast b2) OR push_bit 24 (ucast b3)"

definition bytes32 :: "u32 \<Rightarrow> byte list" where
  "bytes32 x = [ucast x, ucast (drop_bit 8 x), ucast (drop_bit 16 x), ucast (drop_bit 24 x)]"

definition htonl :: "u32 \<Rightarrow> u32" where
  "htonl x = le32 (ucast (drop_bit 24 x)) (ucast (drop_bit 16 x)) (ucast (drop_bit 8 x)) (ucast x)"

definition ntohl :: "u32 \<Rightarrow> u32" where
  "ntohl x = htonl x"

lemma byte_bit_beyond [simp]: "8 \<le> k \<Longrightarrow> \<not> bit (b :: byte) (k + n)"
  using bit_imp_le_length [of b "k + n"] by auto

lemma bytes16_le16 [word_mem, simp]: "bytes16 (le16 a b) = [a, b]"
  unfolding bytes16_def le16_def
  by (auto simp: bit_simps intro!: bit_word_eqI)

lemma le16_bytes16 [word_mem, simp]: "le16 (ucast x) (ucast (drop_bit 8 x)) = (x :: u16)"
  unfolding le16_def by (rule bit_word_eqI) (auto simp: bit_simps)

lemma htons_le16 [word_mem, simp]: "htons (le16 a b) = le16 b a"
  using bytes16_le16 [of a b] by (simp add: htons_def bytes16_def)

lemma htons_htons [simp]: "htons (htons x) = x"
  by (metis htons_le16 le16_bytes16)

lemma ntohs_htons [simp]: "ntohs (htons x) = x"
  by (simp add: ntohs_def)

lemma htons_eq_iff [simp]: "htons x = htons y \<longleftrightarrow> x = y"
  by (metis htons_htons)

lemma htons_eq_0_iff [simp]: "htons x = 0 \<longleftrightarrow> x = 0"
proof -
  have "htons 0 = 0" by (simp add: htons_def le16_def)
  then show ?thesis by (metis htons_htons)
qed

lemma bytes32_le32 [word_mem, simp]: "bytes32 (le32 a b c d) = [a, b, c, d]"
  unfolding bytes32_def le32_def
  by (auto simp: bit_simps intro!: bit_word_eqI)

lemma le32_bytes32 [word_mem, simp]:
  "le32 (ucast x) (ucast (drop_bit 8 x)) (ucast (drop_bit 16 x)) (ucast (drop_bit 24 x)) = (x :: u32)"
  unfolding le32_def
proof (rule bit_word_eqI)
  fix n :: nat
  assume "n < LENGTH(32)"
  then consider "n < 8" | "8 \<le> n" "n < 16" | "16 \<le> n" "n < 24" | "24 \<le> n" "n < 32"
    by fastforce
  then show "bit (ucast (ucast x :: byte) OR push_bit 8 (ucast (ucast (drop_bit 8 x) :: byte)) OR
      push_bit 16 (ucast (ucast (drop_bit 16 x) :: byte)) OR
      push_bit 24 (ucast (ucast (drop_bit 24 x) :: byte) :: u32)) n = bit x n"
    by cases (auto simp: bit_simps)
qed

lemma htonl_le32 [word_mem, simp]: "htonl (le32 a b c d) = le32 d c b a"
  using bytes32_le32 [of a b c d] by (simp add: htonl_def bytes32_def)

lemma htonl_htonl [simp]: "htonl (htonl x) = x"
  by (metis htonl_le32 le32_bytes32)

lemma ntohl_htonl [simp]: "ntohl (htonl x) = x"
  by (simp add: ntohl_def)

lemma length_bytes16 [simp]: "length (bytes16 x) = 2"
  by (simp add: bytes16_def)

lemma length_bytes32 [simp]: "length (bytes32 x) = 4"
  by (simp add: bytes32_def)

section \<open>errno, address families and other header constants\<close>

datatype errno =
    EINTR | EAGAIN | EBADF | EINVAL | ENXIO | EAFNOSUPPORT | EPROTO
  | ECONNABORTED | ECONNRESET | ECONNREFUSED | EINPROGRESS | ETIMEDOUT
  | EHOSTUNREACH | EMSGSIZE | ECHILD | Errno nat

text \<open>On Linux \<open>EWOULDBLOCK\<close> and \<open>EAGAIN\<close> are the same value.\<close>

abbreviation EWOULDBLOCK :: errno where "EWOULDBLOCK \<equiv> EAGAIN"

definition AF_UNSPEC :: int where "AF_UNSPEC = 0"
definition AF_UNIX :: int where "AF_UNIX = 1"
definition AF_INET :: int where "AF_INET = 2"
definition AF_INET6 :: int where "AF_INET6 = 10"
definition SOCK_STREAM :: int where "SOCK_STREAM = 1"
definition SOCK_DGRAM :: int where "SOCK_DGRAM = 2"
definition SOCK_RAW :: int where "SOCK_RAW = 3"

lemmas family_defs = AF_UNSPEC_def AF_UNIX_def AF_INET_def AF_INET6_def

text \<open>A socket address: \<open>sockaddr_in\<close> with its port and address as stored (network byte
  order), \<open>sockaddr_in6\<close>, \<open>sockaddr_un\<close> with the bytes of its path before the terminating
  null, and any other family.\<close>

datatype sockaddr =
    Sin u16 u32
  | Sin6 u16 "byte list"
  | Sun "byte list"
  | Sother int

fun sa_family :: "sockaddr \<Rightarrow> int" where
  "sa_family (Sin _ _) = AF_INET"
| "sa_family (Sin6 _ _) = AF_INET6"
| "sa_family (Sun _) = AF_UNIX"
| "sa_family (Sother f) = f"

definition MAXLINE :: nat where "MAXLINE = 4096"
definition BUFFSIZE :: nat where "BUFFSIZE = 8192"
definition LISTENQ :: int where "LISTENQ = 1024"
definition FD_SETSIZE :: nat where "FD_SETSIZE = 1024"

section \<open>C strings and numbers\<close>

text \<open>The C string at the start of a buffer: the bytes before the first null.\<close>

definition cstr :: "byte list \<Rightarrow> byte list" where
  "cstr bs = takeWhile (\<lambda>b. b \<noteq> NUL) bs"

lemma length_cstr_le: "length (cstr bs) \<le> length bs"
  by (simp add: cstr_def length_takeWhile_le)

lemma cstr_id: "NUL \<notin> set bs \<Longrightarrow> cstr bs = bs"
  by (auto simp: cstr_def takeWhile_eq_all_conv)

lemma cstr_append_NUL [simp]: "cstr (bs @ NUL # cs) = cstr bs"
  by (induction bs) (auto simp: cstr_def)

text \<open>\<open>strtol (s, \<dots>, 10)\<close>: white space, a sign, then digits, saturating at the bounds of a
  64-bit \<open>long\<close>; \<open>atol\<close> is the same, \<open>atoi\<close> its low 32 bits read as a signed number.\<close>

definition is_space :: "byte \<Rightarrow> bool" where
  "is_space b \<longleftrightarrow> b = 32 \<or> (9 \<le> b \<and> b \<le> 13)"

definition is_digit :: "byte \<Rightarrow> bool" where
  "is_digit b \<longleftrightarrow> 48 \<le> b \<and> b \<le> 57"

definition digits_value :: "byte list \<Rightarrow> int" where
  "digits_value ds = foldl (\<lambda>v d. 10 * v + (uint d - 48)) 0 ds"

definition strtol10 :: "byte list \<Rightarrow> int" where
  "strtol10 s =
     (let t = dropWhile is_space (cstr s);
          (neg, t) = (case t of [] \<Rightarrow> (False, [])
            | c # cs \<Rightarrow> if c = 45 then (True, cs) else if c = 43 then (False, cs) else (False, t));
          v = digits_value (takeWhile is_digit t)
      in max (- (2 ^ 63)) (min (2 ^ 63 - 1) (if neg then - v else v)))"

definition atol :: "byte list \<Rightarrow> int" where
  "atol s = strtol10 s"

definition atoi :: "byte list \<Rightarrow> int" where
  "atoi s = sint (word_of_int (strtol10 s) :: u32)"

section \<open>Lists\<close>

lemma take_length_takeWhile:
  "length (takeWhile P xs) < length xs \<Longrightarrow>
     take (Suc (length (takeWhile P xs))) xs = takeWhile P xs @ [xs ! length (takeWhile P xs)]"
  by (simp add: take_Suc_conv_app_nth takeWhile_eq_take [symmetric])

end
