(* ===== verification/Cksum.thy ===== *)
theory Cksum
  imports Prelude
begin

text \<open>
  \<open>in_cksum.cpp\<close>, the Internet checksum that \<open>ping\<close> and \<open>udpchsum\<close> compute over a packet,
  and \<open>tv_sub\<close> of \<open>ping\<close> and \<open>traceroute\<close>. The packet is the list of its \<open>len\<close> bytes; 16-bit
  words are read from memory in host order, as the C code reads them. The specification
  \<open>ones\<close> is one's-complement addition on natural numbers; \<open>in_cksum_spec\<close> relates the 32-bit
  accumulator with its two folds to it.
\<close>

section \<open>The code\<close>

fun cksum_loop :: "u32 \<Rightarrow> byte list \<Rightarrow> u32" where
  "cksum_loop acc (a # b # rest) = cksum_loop (acc + ucast (le16 a b)) rest"
| "cksum_loop acc [a] = acc + ucast (le16 a 0)"
| "cksum_loop acc [] = acc"

definition in_cksum :: "byte list \<Rightarrow> u16" where
  "in_cksum addr =
     (let acc = cksum_loop 0 addr;
          acc = drop_bit 16 acc + (acc AND 0xffff);
          acc = acc + drop_bit 16 acc
      in ucast (NOT acc))"

section \<open>One's-complement addition\<close>

fun wsum :: "byte list \<Rightarrow> nat" where
  "wsum (a # b # rest) = unat (le16 a b) + wsum rest"
| "wsum [a] = unat (le16 a 0)"
| "wsum [] = 0"

text \<open>The end-around carry, folded twice.\<close>

definition ones :: "nat \<Rightarrow> nat" where
  "ones s = (let t = s div 65536 + s mod 65536 in (t + t div 65536) mod 65536)"

lemma unat_u16 [simp]: "unat (x :: u16) < 65536" "unat x \<le> 65535"
proof -
  have "unat x < 2 ^ LENGTH(16)" by (rule unsigned_less)
  then show "unat x < 65536" by simp
  then show "unat x \<le> 65535" by simp
qed

lemma ones_cases:
  assumes "s < 2 ^ 32"
  shows "ones s < 65536" and "ones s mod 65535 = s mod 65535" and "ones s = 0 \<longleftrightarrow> s = 0"
proof -
  define h l where "h = s div 65536" and "l = s mod 65536"
  have s: "s = 65536 * h + l" and h: "h < 65536" and l: "l < 65536"
    using assms by (simp_all add: h_def l_def less_mult_imp_div_less)
  show "ones s < 65536"
    by (simp add: ones_def Let_def)
  have ones: "ones s = (if h + l < 65536 then h + l else h + l - 65535)"
  proof (cases "h + l < 65536")
    case True
    then show ?thesis
      by (simp add: ones_def Let_def flip: h_def l_def)
  next
    case False
    with h l have "(h + l) div 65536 = 1"
      by (intro div_nat_eqI) auto
    moreover have "(h + l + 1) mod 65536 = h + l - 65535"
    proof -
      have "h + l + 1 = (h + l - 65535) + 65536" using False by simp
      moreover have "h + l - 65535 < 65536" using h l by simp
      ultimately show ?thesis by (metis mod_add_self2 mod_less)
    qed
    ultimately show ?thesis
      using False by (simp add: ones_def Let_def flip: h_def l_def)
  qed
  have "s mod 65535 = (h + l) mod 65535"
  proof -
    have "s = (h + l) + 65535 * h" using s by simp
    then show ?thesis by (metis mod_mult_self2)
  qed
  moreover have "(h + l) mod 65535 = (h + l - 65535) mod 65535" if "\<not> h + l < 65536"
    by (rule le_mod_geq) (use that in simp)
  ultimately show "ones s mod 65535 = s mod 65535"
    by (simp add: ones)
  show "ones s = 0 \<longleftrightarrow> s = 0"
    unfolding ones using s by (auto split: if_splits)
qed

text \<open>The accumulator does not overflow for up to 128 KiB.\<close>

lemma wsum_bound: "wsum bs \<le> 65535 * ((length bs + 1) div 2)"
  by (induction bs rule: wsum.induct) (auto simp: add_mono)

lemma unat_ucast_u32 [simp]: "unat (ucast (x :: u16) :: u32) = unat x"
proof -
  have "unat x < 2 ^ 32" by (rule less_trans [OF unat_u16(1)]) simp
  then show ?thesis
    by (simp add: unsigned_ucast_eq take_bit_nat_eq_self)
qed

lemma unat_add_u32: "unat (x :: u32) + unat y < 2 ^ 32 \<Longrightarrow> unat (x + y) = unat x + unat y"
  using unat_add_lem [of x y] by simp

lemma cksum_loop_wsum:
  "unat acc + wsum bs < 2 ^ 32 \<Longrightarrow> unat (cksum_loop acc bs) = unat acc + wsum bs"
proof (induction acc bs rule: cksum_loop.induct)
  case (1 acc a b rest)
  then have "unat (acc + ucast (le16 a b)) = unat acc + unat (le16 a b)"
    by (subst unat_add_u32) auto
  with 1 show ?case by simp
next
  case (2 acc a)
  then show ?case by (simp add: unat_add_u32)
qed simp

lemma unat_fold:
  "unat (drop_bit 16 (x :: u32)) = unat x div 65536"
  "unat ((x :: u32) AND 0xffff) = unat x mod 65536"
  "unat (ucast (x :: u32) :: u16) = unat x mod 65536"
proof -
  show "unat (drop_bit 16 x) = unat x div 65536"
    by (simp add: unat_drop_bit_eq drop_bit_eq_div [of 16 "unat x"])
  have "x AND 0xffff = take_bit 16 x"
    by (simp add: take_bit_eq_mask mask_eq_exp_minus_1)
  then have "unat (x AND 0xffff) = take_bit 16 (unat x)"
    by (simp only: unsigned_take_bit_eq)
  then show "unat (x AND 0xffff) = unat x mod 65536"
    by (simp only: take_bit_eq_mod) simp
  show "unat (ucast x :: u16) = unat x mod 65536"
    by (simp add: unsigned_ucast_eq take_bit_eq_mod)
qed

lemma unat_not_u16: "unat (NOT (x :: u16)) = 65535 - unat x"
proof -
  have "NOT x = - 1 - x"
    by (simp add: not_eq_complement)
  moreover have "unat (- 1 - x) = unat (- 1 :: u16) - unat x"
    by (rule unat_sub) simp
  moreover have "unat (- 1 :: u16) = 65535"
    by (simp add: unsigned_minus_1_eq_mask mask_eq_exp_minus_1)
  ultimately show ?thesis by simp
qed

lemma ucast_not: "(ucast (NOT (x :: u32)) :: u16) = NOT (ucast x)"
  by (rule bit_word_eqI) (simp add: bit_simps)

text \<open>The code computes the complement of the one's-complement sum.\<close>

lemma in_cksum_spec:
  assumes "length bs \<le> 131072"
  shows "unat (in_cksum bs) = 65535 - ones (wsum bs)"
proof -
  have "(length bs + 1) div 2 \<le> 65536" using assms by simp
  then have "wsum bs < 2 ^ 32"
    using wsum_bound [of bs] by simp
  then have s: "unat (cksum_loop 0 bs) = wsum bs" "wsum bs < 2 ^ 32"
    using cksum_loop_wsum [of 0 bs] by simp_all
  define a where "a = cksum_loop 0 bs"
  define t where "t = drop_bit 16 a + (a AND 0xffff)"
  have "unat (drop_bit 16 a) < 65536" "unat (a AND 0xffff) < 65536"
    using s by (simp_all add: unat_fold a_def less_mult_imp_div_less)
  then have t: "unat t = wsum bs div 65536 + wsum bs mod 65536" "unat t < 131072"
    unfolding t_def using s(1) by (subst unat_add_u32; simp add: unat_fold a_def)+
  have "unat (drop_bit 16 t) \<le> unat t"
    by (simp add: unat_fold)
  then have "unat (t + drop_bit 16 t) = unat t + unat t div 65536"
    using t(2) by (subst unat_add_u32) (simp_all add: unat_fold)
  then have "unat (ucast (t + drop_bit 16 t) :: u16) = ones (wsum bs)"
    by (simp add: unat_fold ones_def t Let_def)
  then show ?thesis
    by (simp add: in_cksum_def Let_def ucast_not unat_not_u16 flip: a_def t_def)
qed

section \<open>A packet with its checksum verifies\<close>

lemma wsum_append: "even (length xs) \<Longrightarrow> wsum (xs @ ys) = wsum xs + wsum ys"
  by (induction xs rule: wsum.induct) auto

lemma in_cksum_zero:
  assumes "even (length pre)" and "length pre + 2 + length post \<le> 131072"
  shows "in_cksum (pre @ bytes16 (in_cksum (pre @ [0, 0] @ post)) @ post) = 0"
proof -
  define s c where "s = wsum pre + wsum post" and "c = in_cksum (pre @ [0, 0] @ post)"
  have zero: "wsum (pre @ [0, 0] @ post) = s"
    using assms(1) by (simp add: wsum_append s_def le16_def)
  have "length (pre @ [0, 0] @ post) \<le> 131072"
    using assms(2) by simp
  from in_cksum_spec [OF this] have c: "unat c = 65535 - ones s"
    by (simp only: zero c_def)
  have len: "length (pre @ bytes16 c @ post) \<le> 131072"
    using assms(2) by simp
  have field: "wsum (pre @ bytes16 c @ post) = s + unat c"
    using assms(1) by (simp add: wsum_append s_def bytes16_def)
  have "wsum (pre @ bytes16 c @ post) < 2 ^ 32" "s < 2 ^ 32"
    using wsum_bound [of "pre @ bytes16 c @ post"] len field by simp_all
  then have b: "s + unat c < 2 ^ 32" "s < 2 ^ 32"
    using field by simp_all
  have "ones s \<le> 65535" "ones s mod 65535 = s mod 65535"
    using ones_cases [OF b(2)] by simp_all
  then have "(s + unat c) mod 65535 = 0"
    using c by (metis add.commute le_add_diff_inverse2 mod_add_right_eq mod_self)
  then have "ones (s + unat c) mod 65535 = 0"
    using ones_cases(2) [OF b(1)] by simp
  moreover have "s + unat c \<noteq> 0"
    using c ones_cases(3) [OF b(2)] by auto
  then have "ones (s + unat c) \<noteq> 0" "ones (s + unat c) < 65536"
    using ones_cases [OF b(1)] by simp_all
  ultimately have "ones (s + unat c) = 65535"
  proof -
    from \<open>ones (s + unat c) mod 65535 = 0\<close> obtain k where k: "ones (s + unat c) = 65535 * k"
      by (auto simp: mod_eq_0_iff_dvd elim: dvdE)
    with \<open>ones (s + unat c) \<noteq> 0\<close> \<open>ones (s + unat c) < 65536\<close> have "k = 1" by simp
    with k show ?thesis by simp
  qed
  then have "unat (in_cksum (pre @ bytes16 c @ post)) = 0"
    using in_cksum_spec [OF len] field by simp
  then show ?thesis
    by (simp add: c_def unat_eq_zero)
qed

text \<open>(C15) When the checksum of a packet, computed with its checksum field zero, is stored in the
  field, the checksum of the packet is 0: this is what the receivers test. It holds for a
  field at any even offset and packets of up to 128 KiB.\<close>

theorem in_cksum_verifies:
  assumes "even (length pre)" and "length pre + 2 + length post \<le> 131072"
  shows "in_cksum (pre @ bytes16 (in_cksum (pre @ [0, 0] @ post)) @ post) = 0 \<and>
    unat (in_cksum (pre @ [0, 0] @ post)) = 65535 - ones (wsum pre + wsum post)"
proof
  show "in_cksum (pre @ bytes16 (in_cksum (pre @ [0, 0] @ post)) @ post) = 0"
    using assms by (rule in_cksum_zero)
  have "length (pre @ [0, 0] @ post) \<le> 131072" using assms(2) by simp
  moreover have "wsum (pre @ [0, 0] @ post) = wsum pre + wsum post"
    using assms(1) by (simp add: wsum_append le16_def)
  ultimately show "unat (in_cksum (pre @ [0, 0] @ post)) = 65535 - ones (wsum pre + wsum post)"
    by (metis in_cksum_spec)
qed

theorem in_cksum_verifies_witness:
  "in_cksum ([8, 0] @ bytes16 (in_cksum ([8, 0] @ [0, 0] @ [1, 2, 3])) @ [1, 2, 3]) = 0"
  using in_cksum_verifies [of "[8, 0]" "[1, 2, 3]"] by simp

end
