(* ===== verification/Posix.thy ===== *)
theory Posix
  imports Prelude
begin

text \<open>
  The operating system as the programs see it. It is not code of the repository, so it is a
  parameter of every definition: a \<open>world\<close> holds the responses the kernel and the C library
  will give, one per call and in the order the calls are made, together with the trace of
  what has happened and \<open>errno\<close>. Nothing is assumed of the responses beyond what the
  interfaces promise in their types: a \<open>read\<close> stores at most the bytes it was asked for, a
  \<open>write\<close> reports at most the bytes it was given, \<open>select\<close> reports a subset of what it was
  asked about. A theorem that holds for every world holds for every behaviour of the kernel
  and the peer. A call for which no response is left never returns (\<open>Blocked\<close>), so a server
  that loops for ever is a total function: it runs until its environment stops answering.

  \<open>loop\<close> is the \<open>for (;;)\<close> and \<open>while\<close> of the sources. The locale \<open>consuming\<close> is the
  contract a loop body meets when each round makes at least one call: its lemmas give the
  loop's unfolding equation and its invariant rule.
\<close>

named_theorems prog_simps \<open>how a program step evaluates\<close>

section \<open>Programs\<close>

text \<open>How a program stops without returning to its caller: \<open>exit\<close> with a status and the
  message that was logged, \<open>abort\<close>, a call that never returns, or undefined behaviour of C
  (an access outside an array, a read of an uninitialised object). \<open>Spin\<close> is a loop that
  makes no call; no loop of the sources ends so, as the lemmas of \<open>consuming\<close> show.\<close>

datatype stop =
    Exit int string
  | Abort string
  | Blocked
  | Undef string
  | Spin

type_synonym ('s, 'a) prog = "'s \<Rightarrow> (stop + 'a) \<times> 's"

definition ret :: "'a \<Rightarrow> ('s, 'a) prog" where
  "ret x = (\<lambda>s. (Inr x, s))"

definition halt :: "stop \<Rightarrow> ('s, 'a) prog" where
  "halt e = (\<lambda>s. (Inl e, s))"

definition andThen :: "('s, 'a) prog \<Rightarrow> ('a \<Rightarrow> ('s, 'b) prog) \<Rightarrow> ('s, 'b) prog" where
  "andThen m f = (\<lambda>s. case m s of (Inl e, s') \<Rightarrow> (Inl e, s') | (Inr x, s') \<Rightarrow> f x s')"

text \<open>Statements in sequence, and the one-armed \<open>if\<close>.\<close>

abbreviation seq :: "('s, 'a) prog \<Rightarrow> ('s, 'b) prog \<Rightarrow> ('s, 'b) prog" where
  "seq m n \<equiv> andThen m (\<lambda>_. n)"

definition only_if :: "bool \<Rightarrow> ('s, unit) prog \<Rightarrow> ('s, unit) prog" where
  "only_if b m = (if b then m else ret ())"

lemma ret_apply [simp, prog_simps]: "ret x s = (Inr x, s)"
  by (simp add: ret_def)

lemma halt_apply [simp, prog_simps]: "halt e s = (Inl e, s)"
  by (simp add: halt_def)

lemma andThen_apply [prog_simps]:
  "andThen m f s = (case m s of (Inl e, s') \<Rightarrow> (Inl e, s') | (Inr x, s') \<Rightarrow> f x s')"
  by (simp add: andThen_def)

lemma andThen_ret [simp]: "andThen (ret x) f = f x"
  by (simp add: fun_eq_iff andThen_apply)

lemma andThen_halt [simp]: "andThen (halt e) f = halt e"
  by (simp add: fun_eq_iff andThen_apply)

lemma andThen_assoc: "andThen (andThen m f) g = andThen m (\<lambda>x. andThen (f x) g)"
  by (auto simp: fun_eq_iff andThen_apply split: prod.splits sum.splits)

lemma andThen_InrE:
  assumes "andThen m f s = (Inr y, s')"
  obtains x t where "m s = (Inr x, t)" and "f x t = (Inr y, s')"
  using assms by (auto simp: andThen_apply split: prod.splits sum.splits)

lemma andThen_eq_Inr_iff:
  "andThen m f s = (Inr y, s') \<longleftrightarrow> (\<exists>x t. m s = (Inr x, t) \<and> f x t = (Inr y, s'))"
  by (auto simp: andThen_apply split: prod.splits sum.splits)

lemma andThen_eq_Inl_iff:
  "andThen m f s = (Inl e, s') \<longleftrightarrow>
     m s = (Inl e, s') \<or> (\<exists>x t. m s = (Inr x, t) \<and> f x t = (Inl e, s'))"
  by (auto simp: andThen_apply split: prod.splits sum.splits)

section \<open>Calls, responses and the world\<close>

text \<open>The system and library calls the sources make, with the arguments that matter.
  \<open>C_lib\<close> is any other call, by its name, its integer arguments and its string argument.\<close>

datatype call =
    C_socket int int int
  | C_bind int sockaddr
  | C_connect int sockaddr
  | C_listen int int
  | C_accept int
  | C_close int
  | C_shutdown int int
  | C_read int nat
  | C_write int "byte list"
  | C_recv int nat int
  | C_send int "byte list" int
  | C_recvfrom int nat int
  | C_sendto int "byte list" int sockaddr
  | C_recvmsg int nat int
  | C_sendmsg int "byte list" int
  | C_select "int set" "int set" "int set" "int option"
  | C_poll "(int \<times> int) list" int
  | C_getsockname int
  | C_getpeername int
  | C_getsockopt int int int
  | C_setsockopt int int int "int list"
  | C_fcntl int int int
  | C_ioctl int int
  | C_getaddrinfo "byte list option" "byte list option" int int int
  | C_fgets nat
  | C_fputs "byte list"
  | C_gettimeofday
  | C_alarm int
  | C_lib string "int list" "byte list"

text \<open>What a call comes back with: its value (negative, or whatever the call uses, for
  failure), \<open>errno\<close> when it fails, the bytes it stored in the caller's buffer, the address it
  stored, the descriptors \<open>select\<close> found ready to read and to write, the resolved addresses,
  and further integers (the seconds and microseconds of \<open>gettimeofday\<close>, a received
  descriptor, a pending error).\<close>

record resp =
  r_val :: int
  r_errno :: errno
  r_data :: "byte list"
  r_addr :: sockaddr
  r_rd :: "int set"
  r_wr :: "int set"
  r_addrs :: "(int \<times> int \<times> int \<times> sockaddr) list"
  r_aux :: "int list"

text \<open>One entry of the trace: a call with its response, a line sent to \<open>syslog\<close> or to the
  standard error (the caller's format string and, when it is asked for, \<open>errno\<close>), or text
  printed to the standard output (its format string and its integer arguments).\<close>

datatype event =
    Did call resp
  | Syslog int string "errno option"
  | Stderr string "errno option"
  | Print string "int list"

record world =
  resps :: "resp list"
  trace :: "event list"
  errno_v :: errno
  daemon_proc :: bool

text \<open>The size of a world is the number of responses it still holds: the measure by which every loop
  that makes a call in each round comes to an end.\<close>

instantiation world_ext :: (type) size
begin

definition size_world_ext :: "'a world_ext \<Rightarrow> nat" where
  "size_world_ext w = length (resps w)"

instance ..

end

lemma size_world [simp]: "size (w :: world) = length (resps w)"
  by (rule size_world_ext_def)

definition no_resp :: resp where
  "no_resp = \<lparr>r_val = 0, r_errno = Errno 0, r_data = [], r_addr = Sother 0,
     r_rd = {}, r_wr = {}, r_addrs = [], r_aux = []\<rparr>"

text \<open>Responses of the common shapes.\<close>

definition ok :: "int \<Rightarrow> resp" where "ok n = no_resp\<lparr>r_val := n\<rparr>"
definition fails :: "errno \<Rightarrow> resp" where "fails e = no_resp\<lparr>r_val := -1, r_errno := e\<rparr>"
definition gives :: "byte list \<Rightarrow> resp" where "gives bs = no_resp\<lparr>r_data := bs\<rparr>"

definition start :: "resp list \<Rightarrow> world" where
  "start rs = \<lparr>resps = rs, trace = [], errno_v = Errno 0, daemon_proc = False\<rparr>"

lemma resp_simps [simp]:
  "r_val no_resp = 0" "r_data no_resp = []" "r_rd no_resp = {}" "r_wr no_resp = {}"
  "r_val (ok n) = n" "r_data (ok n) = []" "r_rd (ok n) = {}" "r_wr (ok n) = {}"
  "r_val (fails e) = -1" "r_errno (fails e) = e" "r_val (gives bs) = 0" "r_data (gives bs) = bs"
  by (simp_all add: no_resp_def ok_def fails_def gives_def)

text \<open>Integers a call stored; a missing one counts as 0. \<open>gettimeofday\<close> stores seconds and
  microseconds, the latter below a million.\<close>

definition aux :: "resp \<Rightarrow> nat \<Rightarrow> int" where
  "aux r i = (if i < length (r_aux r) then r_aux r ! i else 0)"

definition time_of :: "resp \<Rightarrow> int \<times> int" where
  "time_of r = (aux r 0, aux r 1 mod 1000000)"

text \<open>A handler that leaves the program with \<open>siglongjmp\<close> can run while a call is blocked, which is then
  answered with \<open>EINTR\<close>, or after it has returned: then the response carries a mark, the first of its
  further integers.\<close>

definition alarm_after :: "resp \<Rightarrow> bool" where
  "alarm_after r \<longleftrightarrow> aux r 0 \<noteq> 0"

lemma alarm_after_simps [simp]: "\<not> alarm_after (ok n)" "\<not> alarm_after (fails e)" "\<not> alarm_after (gives bs)" "\<not> alarm_after no_resp"
  by (simp_all add: alarm_after_def aux_def ok_def fails_def gives_def no_resp_def)

lemmas resp_defs = ok_def fails_def gives_def no_resp_def

lemma start_simps [simp]:
  "resps (start rs) = rs" "trace (start rs) = []" "errno_v (start rs) = Errno 0"
  "\<not> daemon_proc (start rs)"
  by (simp_all add: start_def)

text \<open>The world after the call \<open>c\<close> has been answered with \<open>r\<close>.\<close>

definition took :: "call \<Rightarrow> resp \<Rightarrow> world \<Rightarrow> world" where
  "took c r w = w\<lparr>resps := tl (resps w), trace := trace w @ [Did c r],
     errno_v := (if r_val r < 0 then r_errno r else errno_v w)\<rparr>"

definition sys :: "call \<Rightarrow> (world, resp) prog" where
  "sys c = (\<lambda>w. case resps w of
     [] \<Rightarrow> (Inl Blocked, w)
   | r # rs \<Rightarrow> (Inr r, took c r w))"

definition print :: "string \<Rightarrow> int list \<Rightarrow> (world, unit) prog" where
  "print fmt args = (\<lambda>w. (Inr (), w\<lparr>trace := trace w @ [Print fmt args]\<rparr>))"

definition get_errno :: "(world, errno) prog" where
  "get_errno = (\<lambda>w. (Inr (errno_v w), w))"

definition set_errno :: "errno \<Rightarrow> (world, unit) prog" where
  "set_errno e = (\<lambda>w. (Inr (), w\<lparr>errno_v := e\<rparr>))"

lemma took_simps [simp, prog_simps]:
  "resps (took c r w) = tl (resps w)" "trace (took c r w) = trace w @ [Did c r]"
  "errno_v (took c r w) = (if r_val r < 0 then r_errno r else errno_v w)"
  "daemon_proc (took c r w) = daemon_proc w"
  by (simp_all add: took_def)

lemma sys_apply [prog_simps]:
  "sys c w = (case resps w of [] \<Rightarrow> (Inl Blocked, w) | r # rs \<Rightarrow> (Inr r, took c r w))"
  by (simp add: sys_def)

lemma sys_Cons: "resps w = r # rs \<Longrightarrow> sys c w = (Inr r, took c r w)"
  by (simp add: sys_apply)

lemma print_apply [prog_simps, simp]:
  "print fmt args w = (Inr (), w\<lparr>trace := trace w @ [Print fmt args]\<rparr>)"
  by (simp add: print_def)

lemma get_errno_apply [prog_simps, simp]: "get_errno w = (Inr (errno_v w), w)"
  by (simp add: get_errno_def)

lemma set_errno_apply [prog_simps, simp]: "set_errno e w = (Inr (), w\<lparr>errno_v := e\<rparr>)"
  by (simp add: set_errno_def)

text \<open>The calls that move data, with the limits POSIX sets them. Each returns the value the
  C function returns, and what it stored.\<close>

definition sys_int :: "call \<Rightarrow> (world, int) prog" where
  "sys_int c = andThen (sys c) (\<lambda>r. ret (r_val r))"

definition got :: "nat \<Rightarrow> resp \<Rightarrow> byte list" where
  "got n r = (if r_val r < 0 then [] else take n (r_data r))"

definition got_len :: "nat \<Rightarrow> resp \<Rightarrow> int" where
  "got_len n r = (if r_val r < 0 then -1 else int (length (got n r)))"

definition put_len :: "byte list \<Rightarrow> resp \<Rightarrow> int" where
  "put_len bs r = (if r_val r < 0 then -1 else min (r_val r) (int (length bs)))"

definition sys_read :: "int \<Rightarrow> nat \<Rightarrow> (world, int \<times> byte list) prog" where
  "sys_read fd n = andThen (sys (C_read fd n)) (\<lambda>r. ret (got_len n r, got n r))"

definition sys_write :: "int \<Rightarrow> byte list \<Rightarrow> (world, int) prog" where
  "sys_write fd bs = andThen (sys (C_write fd bs)) (\<lambda>r. ret (put_len bs r))"

definition sys_recv :: "int \<Rightarrow> nat \<Rightarrow> int \<Rightarrow> (world, int \<times> byte list) prog" where
  "sys_recv fd n flags = andThen (sys (C_recv fd n flags)) (\<lambda>r. ret (got_len n r, got n r))"

definition sys_recvfrom :: "int \<Rightarrow> nat \<Rightarrow> int \<Rightarrow> (world, int \<times> byte list \<times> sockaddr) prog" where
  "sys_recvfrom fd n flags =
     andThen (sys (C_recvfrom fd n flags)) (\<lambda>r. ret (got_len n r, got n r, r_addr r))"

definition sys_send :: "int \<Rightarrow> byte list \<Rightarrow> int \<Rightarrow> (world, int) prog" where
  "sys_send fd bs flags = andThen (sys (C_send fd bs flags)) (\<lambda>r. ret (put_len bs r))"

definition sys_sendto :: "int \<Rightarrow> byte list \<Rightarrow> int \<Rightarrow> sockaddr \<Rightarrow> (world, int) prog" where
  "sys_sendto fd bs flags sa = andThen (sys (C_sendto fd bs flags sa)) (\<lambda>r. ret (put_len bs r))"

text \<open>\<open>select\<close>: the number of ready descriptors, and the two sets it leaves behind.\<close>

definition ready_count :: "int set \<Rightarrow> int set \<Rightarrow> resp \<Rightarrow> int" where
  "ready_count rd wr r =
     (if r_val r < 0 then -1 else int (card (rd \<inter> r_rd r)) + int (card (wr \<inter> r_wr r)))"

definition sys_select ::
  "int set \<Rightarrow> int set \<Rightarrow> int set \<Rightarrow> int option \<Rightarrow> (world, int \<times> int set \<times> int set) prog" where
  "sys_select rd wr ex tmo = andThen (sys (C_select rd wr ex tmo))
     (\<lambda>r. ret (ready_count rd wr r,
               if r_val r < 0 then (rd, wr) else (rd \<inter> r_rd r, wr \<inter> r_wr r)))"

lemma got_len_bounds [simp]: "-1 \<le> got_len n r" "got_len n r \<le> int n"
  by (auto simp: got_len_def got_def)

lemma length_got_le [simp]: "length (got n r) \<le> n"
  by (simp add: got_def)

lemma got_len_neg_iff [simp]: "got_len n r < 0 \<longleftrightarrow> r_val r < 0"
  by (auto simp: got_len_def)

lemma got_len_nonneg: "0 \<le> got_len n r \<Longrightarrow> got_len n r = int (length (got n r))"
  by (auto simp: got_len_def split: if_splits)

lemma got_neg [simp]: "got_len n r < 0 \<Longrightarrow> got n r = []"
  by (auto simp: got_len_def got_def split: if_splits)

lemma got_len_zero: "got_len n r \<le> 0 \<Longrightarrow> got n r = []"
proof (cases "r_val r < 0")
  case True
  then show ?thesis by (simp add: got_def)
next
  case False
  moreover assume "got_len n r \<le> 0"
  ultimately show ?thesis by (simp add: got_len_def)
qed

lemma put_len_bounds: "-1 \<le> put_len bs r" "put_len bs r \<le> int (length bs)"
  by (auto simp: put_len_def)

section \<open>How a program moves the world\<close>

text \<open>Every program of the development only consumes responses and appends to the trace:
  \<open>extends w w'\<close> says that \<open>w'\<close> is a later world of the same run, \<open>lawful m\<close> that \<open>m\<close>
  leads to one. \<open>eats P m\<close> says that \<open>m\<close> uses up a response whenever it returns a value
  that satisfies \<open>P\<close>; a loop body has to do so when it goes round again.\<close>

definition extends :: "world \<Rightarrow> world \<Rightarrow> bool" where
  "extends w w' \<longleftrightarrow>
     (\<exists>used. resps w = used @ resps w') \<and> (\<exists>tr. trace w' = trace w @ tr)"

definition lawful :: "(world, 'a) prog \<Rightarrow> bool" where
  "lawful m \<longleftrightarrow> (\<forall>w r w'. m w = (r, w') \<longrightarrow> extends w w')"

definition eats :: "('a \<Rightarrow> bool) \<Rightarrow> (world, 'a) prog \<Rightarrow> bool" where
  "eats P m \<longleftrightarrow>
     (\<forall>w x w'. m w = (Inr x, w') \<longrightarrow> P x \<longrightarrow> size w' < size w)"

abbreviation repeats :: "'b + 'a \<Rightarrow> bool" where
  "repeats \<equiv> isl"

abbreviation always :: "'a \<Rightarrow> bool" where
  "always \<equiv> (\<lambda>_. True)"

text \<open>A loop body goes round again with new local variables, or leaves with a result.\<close>

abbreviation again :: "'b \<Rightarrow> (world, 'b + 'a) prog" where "again y \<equiv> ret (Inl y)"
abbreviation leave :: "'a \<Rightarrow> (world, 'b + 'a) prog" where "leave a \<equiv> ret (Inr a)"

named_theorems lawful_intros \<open>programs that only consume responses and append to the trace\<close>
named_theorems eats_intros \<open>programs that make at least one call\<close>

lemma extends_refl [simp]: "extends w w"
  by (simp add: extends_def)

lemma extends_trans [trans]: "extends a b \<Longrightarrow> extends b c \<Longrightarrow> extends a c"
  unfolding extends_def by (metis append.assoc)

lemma extends_length: "extends w w' \<Longrightarrow> size w' \<le> size w"
  by (auto simp: extends_def)

lemma lawfulD: "lawful m \<Longrightarrow> m w = (r, w') \<Longrightarrow> extends w w'"
  by (auto simp: lawful_def)

lemma eatsD: "eats P m \<Longrightarrow> m w = (Inr x, w') \<Longrightarrow> P x \<Longrightarrow> size w' < size w"
  by (auto simp: eats_def)

lemma lawful_ret [lawful_intros]: "lawful (ret x)"
  by (simp add: lawful_def)

lemma lawful_Pair [simp]: "lawful (Pair x)"
  by (simp add: lawful_def)

lemma lawful_halt [lawful_intros]: "lawful (halt e)"
  by (simp add: lawful_def)

lemma lawful_sys [lawful_intros]: "lawful (sys c)"
  by (auto simp: lawful_def sys_apply extends_def split: list.splits)

lemma lawful_print [lawful_intros]: "lawful (print fmt args)"
  by (simp add: lawful_def extends_def)

lemma lawful_get_errno [lawful_intros]: "lawful get_errno"
  by (simp add: lawful_def)

lemma lawful_set_errno [lawful_intros]: "lawful (set_errno e)"
  by (simp add: lawful_def extends_def)

lemma lawful_andThen [lawful_intros]:
  assumes "lawful m" and "\<And>x. lawful (f x)"
  shows "lawful (andThen m f)"
  using assms unfolding lawful_def andThen_apply
  by (auto split: prod.splits sum.splits) (meson extends_trans)+

lemma lawful_if [lawful_intros]:
  "(b \<Longrightarrow> lawful m) \<Longrightarrow> (\<not> b \<Longrightarrow> lawful n) \<Longrightarrow> lawful (if b then m else n)"
  by simp

lemma lawful_only_if [lawful_intros]: "(b \<Longrightarrow> lawful m) \<Longrightarrow> lawful (only_if b m)"
  by (simp add: only_if_def lawful_ret)

lemma lawful_case_option [lawful_intros]:
  "lawful m \<Longrightarrow> (\<And>x. lawful (f x)) \<Longrightarrow> lawful (case z of None \<Rightarrow> m | Some x \<Rightarrow> f x)"
  by (cases z) simp_all

lemma lawful_case_sum [lawful_intros]:
  "(\<And>x. lawful (f x)) \<Longrightarrow> (\<And>y. lawful (g y)) \<Longrightarrow> lawful (case z of Inl x \<Rightarrow> f x | Inr y \<Rightarrow> g y)"
  by (cases z) simp_all

lemma lawful_case_prod [lawful_intros]:
  "(\<And>x y. lawful (f x y)) \<Longrightarrow> lawful (case z of (x, y) \<Rightarrow> f x y)"
  by (cases z) simp_all

lemma lawful_case_list [lawful_intros]:
  "lawful m \<Longrightarrow> (\<And>x xs. lawful (f x xs)) \<Longrightarrow> lawful (case z of [] \<Rightarrow> m | x # xs \<Rightarrow> f x xs)"
  by (cases z) simp_all

lemma eats_ret: "\<not> P x \<Longrightarrow> eats P (ret x)"
  by (simp add: eats_def)

lemma eats_leave [eats_intros]: "eats repeats (leave a)"
  by (rule eats_ret) simp

lemma eats_halt [eats_intros]: "eats P (halt e)"
  by (simp add: eats_def)

lemma eats_sys [eats_intros]: "eats P (sys c)"
  by (auto simp: eats_def sys_apply split: list.splits)

lemma eats_first:
  assumes "eats always m" and "\<And>x. lawful (f x)"
  shows "eats P (andThen m f)"
  using assms unfolding eats_def lawful_def andThen_eq_Inr_iff
  by (metis extends_length leD le_less_trans not_le)

lemma eats_second:
  assumes "lawful m" and "\<And>x. eats P (f x)"
  shows "eats P (andThen m f)"
  using assms unfolding eats_def lawful_def andThen_eq_Inr_iff
  by (metis extends_length less_le_trans)

lemma eats_if [eats_intros]:
  "(b \<Longrightarrow> eats P m) \<Longrightarrow> (\<not> b \<Longrightarrow> eats P n) \<Longrightarrow> eats P (if b then m else n)"
  by simp

lemma eats_case [eats_intros]:
  "(\<And>x y. eats P (h x y)) \<Longrightarrow> eats P (case p of (x, y) \<Rightarrow> h x y)"
  "eats P m \<Longrightarrow> (\<And>x. eats P (f x)) \<Longrightarrow> eats P (case z of None \<Rightarrow> m | Some x \<Rightarrow> f x)"
  "eats P m \<Longrightarrow> (\<And>x xs. eats P (g x xs)) \<Longrightarrow> eats P (case l of [] \<Rightarrow> m | x # xs \<Rightarrow> g x xs)"
  by (cases p, simp) (cases z, simp_all, cases l, simp_all)

lemma lawful_data [lawful_intros]:
  "lawful (sys_int c)" "lawful (sys_read fd n)" "lawful (sys_write fd bs)"
  "lawful (sys_recv fd n flags)" "lawful (sys_recvfrom fd n flags)"
  "lawful (sys_send fd bs flags)" "lawful (sys_sendto fd bs flags sa)"
  "lawful (sys_select rd wr ex tmo)"
  unfolding sys_int_def sys_read_def sys_write_def sys_recv_def sys_recvfrom_def
    sys_send_def sys_sendto_def sys_select_def
  by (intro lawful_intros)+

lemma eats_data [eats_intros]:
  "eats P (sys_int c)" "eats Q (sys_read fd n)" "eats P (sys_write fd bs)"
  "eats Q (sys_recv fd n flags)" "eats R (sys_recvfrom fd n flags)"
  "eats P (sys_send fd bs flags)" "eats P (sys_sendto fd bs flags sa)"
  "eats S (sys_select rd wr ex tmo)"
  unfolding sys_int_def sys_read_def sys_write_def sys_recv_def sys_recvfrom_def
    sys_send_def sys_sendto_def sys_select_def
  by (intro eats_first eats_sys lawful_ret)+

text \<open>\<open>preserves f m\<close>: however \<open>m\<close> ends, what \<open>f\<close> observes of the world is the same before and
  after.\<close>

definition preserves :: "(world \<Rightarrow> 'x) \<Rightarrow> (world, 'a) prog \<Rightarrow> bool" where
  "preserves f m \<longleftrightarrow> (\<forall>w. f (snd (m w)) = f w)"

named_theorems preserves_intros \<open>what programs leave alone\<close>

lemma preservesD: "preserves f m \<Longrightarrow> m w = (r, w') \<Longrightarrow> f w' = f w"
  unfolding preserves_def by (metis snd_conv)

lemma preservesI: "(\<And>w r w'. m w = (r, w') \<Longrightarrow> f w' = f w) \<Longrightarrow> preserves f m"
  unfolding preserves_def by (metis prod.collapse)

lemma preserves_ret [preserves_intros]: "preserves f (ret x)" "preserves f (halt e)"
  by (simp_all add: preserves_def)

lemma preserves_Pair [simp]: "preserves f (Pair x)"
  by (simp add: preserves_def)

lemma preserves_andThen [preserves_intros]:
  assumes "preserves f m" and "\<And>x. preserves f (g x)"
  shows "preserves f (andThen m g)"
proof (rule preservesI)
  fix w r w'
  assume run: "andThen m g w = (r, w')"
  obtain b v where m: "m w = (b, v)" by fastforce
  from run m preservesD [OF assms(1) m] preservesD [OF assms(2)] show "f w' = f w"
    by (cases b) (auto simp: andThen_apply)
qed

lemma preserves_cases [preserves_intros]:
  "(b \<Longrightarrow> preserves f m) \<Longrightarrow> (\<not> b \<Longrightarrow> preserves f n) \<Longrightarrow> preserves f (if b then m else n)"
  "(b \<Longrightarrow> preserves f m') \<Longrightarrow> preserves f (only_if b m')"
  "preserves f m \<Longrightarrow> (\<And>x. preserves f (h x)) \<Longrightarrow> preserves f (case z of None \<Rightarrow> m | Some x \<Rightarrow> h x)"
  "(\<And>x y. preserves f (k x y)) \<Longrightarrow> preserves f (case p of (x, y) \<Rightarrow> k x y)"
  "preserves f m \<Longrightarrow> (\<And>x xs. preserves f (l x xs)) \<Longrightarrow> preserves f (case q of [] \<Rightarrow> m | x # xs \<Rightarrow> l x xs)"
  by (simp, simp add: only_if_def preserves_ret, cases z, simp_all, cases p, simp_all, cases q, simp_all)

lemma preserves_resps_only: "preserves f get_errno"
  by (simp add: preserves_def)

declare preserves_resps_only [preserves_intros]

text \<open>\<open>adds f k m\<close>: however \<open>m\<close> ends, it adds at most \<open>k\<close> to the count \<open>f\<close>.\<close>

definition adds :: "(world \<Rightarrow> nat) \<Rightarrow> nat \<Rightarrow> (world, 'a) prog \<Rightarrow> bool" where
  "adds f k m \<longleftrightarrow> (\<forall>w. f (snd (m w)) \<le> f w + k)"

lemma addsD: "adds f k m \<Longrightarrow> m w = (r, w') \<Longrightarrow> f w' \<le> f w + k"
  unfolding adds_def by (metis snd_conv)

lemma adds_preserves: "preserves f m \<Longrightarrow> adds f 0 m"
  by (simp add: adds_def preserves_def)

lemma adds_mono: "adds f k m \<Longrightarrow> k \<le> l \<Longrightarrow> adds f l m"
  unfolding adds_def by (meson add_left_mono le_trans)

lemma adds_andThen:
  assumes "adds f k m" and "\<And>x. adds f l (g x)"
  shows "adds f (k + l) (andThen m g)"
  unfolding adds_def
proof
  fix w
  obtain b v where m: "m w = (b, v)" by fastforce
  have k: "f v \<le> f w + k" using addsD [OF assms(1) m] .
  show "f (snd (andThen m g w)) \<le> f w + (k + l)"
  proof (cases b)
    case (Inl e)
    with m k show ?thesis by (simp add: andThen_apply)
  next
    case (Inr x)
    have "f (snd (g x v)) \<le> f v + l"
      using assms(2) by (simp add: adds_def)
    with m k Inr show ?thesis by (simp add: andThen_apply)
  qed
qed

lemma adds_then_preserves:
  "adds f k m \<Longrightarrow> (\<And>x. preserves f (g x)) \<Longrightarrow> adds f k (andThen m g)"
  using adds_andThen [of f k m 0 g] adds_preserves by fastforce

lemma preserves_then_adds:
  "preserves f m \<Longrightarrow> (\<And>x. adds f k (g x)) \<Longrightarrow> adds f k (andThen m g)"
  using adds_andThen [of f 0 m k g] adds_preserves by fastforce

section \<open>Weakest preconditions\<close>

text \<open>\<open>wp m Q E w\<close>: run from \<open>w\<close>, the program \<open>m\<close> either returns a value and a world that satisfy
  \<open>Q\<close>, or stops in a way and a world that satisfy \<open>E\<close>. The rules are directed by the program, so
  that \<open>intro wp_intros\<close> reduces a claim about a program to claims about its calls.\<close>

definition wp ::
  "('s, 'a) prog \<Rightarrow> ('a \<Rightarrow> 's \<Rightarrow> bool) \<Rightarrow> (stop \<Rightarrow> 's \<Rightarrow> bool) \<Rightarrow> 's \<Rightarrow> bool" where
  "wp m Q E s \<longleftrightarrow> (case m s of (Inl e, s') \<Rightarrow> E e s' | (Inr x, s') \<Rightarrow> Q x s')"

named_theorems wp_intros \<open>verification conditions of programs\<close>

lemma wpI:
  assumes "\<And>x s'. m s = (Inr x, s') \<Longrightarrow> Q x s'" and "\<And>e s'. m s = (Inl e, s') \<Longrightarrow> E e s'"
  shows "wp m Q E s"
  using assms by (auto simp: wp_def split: prod.split sum.split)

lemma wp_returns: "wp m Q E s \<Longrightarrow> m s = (Inr x, s') \<Longrightarrow> Q x s'"
  by (simp add: wp_def)

lemma wp_stops: "wp m Q E s \<Longrightarrow> m s = (Inl e, s') \<Longrightarrow> E e s'"
  by (simp add: wp_def)

lemma wp_step: "m s = (Inr x, s') \<Longrightarrow> Q x s' \<Longrightarrow> wp m Q E s"
  by (simp add: wp_def)

lemma wp_mono:
  assumes "wp m Q E s" and "\<And>x s'. Q x s' \<Longrightarrow> Q' x s'" and "\<And>e s'. E e s' \<Longrightarrow> E' e s'"
  shows "wp m Q' E' s"
  using assms by (auto simp: wp_def split: prod.splits sum.splits)

lemma wp_ret [wp_intros]: "Q x s \<Longrightarrow> wp (ret x) Q E s"
  by (simp add: wp_def)

lemma wp_Pair [wp_intros]: "Q x s \<Longrightarrow> wp (Pair (Inr x)) Q E s"
  by (simp add: wp_def)

lemma wp_halt [wp_intros]: "E e s \<Longrightarrow> wp (halt e) Q E s"
  by (simp add: wp_def)

lemma wp_andThen [wp_intros]: "wp m (\<lambda>x. wp (f x) Q E) E s \<Longrightarrow> wp (andThen m f) Q E s"
  by (auto simp: wp_def andThen_apply split: prod.splits sum.splits)

lemma wp_cases [wp_intros]:
  "(b \<Longrightarrow> wp m Q E s) \<Longrightarrow> (\<not> b \<Longrightarrow> wp n Q E s) \<Longrightarrow> wp (if b then m else n) Q E s"
  "(z = None \<Longrightarrow> wp m Q E s) \<Longrightarrow> (\<And>x. z = Some x \<Longrightarrow> wp (f x) Q E s) \<Longrightarrow>
     wp (case z of None \<Rightarrow> m | Some x \<Rightarrow> f x) Q E s"
  "(\<And>x y. p = (x, y) \<Longrightarrow> wp (g x y) Q E s) \<Longrightarrow> wp (case p of (x, y) \<Rightarrow> g x y) Q E s"
  "(l = [] \<Longrightarrow> wp m Q E s) \<Longrightarrow> (\<And>x xs. l = x # xs \<Longrightarrow> wp (h x xs) Q E s) \<Longrightarrow>
     wp (case l of [] \<Rightarrow> m | x # xs \<Rightarrow> h x xs) Q E s"
  by (simp, cases z, simp_all, cases p, simp_all, cases l, simp_all)

lemma wp_case_sum [wp_intros]:
  "(\<And>x. z = Inl x \<Longrightarrow> wp (f x) Q E s) \<Longrightarrow> (\<And>y. z = Inr y \<Longrightarrow> wp (g y) Q E s) \<Longrightarrow>
     wp (case z of Inl x \<Rightarrow> f x | Inr y \<Rightarrow> g y) Q E s"
  by (cases z) simp_all

lemma wp_only_if [wp_intros]:
  "(b \<Longrightarrow> wp m Q E s) \<Longrightarrow> (\<not> b \<Longrightarrow> Q () s) \<Longrightarrow> wp (only_if b m) Q E s"
  by (simp add: only_if_def wp_ret)

lemma wp_sys [wp_intros]:
  assumes "\<And>r. Q r (took c r w)" and "E Blocked w"
  shows "wp (sys c) Q E w"
  using assms by (auto simp: wp_def sys_apply split: list.split)

lemma wp_print [wp_intros]:
  "Q () (w\<lparr>trace := trace w @ [Print fmt args]\<rparr>) \<Longrightarrow> wp (print fmt args) Q E w"
  by (simp add: wp_def)

lemma wp_errno [wp_intros]:
  "Q (errno_v w) w \<Longrightarrow> wp get_errno Q E w"
  "Q' () (w\<lparr>errno_v := err\<rparr>) \<Longrightarrow> wp (set_errno err) Q' E w"
  by (simp_all add: wp_def)

text \<open>Lines that are logged: an observation that does not depend on them is not changed by an
  error message.\<close>

fun is_log :: "event \<Rightarrow> bool" where
  "is_log (Did c r) = False"
| "is_log ev = True"

section \<open>Loops\<close>

text \<open>\<open>loop body x\<close> runs \<open>body\<close> on the loop's local variables until it gives a result
  (\<open>Inr\<close>) or stops. The fuel is one more than the number of responses left, which is enough
  for every body that makes a call in each round it repeats.\<close>

fun loop_fuel :: "nat \<Rightarrow> ('b \<Rightarrow> (world, 'b + 'a) prog) \<Rightarrow> 'b \<Rightarrow> (world, 'a) prog" where
  "loop_fuel 0 body x w = (Inl Spin, w)"
| "loop_fuel (Suc n) body x w =
     (case body x w of
        (Inl e, w') \<Rightarrow> (Inl e, w')
      | (Inr (Inr a), w') \<Rightarrow> (Inr a, w')
      | (Inr (Inl y), w') \<Rightarrow> loop_fuel n body y w')"

definition loop :: "('b \<Rightarrow> (world, 'b + 'a) prog) \<Rightarrow> 'b \<Rightarrow> (world, 'a) prog" where
  "loop body x = (\<lambda>w. loop_fuel (Suc (size w)) body x w)"

locale consuming =
  fixes body :: "'b \<Rightarrow> (world, 'b + 'a) prog"
  assumes body_eats: "eats repeats (body x)"
begin

lemma consumes: "body x w = (Inr (Inl y), w') \<Longrightarrow> size w' < size w"
  using eatsD [OF body_eats] by fastforce

lemma fuel_enough:
  "size w < n \<Longrightarrow> size w < m \<Longrightarrow>
     loop_fuel n body x w = loop_fuel m body x w"
proof (induction n arbitrary: m x w)
  case 0
  then show ?case by simp
next
  case (Suc n)
  then obtain k where m: "m = Suc k" by (cases m) auto
  have "loop_fuel n body y w' = loop_fuel k body y w'"
    if "body x w = (Inr (Inl y), w')" for y w'
    using consumes [OF that] Suc.prems m by (intro Suc.IH) auto
  then show ?case
    by (auto simp: m split: prod.splits sum.splits)
qed

lemma loop_unfold:
  "loop body x w =
     (case body x w of
        (Inl e, w') \<Rightarrow> (Inl e, w')
      | (Inr (Inr a), w') \<Rightarrow> (Inr a, w')
      | (Inr (Inl y), w') \<Rightarrow> loop body y w')"
proof -
  have "loop_fuel (size w) body y w' = loop body y w'"
    if "body x w = (Inr (Inl y), w')" for y w'
    unfolding loop_def using consumes [OF that] by (intro fuel_enough) auto
  then show ?thesis
    by (auto simp: loop_def split: prod.splits sum.splits)
qed

text \<open>The invariant rule: \<open>I\<close> holds on entry and is kept by every round that repeats; a round
  that leaves establishes \<open>Q\<close>, a round that stops establishes \<open>E\<close>.\<close>

lemma loop_rule:
  assumes run: "loop body x w = (r, w')"
    and init: "I x w"
    and step: "\<And>x w y w'. I x w \<Longrightarrow> body x w = (Inr (Inl y), w') \<Longrightarrow> I y w'"
    and leave: "\<And>x w a w'. I x w \<Longrightarrow> body x w = (Inr (Inr a), w') \<Longrightarrow> Q (Inr a) w'"
    and stop: "\<And>x w e w'. I x w \<Longrightarrow> body x w = (Inl e, w') \<Longrightarrow> Q (Inl e) w'"
  shows "Q r w'"
  using run init
proof (induction "size w" arbitrary: x w rule: less_induct)
  case less
  show ?case
  proof (cases "body x w")
    case (Pair b v)
    show ?thesis
    proof (cases b)
      case (Inl e)
      with Pair less.prems stop show ?thesis
        by (auto simp: loop_unfold [of x w])
    next
      case (Inr c)
      show ?thesis
      proof (cases c)
        case (Inl y)
        with Pair Inr less.prems have "loop body y v = (r, w')" and "I y v"
          using step by (auto simp: loop_unfold [of x w])
        then show ?thesis
          using less.hyps consumes Pair Inr Inl by blast
      next
        case (Inr a)
        with Pair \<open>b = Inr c\<close> less.prems leave show ?thesis
          by (auto simp: loop_unfold [of x w])
      qed
    qed
  qed
qed

lemma loop_wp:
  assumes "I x w"
    and "\<And>x w. I x w \<Longrightarrow> wp (body x) (\<lambda>z v. case z of Inl y \<Rightarrow> I y v | Inr a \<Rightarrow> Q a v) E w"
  shows "wp (loop body x) Q E w"
proof -
  have step: "I y v'" if "I x v" "body x v = (Inr (Inl y), v')" for x v y v'
    using wp_returns [OF assms(2) [OF that(1)] that(2)] by simp
  have leave: "Q a v'" if "I x v" "body x v = (Inr (Inr a), v')" for x v a v'
    using wp_returns [OF assms(2) [OF that(1)] that(2)] by simp
  have stop: "E e v'" if "I x v" "body x v = (Inl e, v')" for x v e v'
    using wp_stops [OF assms(2) [OF that(1)] that(2)] .
  have "case res of Inl e \<Rightarrow> E e w' | Inr a \<Rightarrow> Q a w'" if run: "loop body x w = (res, w')" for res w'
    by (rule loop_rule [where I = I and Q = "\<lambda>res v. case res of Inl e \<Rightarrow> E e v | Inr a \<Rightarrow> Q a v",
        OF run assms(1)]) (auto intro: step leave stop)
  then show ?thesis
    by (intro wpI) fastforce+
qed

lemma loop_lawful:
  assumes "\<And>x. lawful (body x)"
  shows "lawful (loop body x)"
  unfolding lawful_def
proof (intro allI impI)
  fix w r w'
  assume "loop body x w = (r, w')"
  then show "extends w w'"
    by (rule loop_rule [where I = "\<lambda>_ v. extends w v" and Q = "\<lambda>_ v. extends w v"])
      (auto intro: extends_trans lawfulD [OF assms])
qed

lemma loop_preserves:
  assumes "\<And>x. preserves f (body x)"
  shows "preserves f (loop body x)"
proof (rule preservesI)
  fix w r w'
  assume "loop body x w = (r, w')"
  then show "f w' = f w"
    by (rule loop_rule [where I = "\<lambda>_ v. f v = f w" and Q = "\<lambda>_ v. f v = f w"])
      (auto dest: preservesD [OF assms])
qed

lemma loop_eats:
  assumes "\<And>x. lawful (body x)" and "\<And>x. eats always (body x)"
  shows "eats P (loop body x)"
  unfolding eats_def
proof (intro allI impI)
  fix w a w'
  assume run: "loop body x w = (Inr a, w')"
  obtain b v where b: "body x w = (b, v)" by fastforce
  then obtain c where c: "b = Inr c"
    using run by (cases b) (auto simp: loop_unfold [of x w])
  with b have less: "size v < size w"
    using assms(2) by (auto simp: eats_def)
  show "size w' < size w"
  proof (cases c)
    case (Inl y)
    with run b c have "loop body y v = (Inr a, w')"
      by (simp add: loop_unfold [of x w])
    then have "extends v w'"
      using loop_lawful [OF assms(1)] lawfulD by blast
    with less show ?thesis
      using extends_length by fastforce
  next
    case (Inr a')
    with run b c less show ?thesis
      by (simp add: loop_unfold [of x w])
  qed
qed

lemma loop_not_spin:
  assumes "loop body x w = (Inl e, w')"
    and "\<And>x w e w'. body x w = (Inl e, w') \<Longrightarrow> e \<noteq> Spin"
  shows "e \<noteq> Spin"
  using loop_rule [where I = "\<lambda>_ _. True" and Q = "\<lambda>r _. r \<noteq> Inl Spin", OF assms(1)] assms(2)
  by blast

end

end
