(* ===== verification/Errors.thy ===== *)
theory Errors
  imports Posix
begin

text \<open>
  \<open>error.cpp\<close>: the functions through which every program reports an error. \<open>err_doit\<close>
  composes the line in a buffer of \<open>MAXLINE + 1\<close> bytes and sends it to \<open>syslog\<close> or to the
  standard error; the five functions around it choose whether \<open>errno\<close> is reported, the
  \<open>syslog\<close> level and how the process goes on. The trace records a line by the caller's
  format string; \<open>err_line\<close> models the buffer itself, on the message after \<open>vsnprintf\<close>
  has expanded the format (\<open>msg\<close>) and the text of \<open>strerror\<close> (\<open>errstr\<close>).
\<close>

definition LOG_ERR :: int where "LOG_ERR = 3"
definition LOG_INFO :: int where "LOG_INFO = 6"

section \<open>The line that is printed\<close>

text \<open>\<open>have_vsnprintf\<close> is the macro \<open>HAVE_VSNPRINTF\<close>: without it the message is expanded by
  \<open>vsprintf\<close>, which does not know the size of the buffer. Each write that would need more
  than the \<open>MAXLINE + 1\<close> bytes of the buffer is undefined behaviour.\<close>

definition err_line :: "bool \<Rightarrow> bool \<Rightarrow> string \<Rightarrow> string \<Rightarrow> stop + string" where
  "err_line have_vsnprintf errnoflag msg errstr =
     (if \<not> have_vsnprintf \<and> MAXLINE + 1 < length msg + 1 then Inl (Undef ''vsprintf'')
      else
        let buf = (if have_vsnprintf then take (MAXLINE - 1) msg else msg);
            n = length buf;
            buf = (if errnoflag then buf @ take (MAXLINE - n - 1) ('': '' @ errstr) else buf)
        in if MAXLINE + 1 < length buf + 1 + 1 then Inl (Undef ''strcat'')
           else Inr (buf @ [CHR 0x0A]))"

text \<open>With \<open>vsnprintf\<close> the composed line always fits, whatever the message and the error
  text; without it the line fits exactly when the expanded message is shorter than
  \<open>MAXLINE\<close>.\<close>

lemma err_line_safe:
  "\<exists>line. err_line True errnoflag msg errstr = Inr line \<and> length line \<le> MAXLINE"
  by (auto simp: err_line_def Let_def MAXLINE_def min_def)

lemma err_line_unsafe_iff:
  "(\<exists>line. err_line False errnoflag msg errstr = Inr line) \<longleftrightarrow> length msg < MAXLINE"
  by (auto simp: err_line_def Let_def MAXLINE_def min_def)

lemma err_line_text:
  assumes "length msg + length errstr + 3 \<le> MAXLINE"
  shows "err_line b True msg errstr = Inr (msg @ '': '' @ errstr @ [CHR 0x0A])"
    and "err_line b False msg errstr = Inr (msg @ [CHR 0x0A])"
  using assms by (auto simp: err_line_def Let_def MAXLINE_def)

section \<open>The five functions\<close>

definition err_doit :: "bool \<Rightarrow> int \<Rightarrow> string \<Rightarrow> (world, unit) prog" where
  "err_doit errnoflag level fmt = (\<lambda>w.
     let errno_save = (if errnoflag then Some (errno_v w) else None)
     in (Inr (), w\<lparr>trace := trace w @
          [if daemon_proc w then Syslog level fmt errno_save else Stderr fmt errno_save]\<rparr>))"

definition err_ret :: "string \<Rightarrow> (world, unit) prog" where
  "err_ret fmt = err_doit True LOG_INFO fmt"

definition err_sys :: "string \<Rightarrow> (world, 'a) prog" where
  "err_sys fmt = andThen (err_doit True LOG_ERR fmt) (\<lambda>_. halt (Exit 1 fmt))"

definition err_dump :: "string \<Rightarrow> (world, 'a) prog" where
  "err_dump fmt = andThen (err_doit True LOG_ERR fmt) (\<lambda>_. halt (Abort fmt))"

definition err_msg :: "string \<Rightarrow> (world, unit) prog" where
  "err_msg fmt = err_doit False LOG_INFO fmt"

definition err_quit :: "string \<Rightarrow> (world, 'a) prog" where
  "err_quit fmt = andThen (err_doit False LOG_ERR fmt) (\<lambda>_. halt (Exit 1 fmt))"

text \<open>\<open>fprintf (stderr, \<dots>)\<close>.\<close>

definition complain :: "string \<Rightarrow> (world, unit) prog" where
  "complain fmt = (\<lambda>w. (Inr (), w\<lparr>trace := trace w @ [Stderr fmt None]\<rparr>))"

lemma err_doit_apply [prog_simps]:
  "err_doit f l fmt w = (Inr (), w\<lparr>trace := trace w @
     [if daemon_proc w then Syslog l fmt (if f then Some (errno_v w) else None)
      else Stderr fmt (if f then Some (errno_v w) else None)]\<rparr>)"
  by (simp add: err_doit_def Let_def)

lemmas err_defs = err_ret_def err_sys_def err_dump_def err_msg_def err_quit_def

lemma complain_apply [simp, prog_simps]:
  "complain fmt w = (Inr (), w\<lparr>trace := trace w @ [Stderr fmt None]\<rparr>)"
  by (simp add: complain_def)

text \<open>The fatal functions never return to their caller, and stop with status 1.\<close>

lemma err_sys_apply [simp]:
  "err_sys fmt w = (Inl (Exit 1 fmt), snd (err_doit True LOG_ERR fmt w))"
  by (simp add: err_sys_def andThen_apply err_doit_apply)

lemma err_quit_apply [simp]:
  "err_quit fmt w = (Inl (Exit 1 fmt), snd (err_doit False LOG_ERR fmt w))"
  by (simp add: err_quit_def andThen_apply err_doit_apply)

lemma andThen_err [simp]:
  "andThen (err_sys fmt) f = err_sys fmt" "andThen (err_quit fmt) g = err_quit fmt"
  by (simp_all add: fun_eq_iff andThen_apply)

lemma lawful_err [lawful_intros]:
  "lawful (err_doit f l fmt)" "lawful (err_sys fmt)" "lawful (err_quit fmt)"
  "lawful (err_ret fmt)" "lawful (err_msg fmt)" "lawful (err_dump fmt)" "lawful (complain fmt)"
  by (auto simp: lawful_def extends_def err_defs andThen_apply err_doit_apply)

lemma eats_err [eats_intros]: "eats P (err_sys fmt)" "eats Q (err_quit fmt)"
  by (simp_all add: eats_def)

text \<open>Verification conditions: a fatal error stops after one logged line.\<close>

lemma wp_err [wp_intros]:
  assumes "\<And>ev. is_log ev \<Longrightarrow> E (Exit 1 fmt) (w\<lparr>trace := trace w @ [ev]\<rparr>)"
  shows "wp (err_sys fmt) Q E w" "wp (err_quit fmt) Q E w"
  using assms by (simp_all add: wp_def err_doit_apply)

lemma wp_msg [wp_intros]:
  assumes "\<And>ev. is_log ev \<Longrightarrow> Q () (w\<lparr>trace := trace w @ [ev]\<rparr>)"
  shows "wp (err_ret fmt) Q E w" "wp (err_msg fmt) Q E w" "wp (complain fmt) Q E w"
  using assms by (simp_all add: wp_def err_ret_def err_msg_def err_doit_apply)

end
