(* ===== verification/Wrappers.thy ===== *)
theory Wrappers
  imports Errors
begin

text \<open>
  The capitalised wrappers of \<open>wrapsock.cpp\<close>, \<open>wrapunix.cpp\<close>, \<open>wrapstdio.cpp\<close>,
  \<open>wraplib.cpp\<close> and \<open>wrappthread.cpp\<close>: each makes one call and ends the process through
  \<open>err_sys\<close> or \<open>err_quit\<close> when the call fails, so that no other program of the repository
  has to look at an error. The locale \<open>checked_call\<close> is that contract, and every wrapper is
  an interpretation of it but for \<open>Accept\<close>, which retries, \<open>Listen\<close> and \<open>Mkstemp\<close>, which
  make two calls, and \<open>Inet_ntop\<close>, \<open>Inet_pton\<close>, which can fail in two ways.
\<close>

named_theorems wrap_defs \<open>the definitions of the wrapper functions\<close>

section \<open>The contract\<close>

text \<open>\<open>v\<close> is \<open>w\<close> with a line logged, and perhaps another \<open>errno\<close>.\<close>

definition logged :: "world \<Rightarrow> world \<Rightarrow> bool" where
  "logged w v \<longleftrightarrow> (\<exists>ev err. is_log ev \<and> v = w\<lparr>trace := trace w @ [ev], errno_v := err\<rparr>)"

lemma logged_simps [simp]:
  "is_log ev \<Longrightarrow> logged w (w\<lparr>trace := trace w @ [ev]\<rparr>)"
  "is_log ev \<Longrightarrow> logged w (w\<lparr>errno_v := err, trace := trace w @ [ev]\<rparr>)"
proof -
  assume ev: "is_log ev"
  then show "logged w (w\<lparr>trace := trace w @ [ev]\<rparr>)"
    unfolding logged_def by (intro exI [of _ ev] exI [of _ "errno_v w"]) simp
  from ev show "logged w (w\<lparr>errno_v := err, trace := trace w @ [ev]\<rparr>)"
    unfolding logged_def by (intro exI [of _ ev] exI [of _ err]) simp
qed

lemma logged_extends: "logged w v \<Longrightarrow> extends w v"
  by (auto simp: logged_def extends_def)

text \<open>\<open>m\<close> makes the call \<open>c\<close>; when the response is not \<open>bad\<close> it returns \<open>val\<close> of it, and
  otherwise it stops with status 1 after logging \<open>msg\<close>.\<close>

locale checked_call =
  fixes m :: "(world, 'a) prog" and c :: call and bad :: "resp \<Rightarrow> bool"
    and val :: "resp \<Rightarrow> 'a" and msg :: string
  assumes blocked: "sys c w = (Inl e, w') \<Longrightarrow> m w = (Inl e, w')"
    and good: "sys c w = (Inr r, w') \<Longrightarrow> \<not> bad r \<Longrightarrow> m w = (Inr (val r), w')"
    and failed: "sys c w = (Inr r, w') \<Longrightarrow> bad r \<Longrightarrow>
      \<exists>v. m w = (Inl (Exit 1 msg), v) \<and> logged w' v"
begin

lemma cases_call:
  obtains (none) "m w = (Inl Blocked, w)" "resps w = []"
  | (returns) r v where "sys c w = (Inr r, v)" "\<not> bad r" "m w = (Inr (val r), v)"
  | (exits) r v v' where "sys c w = (Inr r, v)" "bad r" "m w = (Inl (Exit 1 msg), v')"
      "extends v v'" "logged v v'"
proof (cases "sys c w")
  case (Pair b v)
  show ?thesis
  proof (cases b)
    case (Inl e)
    with Pair have "resps w = []" and "e = Blocked" and "v = w"
      by (auto simp: sys_apply split: list.splits)
    then show ?thesis
      using blocked Pair Inl that(1) by blast
  next
    case (Inr r)
    show ?thesis
    proof (cases "bad r")
      case True
      then obtain v' where "m w = (Inl (Exit 1 msg), v')" "logged v v'"
        using failed Pair Inr by blast
      with Pair Inr True that(3) show ?thesis using logged_extends by blast
    next
      case False
      then show ?thesis
        using good Pair Inr that(2) by blast
    qed
  qed
qed

lemma returns_only_good:
  assumes "m w = (Inr x, w')"
  shows "\<exists>r. sys c w = (Inr r, w') \<and> \<not> bad r \<and> x = val r"
  using assms by (cases w rule: cases_call) auto

lemma lawful_call: "lawful m"
  unfolding lawful_def
proof (intro allI impI)
  fix w r w'
  assume m: "m w = (r, w')"
  show "extends w w'"
  proof (cases w rule: cases_call)
    case none
    with m show ?thesis by simp
  next
    case (returns x v)
    with m lawfulD [OF lawful_sys] show ?thesis by fastforce
  next
    case (exits x v v')
    with m lawfulD [OF lawful_sys] extends_trans show ?thesis by fastforce
  qed
qed

lemma eats_call: "eats P m"
  unfolding eats_def
proof (intro allI impI)
  fix w x w'
  assume "m w = (Inr x, w')"
  then obtain r where "sys c w = (Inr r, w')"
    using returns_only_good by blast
  then show "size w' < size w"
    using eatsD [OF eats_sys [where P = always]] by blast
qed

lemma wp_call:
  assumes "E Blocked w"
    and "\<And>r. \<not> bad r \<Longrightarrow> Q (val r) (took c r w)"
    and "\<And>r ev err. bad r \<Longrightarrow> is_log ev \<Longrightarrow>
      E (Exit 1 msg) (took c r w\<lparr>trace := trace w @ [Did c r, ev], errno_v := err\<rparr>)"
  shows "wp m Q E w"
proof (cases w rule: cases_call)
  case none
  then show ?thesis using assms(1) by (simp add: wp_def)
next
  case (returns r v)
  then have "v = took c r w" by (auto simp: sys_apply split: list.splits)
  with returns show ?thesis using assms(2) by (simp add: wp_def)
next
  case (exits r v v')
  then have "v = took c r w" by (auto simp: sys_apply split: list.splits)
  with exits obtain ev err where "is_log ev"
    "v' = took c r w\<lparr>trace := trace w @ [Did c r, ev], errno_v := err\<rparr>" by (auto simp: logged_def)
  with exits show ?thesis using assms(3) by (auto simp: wp_def)
qed

lemma never_spins: "m w = (Inl e, w') \<Longrightarrow> e \<noteq> Spin"
  by (cases w rule: cases_call) auto

end

text \<open>The shape all of them are written in: the call, the test, the error function.\<close>

lemma checked_sys:
  "checked_call (andThen (sys c) (\<lambda>r. if bad r then err_sys msg else ret (val r))) c bad val msg"
  by unfold_locales (auto simp: andThen_apply err_doit_apply)

lemma checked_quit:
  "checked_call (andThen (sys c) (\<lambda>r. if bad r then err_quit msg else ret (val r))) c bad val msg"
  by unfold_locales (auto simp: andThen_apply err_doit_apply)

abbreviation negative :: "resp \<Rightarrow> bool" where
  "negative r \<equiv> r_val r < 0"

section \<open>wrapsock.cpp\<close>

definition accept_round :: "int \<Rightarrow> unit \<Rightarrow> (world, unit + int \<times> sockaddr) prog" where
  "accept_round fd _ = andThen (sys (C_accept fd)) (\<lambda>r.
     if r_val r < 0 then
       andThen get_errno (\<lambda>errno.
         if errno = EPROTO \<or> errno = ECONNABORTED then again ()
         else err_sys ''accept error'')
     else leave (r_val r, r_addr r))"

definition Accept :: "int \<Rightarrow> (world, int \<times> sockaddr) prog" where
  "Accept fd = loop (accept_round fd) ()"

definition Bind :: "int \<Rightarrow> sockaddr \<Rightarrow> (world, unit) prog" where
  [wrap_defs]: "Bind fd sa = andThen (sys (C_bind fd sa))
     (\<lambda>r. if r_val r < 0 then err_sys ''bind error'' else ret ())"

definition Connect :: "int \<Rightarrow> sockaddr \<Rightarrow> (world, unit) prog" where
  [wrap_defs]: "Connect fd sa = andThen (sys (C_connect fd sa))
     (\<lambda>r. if r_val r < 0 then err_sys ''connect error'' else ret ())"

definition Getpeername :: "int \<Rightarrow> (world, sockaddr) prog" where
  [wrap_defs]: "Getpeername fd = andThen (sys (C_getpeername fd))
     (\<lambda>r. if r_val r < 0 then err_sys ''getpeername error'' else ret (r_addr r))"

definition Getsockname :: "int \<Rightarrow> (world, sockaddr) prog" where
  [wrap_defs]: "Getsockname fd = andThen (sys (C_getsockname fd))
     (\<lambda>r. if r_val r < 0 then err_sys ''getsockname error'' else ret (r_addr r))"

definition Getsockopt :: "int \<Rightarrow> int \<Rightarrow> int \<Rightarrow> (world, int list) prog" where
  [wrap_defs]: "Getsockopt fd level optname = andThen (sys (C_getsockopt fd level optname))
     (\<lambda>r. if r_val r < 0 then err_sys ''getsockopt error'' else ret (r_aux r))"

definition Inet6_rth_space :: "int \<Rightarrow> int \<Rightarrow> (world, int) prog" where
  [wrap_defs]: "Inet6_rth_space type segments =
     andThen (sys (C_lib ''inet6_rth_space'' [type, segments] []))
     (\<lambda>r. if r_val r < 0 then err_quit ''inet6_rth_space error'' else ret (r_val r))"

definition Inet6_rth_init :: "int \<Rightarrow> int \<Rightarrow> int \<Rightarrow> int \<Rightarrow> (world, int) prog" where
  [wrap_defs]: "Inet6_rth_init rthbuf rthlen type segments =
     andThen (sys (C_lib ''inet6_rth_init'' [rthbuf, rthlen, type, segments] []))
     (\<lambda>r. if r_val r = 0 then err_quit ''inet6_rth_init error'' else ret (r_val r))"

definition Inet6_rth_add :: "int \<Rightarrow> byte list \<Rightarrow> (world, unit) prog" where
  [wrap_defs]: "Inet6_rth_add rthbuf addr = andThen (sys (C_lib ''inet6_rth_add'' [rthbuf] addr))
     (\<lambda>r. if r_val r < 0 then err_quit ''inet6_rth_add error'' else ret ())"

definition Inet6_rth_reverse :: "int \<Rightarrow> int \<Rightarrow> (world, unit) prog" where
  [wrap_defs]: "Inet6_rth_reverse inb outb =
     andThen (sys (C_lib ''inet6_rth_reverse'' [inb, outb] []))
     (\<lambda>r. if r_val r < 0 then err_quit ''inet6_rth_reverse error'' else ret ())"

definition Inet6_rth_segments :: "int \<Rightarrow> (world, int) prog" where
  [wrap_defs]: "Inet6_rth_segments rthbuf =
     andThen (sys (C_lib ''inet6_rth_segments'' [rthbuf] []))
     (\<lambda>r. if r_val r < 0 then err_quit ''inet6_rth_segments error'' else ret (r_val r))"

definition Inet6_rth_getaddr :: "int \<Rightarrow> int \<Rightarrow> (world, int) prog" where
  [wrap_defs]: "Inet6_rth_getaddr rthbuf idx =
     andThen (sys (C_lib ''inet6_rth_getaddr'' [rthbuf, idx] []))
     (\<lambda>r. if r_val r = 0 then err_quit ''inet6_rth_getaddr error'' else ret (r_val r))"

definition Kqueue :: "(world, int) prog" where
  [wrap_defs]: "Kqueue = andThen (sys (C_lib ''kqueue'' [] []))
     (\<lambda>r. if r_val r < 0 then err_sys ''kqueue error'' else ret (r_val r))"

definition Kevent :: "int \<Rightarrow> int \<Rightarrow> int \<Rightarrow> (world, int) prog" where
  [wrap_defs]: "Kevent kq nchanges nevents =
     andThen (sys (C_lib ''kevent'' [kq, nchanges, nevents] []))
     (\<lambda>r. if r_val r < 0 then err_sys ''kevent error'' else ret (r_val r))"

text \<open>\<open>Listen\<close>: the environment variable \<open>LISTENQ\<close> overrides the backlog.\<close>

definition Listen :: "int \<Rightarrow> int \<Rightarrow> (world, unit) prog" where
  "Listen fd backlog = andThen (sys (C_lib ''getenv'' [] (lit ''LISTENQ''))) (\<lambda>env.
     let backlog = (if r_val env \<noteq> 0 then atoi (r_data env) else backlog)
     in andThen (sys (C_listen fd backlog))
       (\<lambda>r. if r_val r < 0 then err_sys ''listen error'' else ret ()))"

text \<open>\<open>poll\<close> fills in the events it found: none for an entry whose descriptor is negative, and
  its value is the number of entries with some.\<close>

definition revents_of :: "(int \<times> int) list \<Rightarrow> resp \<Rightarrow> int list" where
  "revents_of fds r = map (\<lambda>i. if fst (fds ! i) < 0 then 0 else aux r i) [0..<length fds]"

definition Poll :: "(int \<times> int) list \<Rightarrow> int \<Rightarrow> (world, int \<times> int list) prog" where
  [wrap_defs]: "Poll fdarray timeout = andThen (sys (C_poll fdarray timeout))
     (\<lambda>r. if r_val r < 0 then err_sys ''poll error''
          else let re = revents_of fdarray r in ret (int (length (filter (\<lambda>e. e \<noteq> 0) re)), re))"

definition Recv :: "int \<Rightarrow> nat \<Rightarrow> int \<Rightarrow> (world, byte list) prog" where
  [wrap_defs]: "Recv fd nbytes flags = andThen (sys (C_recv fd nbytes flags))
     (\<lambda>r. if got_len nbytes r < 0 then err_sys ''recv error'' else ret (got nbytes r))"

definition Recvfrom :: "int \<Rightarrow> nat \<Rightarrow> int \<Rightarrow> (world, byte list \<times> sockaddr) prog" where
  [wrap_defs]: "Recvfrom fd nbytes flags = andThen (sys (C_recvfrom fd nbytes flags))
     (\<lambda>r. if got_len nbytes r < 0 then err_sys ''recvfrom error''
          else ret (got nbytes r, r_addr r))"

definition Recvmsg :: "int \<Rightarrow> nat \<Rightarrow> int \<Rightarrow> (world, byte list \<times> resp) prog" where
  [wrap_defs]: "Recvmsg fd nbytes flags = andThen (sys (C_recvmsg fd nbytes flags))
     (\<lambda>r. if got_len nbytes r < 0 then err_sys ''recvmsg error'' else ret (got nbytes r, r))"

text \<open>\<open>select\<close> looks at the descriptors below its first argument. Where the code computes that from the
  members of the sets it passes, the call has no such argument; where a program keeps the largest
  descriptor in a variable of its own, which may be wrong, the sets are cut off at it by \<open>upto_fd\<close>.\<close>

definition upto_fd :: "int \<Rightarrow> int set \<Rightarrow> int set" where
  "upto_fd maxfd S = {fd \<in> S. fd \<le> maxfd}"

lemma upto_fd_simps [simp]:
  "upto_fd maxfd {} = {}" "upto_fd maxfd (insert fd S) = (if fd \<le> maxfd then insert fd (upto_fd maxfd S) else upto_fd maxfd S)"
  by (auto simp: upto_fd_def)

lemma upto_fd_id: "\<forall>fd\<in>S. fd \<le> maxfd \<Longrightarrow> upto_fd maxfd S = S"
  by (auto simp: upto_fd_def)

lemma upto_fd_subset: "upto_fd maxfd S \<subseteq> S"
  by (auto simp: upto_fd_def)

definition Select ::
  "int set \<Rightarrow> int set \<Rightarrow> int set \<Rightarrow> int option \<Rightarrow> (world, int \<times> int set \<times> int set) prog" where
  [wrap_defs]: "Select readfds writefds exceptfds timeout =
     andThen (sys (C_select readfds writefds exceptfds timeout))
     (\<lambda>r. if ready_count readfds writefds r < 0 then err_sys ''select error''
          else ret (ready_count readfds writefds r, readfds \<inter> r_rd r, writefds \<inter> r_wr r))"

definition Send :: "int \<Rightarrow> byte list \<Rightarrow> int \<Rightarrow> (world, unit) prog" where
  [wrap_defs]: "Send fd bs flags = andThen (sys (C_send fd bs flags))
     (\<lambda>r. if put_len bs r \<noteq> int (length bs) then err_sys ''send error'' else ret ())"

definition Sendto :: "int \<Rightarrow> byte list \<Rightarrow> int \<Rightarrow> sockaddr \<Rightarrow> (world, unit) prog" where
  [wrap_defs]: "Sendto fd bs flags sa = andThen (sys (C_sendto fd bs flags sa))
     (\<lambda>r. if put_len bs r \<noteq> int (length bs) then err_sys ''sendto error'' else ret ())"

definition Sendmsg :: "int \<Rightarrow> byte list list \<Rightarrow> int \<Rightarrow> (world, unit) prog" where
  [wrap_defs]: "Sendmsg fd iov flags =
     (let nbytes = foldl (\<lambda>n v. n + int (length v)) 0 iov
      in andThen (sys (C_sendmsg fd (concat iov) flags))
        (\<lambda>r. if put_len (concat iov) r \<noteq> nbytes then err_sys ''sendmsg error'' else ret ()))"

definition Setsockopt :: "int \<Rightarrow> int \<Rightarrow> int \<Rightarrow> int list \<Rightarrow> (world, unit) prog" where
  [wrap_defs]: "Setsockopt fd level optname optval =
     andThen (sys (C_setsockopt fd level optname optval))
     (\<lambda>r. if r_val r < 0 then err_sys ''setsockopt error'' else ret ())"

definition Shutdown :: "int \<Rightarrow> int \<Rightarrow> (world, unit) prog" where
  [wrap_defs]: "Shutdown fd how = andThen (sys (C_shutdown fd how))
     (\<lambda>r. if r_val r < 0 then err_sys ''shutdown error'' else ret ())"

definition Sockatmark :: "int \<Rightarrow> (world, int) prog" where
  [wrap_defs]: "Sockatmark fd = andThen (sys (C_lib ''sockatmark'' [fd] []))
     (\<lambda>r. if r_val r < 0 then err_sys ''sockatmark error'' else ret (r_val r))"

definition Socket :: "int \<Rightarrow> int \<Rightarrow> int \<Rightarrow> (world, int) prog" where
  [wrap_defs]: "Socket family type protocol = andThen (sys (C_socket family type protocol))
     (\<lambda>r. if r_val r < 0 then err_sys ''socket error'' else ret (r_val r))"

definition Socketpair :: "int \<Rightarrow> int \<Rightarrow> int \<Rightarrow> (world, int \<times> int) prog" where
  [wrap_defs]: "Socketpair family type protocol =
     andThen (sys (C_lib ''socketpair'' [family, type, protocol] []))
     (\<lambda>r. if r_val r < 0 then err_sys ''socketpair error'' else ret (aux r 0, aux r 1))"

section \<open>wrapunix.cpp\<close>

definition Calloc :: "int \<Rightarrow> int \<Rightarrow> (world, int) prog" where
  [wrap_defs]: "Calloc n sz = andThen (sys (C_lib ''calloc'' [n, sz] []))
     (\<lambda>r. if r_val r = 0 then err_sys ''calloc error'' else ret (r_val r))"

definition Close :: "int \<Rightarrow> (world, unit) prog" where
  [wrap_defs]: "Close fd = andThen (sys (C_close fd))
     (\<lambda>r. if r_val r = -1 then err_sys ''close error'' else ret ())"

definition Dup2 :: "int \<Rightarrow> int \<Rightarrow> (world, unit) prog" where
  [wrap_defs]: "Dup2 fd1 fd2 = andThen (sys (C_lib ''dup2'' [fd1, fd2] []))
     (\<lambda>r. if r_val r = -1 then err_sys ''dup2 error'' else ret ())"

definition Fcntl :: "int \<Rightarrow> int \<Rightarrow> int \<Rightarrow> (world, int) prog" where
  [wrap_defs]: "Fcntl fd cmd arg = andThen (sys (C_fcntl fd cmd arg))
     (\<lambda>r. if r_val r = -1 then err_sys ''fcntl error'' else ret (r_val r))"

definition Gettimeofday :: "(world, int \<times> int) prog" where
  [wrap_defs]: "Gettimeofday = andThen (sys C_gettimeofday)
     (\<lambda>r. if r_val r = -1 then err_sys ''gettimeofday error'' else ret (time_of r))"

definition Ioctl :: "int \<Rightarrow> int \<Rightarrow> (world, int \<times> resp) prog" where
  [wrap_defs]: "Ioctl fd request = andThen (sys (C_ioctl fd request))
     (\<lambda>r. if r_val r = -1 then err_sys ''ioctl error'' else ret (r_val r, r))"

definition Fork :: "(world, int) prog" where
  [wrap_defs]: "Fork = andThen (sys (C_lib ''fork'' [] []))
     (\<lambda>r. if r_val r = -1 then err_sys ''fork error'' else ret (r_val r))"

definition Malloc :: "int \<Rightarrow> (world, int) prog" where
  [wrap_defs]: "Malloc sz = andThen (sys (C_lib ''malloc'' [sz] []))
     (\<lambda>r. if r_val r = 0 then err_sys ''malloc error'' else ret (r_val r))"

definition Mmap :: "int \<Rightarrow> int \<Rightarrow> int \<Rightarrow> int \<Rightarrow> int \<Rightarrow> int \<Rightarrow> (world, int) prog" where
  [wrap_defs]: "Mmap addr len prot flags fd offset =
     andThen (sys (C_lib ''mmap'' [addr, len, prot, flags, fd, offset] []))
     (\<lambda>r. if r_val r = -1 then err_sys ''mmap error'' else ret (r_val r))"

definition Open :: "byte list \<Rightarrow> int \<Rightarrow> int \<Rightarrow> (world, int) prog" where
  [wrap_defs]: "Open pathname oflag mode = andThen (sys (C_lib ''open'' [oflag, mode] pathname))
     (\<lambda>r. if r_val r = -1 then err_sys ''open error for %s'' else ret (r_val r))"

text \<open>\<open>Mkstemp\<close> as it is compiled without \<open>HAVE_MKSTEMP\<close>: the name is made by \<open>mkstemp\<close>, whose
  descriptor is not kept, and opened again. \<open>O_CREAT | O_WRONLY\<close> is \<open>0x41\<close> and
  \<open>FILE_MODE\<close> is \<open>0644\<close> in octal.\<close>

definition Mkstemp :: "byte list \<Rightarrow> (world, int) prog" where
  "Mkstemp chTemplate = andThen (sys (C_lib ''mkstemp'' [] chTemplate)) (\<lambda>r.
     let chTemplate = r_data r
     in if r_val r = -1 \<or> cstr chTemplate = [] then err_quit ''mktemp error''
        else Open chTemplate 65 420)"

definition Pipe :: "(world, int \<times> int) prog" where
  [wrap_defs]: "Pipe = andThen (sys (C_lib ''pipe'' [] []))
     (\<lambda>r. if r_val r < 0 then err_sys ''pipe error'' else ret (aux r 0, aux r 1))"

definition Read :: "int \<Rightarrow> nat \<Rightarrow> (world, byte list) prog" where
  [wrap_defs]: "Read fd nbytes = andThen (sys (C_read fd nbytes))
     (\<lambda>r. if got_len nbytes r = -1 then err_sys ''read error'' else ret (got nbytes r))"

definition Sigaddset :: "int \<Rightarrow> int \<Rightarrow> (world, unit) prog" where
  [wrap_defs]: "Sigaddset sigset signo = andThen (sys (C_lib ''sigaddset'' [sigset, signo] []))
     (\<lambda>r. if r_val r = -1 then err_sys ''sigaddset error'' else ret ())"

definition Sigdelset :: "int \<Rightarrow> int \<Rightarrow> (world, unit) prog" where
  [wrap_defs]: "Sigdelset sigset signo = andThen (sys (C_lib ''sigdelset'' [sigset, signo] []))
     (\<lambda>r. if r_val r = -1 then err_sys ''sigdelset error'' else ret ())"

definition Sigemptyset :: "int \<Rightarrow> (world, unit) prog" where
  [wrap_defs]: "Sigemptyset sigset = andThen (sys (C_lib ''sigemptyset'' [sigset] []))
     (\<lambda>r. if r_val r = -1 then err_sys ''sigemptyset error'' else ret ())"

definition Sigfillset :: "int \<Rightarrow> (world, unit) prog" where
  [wrap_defs]: "Sigfillset sigset = andThen (sys (C_lib ''sigfillset'' [sigset] []))
     (\<lambda>r. if r_val r = -1 then err_sys ''sigfillset error'' else ret ())"

definition Sigismember :: "int \<Rightarrow> int \<Rightarrow> (world, int) prog" where
  [wrap_defs]: "Sigismember sigset signo = andThen (sys (C_lib ''sigismember'' [sigset, signo] []))
     (\<lambda>r. if r_val r = -1 then err_sys ''sigismember error'' else ret (r_val r))"

definition Sigpending :: "int \<Rightarrow> (world, unit) prog" where
  [wrap_defs]: "Sigpending sigset = andThen (sys (C_lib ''sigpending'' [sigset] []))
     (\<lambda>r. if r_val r = -1 then err_sys ''sigpending error'' else ret ())"

definition Sigprocmask :: "int \<Rightarrow> int \<Rightarrow> int \<Rightarrow> (world, unit) prog" where
  [wrap_defs]: "Sigprocmask how sigset oset = andThen (sys (C_lib ''sigprocmask'' [how, sigset, oset] []))
     (\<lambda>r. if r_val r = -1 then err_sys ''sigprocmask error'' else ret ())"

definition Strdup :: "byte list \<Rightarrow> (world, int) prog" where
  [wrap_defs]: "Strdup str = andThen (sys (C_lib ''strdup'' [] str))
     (\<lambda>r. if r_val r = 0 then err_sys ''strdup error'' else ret (r_val r))"

definition Sysconf :: "int \<Rightarrow> (world, int) prog" where
  "Sysconf name = andThen (set_errno (Errno 0)) (\<lambda>_.
     andThen (sys (C_lib ''sysconf'' [name] []))
       (\<lambda>r. if r_val r = -1 then err_sys ''sysconf error'' else ret (r_val r)))"

definition Sysctl :: "int list \<Rightarrow> (world, int list) prog" where
  [wrap_defs]: "Sysctl name = andThen (sys (C_lib ''sysctl'' name []))
     (\<lambda>r. if r_val r = -1 then err_sys ''sysctl error'' else ret (r_aux r))"

definition Unlink :: "byte list \<Rightarrow> (world, unit) prog" where
  [wrap_defs]: "Unlink pathname = andThen (sys (C_lib ''unlink'' [] pathname))
     (\<lambda>r. if r_val r = -1 then err_sys ''unlink error for %s'' else ret ())"

definition Wait :: "(world, int \<times> int) prog" where
  [wrap_defs]: "Wait = andThen (sys (C_lib ''wait'' [] []))
     (\<lambda>r. if r_val r = -1 then err_sys ''wait error'' else ret (r_val r, aux r 0))"

definition Waitpid :: "int \<Rightarrow> int \<Rightarrow> (world, int \<times> int) prog" where
  [wrap_defs]: "Waitpid pid options = andThen (sys (C_lib ''waitpid'' [pid, options] []))
     (\<lambda>r. if r_val r = -1 then err_sys ''waitpid error'' else ret (r_val r, aux r 0))"

definition Write :: "int \<Rightarrow> byte list \<Rightarrow> (world, unit) prog" where
  [wrap_defs]: "Write fd bs = andThen (sys (C_write fd bs))
     (\<lambda>r. if put_len bs r \<noteq> int (length bs) then err_sys ''write error'' else ret ())"

section \<open>wrapstdio.cpp\<close>

definition Fclose :: "int \<Rightarrow> (world, unit) prog" where
  [wrap_defs]: "Fclose fp = andThen (sys (C_lib ''fclose'' [fp] []))
     (\<lambda>r. if r_val r \<noteq> 0 then err_sys ''fclose error'' else ret ())"

definition Fdopen :: "int \<Rightarrow> byte list \<Rightarrow> (world, int) prog" where
  [wrap_defs]: "Fdopen fd type = andThen (sys (C_lib ''fdopen'' [fd] type))
     (\<lambda>r. if r_val r = 0 then err_sys ''fdopen error'' else ret (r_val r))"

text \<open>\<open>fgets\<close> stores at most \<open>n - 1\<close> bytes, up to and including the first newline. It returns
  the null pointer at end of file, when nothing was read, and on an error, when \<open>ferror\<close> is
  set (a negative value here). \<open>Fgets\<close> returns the bytes read, \<open>None\<close> for the null pointer.\<close>

definition upto_newline :: "byte list \<Rightarrow> byte list" where
  "upto_newline bs =
     takeWhile (\<lambda>b. b \<noteq> NEWLINE) bs @ take 1 (dropWhile (\<lambda>b. b \<noteq> NEWLINE) bs)"

definition fgets_line :: "nat \<Rightarrow> resp \<Rightarrow> byte list" where
  "fgets_line n r = upto_newline (got (n - 1) r)"

definition Fgets :: "nat \<Rightarrow> (world, byte list option) prog" where
  [wrap_defs]: "Fgets n = andThen (sys (C_fgets n))
     (\<lambda>r. if r_val r < 0 then err_sys ''fgets error''
          else ret (if fgets_line n r = [] then None else Some (fgets_line n r)))"

definition Fopen :: "byte list \<Rightarrow> byte list \<Rightarrow> (world, int) prog" where
  [wrap_defs]: "Fopen filename mode = andThen (sys (C_lib ''fopen'' [] (filename @ NUL # mode)))
     (\<lambda>r. if r_val r = 0 then err_sys ''fopen error'' else ret (r_val r))"

text \<open>\<open>EOF\<close> is -1. \<open>fputs\<close> writes the C string it is given.\<close>

definition Fputs :: "byte list \<Rightarrow> (world, unit) prog" where
  [wrap_defs]: "Fputs bs = andThen (sys (C_fputs (cstr bs)))
     (\<lambda>r. if r_val r = -1 then err_sys ''fputs error'' else ret ())"

section \<open>wraplib.cpp\<close>

definition Inet_ntop :: "int \<Rightarrow> byte list \<Rightarrow> bool \<Rightarrow> nat \<Rightarrow> (world, byte list) prog" where
  "Inet_ntop family addr strptr_null len =
     (if strptr_null then err_quit ''NULL 3rd argument to inet_ntop''
      else andThen (sys (C_lib ''inet_ntop'' [family, int len] addr))
        (\<lambda>r. if r_val r = 0 then err_sys ''inet_ntop error'' else ret (r_data r)))"

definition Inet_pton :: "int \<Rightarrow> byte list \<Rightarrow> (world, byte list) prog" where
  "Inet_pton family str = andThen (sys (C_lib ''inet_pton'' [family] str))
     (\<lambda>r. if r_val r < 0 then err_sys ''inet_pton error for %s''
          else if r_val r = 0 then err_quit ''inet_pton error for %s''
          else ret (r_data r))"

section \<open>wrappthread.cpp\<close>

text \<open>The pthread functions return their error number; the wrappers put it in \<open>errno\<close> for
  \<open>err_sys\<close> to report.\<close>

definition pthread_check :: "string \<Rightarrow> string \<Rightarrow> int list \<Rightarrow> (world, resp) prog" where
  "pthread_check name msg args = andThen (sys (C_lib name args [])) (\<lambda>r.
     if r_val r = 0 then ret r
     else andThen (set_errno (Errno (nat (r_val r)))) (\<lambda>_. err_sys msg))"

definition Pthread_create :: "int \<Rightarrow> int \<Rightarrow> int \<Rightarrow> (world, int) prog" where
  "Pthread_create attr func arg =
     andThen (pthread_check ''pthread_create'' ''pthread_create error'' [attr, func, arg])
       (\<lambda>r. ret (aux r 0))"

definition Pthread_join :: "int \<Rightarrow> (world, int) prog" where
  "Pthread_join tid = andThen (pthread_check ''pthread_join'' ''pthread_join error'' [tid])
     (\<lambda>r. ret (aux r 0))"

definition Pthread_detach :: "int \<Rightarrow> (world, unit) prog" where
  "Pthread_detach tid = andThen (pthread_check ''pthread_detach'' ''pthread_detach error'' [tid])
     (\<lambda>_. ret ())"

definition Pthread_kill :: "int \<Rightarrow> int \<Rightarrow> (world, unit) prog" where
  "Pthread_kill tid signo =
     andThen (pthread_check ''pthread_kill'' ''pthread_kill error'' [tid, signo]) (\<lambda>_. ret ())"

definition Pthread_mutexattr_init :: "int \<Rightarrow> (world, unit) prog" where
  "Pthread_mutexattr_init attr =
     andThen (pthread_check ''pthread_mutexattr_init'' ''pthread_mutexattr_init error'' [attr])
       (\<lambda>_. ret ())"

definition Pthread_mutexattr_setpshared :: "int \<Rightarrow> int \<Rightarrow> (world, unit) prog" where
  "Pthread_mutexattr_setpshared attr flag =
     andThen (pthread_check ''pthread_mutexattr_setpshared''
       ''pthread_mutexattr_setpshared error'' [attr, flag]) (\<lambda>_. ret ())"

definition Pthread_mutex_init :: "int \<Rightarrow> int \<Rightarrow> (world, unit) prog" where
  "Pthread_mutex_init mptr attr =
     andThen (pthread_check ''pthread_mutex_init'' ''pthread_mutex_init error'' [mptr, attr])
       (\<lambda>_. ret ())"

definition Pthread_mutex_lock :: "int \<Rightarrow> (world, unit) prog" where
  "Pthread_mutex_lock mptr =
     andThen (pthread_check ''pthread_mutex_lock'' ''pthread_mutex_lock error'' [mptr])
       (\<lambda>_. ret ())"

definition Pthread_mutex_unlock :: "int \<Rightarrow> (world, unit) prog" where
  "Pthread_mutex_unlock mptr =
     andThen (pthread_check ''pthread_mutex_unlock'' ''pthread_mutex_unlock error'' [mptr])
       (\<lambda>_. ret ())"

definition Pthread_cond_broadcast :: "int \<Rightarrow> (world, unit) prog" where
  "Pthread_cond_broadcast cptr =
     andThen (pthread_check ''pthread_cond_broadcast'' ''pthread_cond_broadcast error'' [cptr])
       (\<lambda>_. ret ())"

definition Pthread_cond_signal :: "int \<Rightarrow> (world, unit) prog" where
  "Pthread_cond_signal cptr =
     andThen (pthread_check ''pthread_cond_signal'' ''pthread_cond_signal error'' [cptr])
       (\<lambda>_. ret ())"

definition Pthread_cond_wait :: "int \<Rightarrow> int \<Rightarrow> (world, unit) prog" where
  "Pthread_cond_wait cptr mptr =
     andThen (pthread_check ''pthread_cond_wait'' ''pthread_cond_wait error'' [cptr, mptr])
       (\<lambda>_. ret ())"

definition Pthread_cond_timedwait :: "int \<Rightarrow> int \<Rightarrow> int \<Rightarrow> (world, unit) prog" where
  "Pthread_cond_timedwait cptr mptr tsptr =
     andThen (pthread_check ''pthread_cond_timedwait'' ''pthread_cond_timedwait error''
       [cptr, mptr, tsptr]) (\<lambda>_. ret ())"

definition Pthread_once :: "int \<Rightarrow> int \<Rightarrow> (world, unit) prog" where
  "Pthread_once ptr func =
     andThen (pthread_check ''pthread_once'' ''pthread_once error'' [ptr, func]) (\<lambda>_. ret ())"

definition Pthread_key_create :: "int \<Rightarrow> (world, int) prog" where
  "Pthread_key_create func =
     andThen (pthread_check ''pthread_key_create'' ''pthread_key_create error'' [func])
       (\<lambda>r. ret (aux r 0))"

definition Pthread_setspecific :: "int \<Rightarrow> int \<Rightarrow> (world, unit) prog" where
  "Pthread_setspecific key val =
     andThen (pthread_check ''pthread_setspecific'' ''pthread_setspecific error'' [key, val])
       (\<lambda>_. ret ())"

section \<open>Every wrapper meets the contract\<close>

text \<open>One interpretation per wrapper. Its lemmas \<open>lawful_call\<close> and \<open>eats_call\<close> go into the
  collections that the programs using the wrapper rest on.\<close>

interpretation bind_w: checked_call "Bind fd sa" "C_bind fd sa"
    "\<lambda>r. r_val r < 0" "\<lambda>r. ()" "''bind error''" for fd sa
  by unfold_locales (auto simp: Bind_def andThen_apply err_doit_apply extends_def Let_def)

interpretation connect_w: checked_call "Connect fd sa" "C_connect fd sa"
    "\<lambda>r. r_val r < 0" "\<lambda>r. ()" "''connect error''" for fd sa
  by unfold_locales (auto simp: Connect_def andThen_apply err_doit_apply extends_def Let_def)

interpretation getpeername_w: checked_call "Getpeername fd" "C_getpeername fd"
    "\<lambda>r. r_val r < 0" "\<lambda>r. (r_addr r)" "''getpeername error''" for fd
  by unfold_locales (auto simp: Getpeername_def andThen_apply err_doit_apply extends_def Let_def)

interpretation getsockname_w: checked_call "Getsockname fd" "C_getsockname fd"
    "\<lambda>r. r_val r < 0" "\<lambda>r. (r_addr r)" "''getsockname error''" for fd
  by unfold_locales (auto simp: Getsockname_def andThen_apply err_doit_apply extends_def Let_def)

interpretation getsockopt_w: checked_call "Getsockopt fd level optname" "C_getsockopt fd level optname"
    "\<lambda>r. r_val r < 0" "\<lambda>r. (r_aux r)" "''getsockopt error''" for fd level optname
  by unfold_locales (auto simp: Getsockopt_def andThen_apply err_doit_apply extends_def Let_def)

interpretation inet6_rth_space_w: checked_call "Inet6_rth_space type segments" "C_lib ''inet6_rth_space'' [type, segments] []"
    "\<lambda>r. r_val r < 0" "\<lambda>r. (r_val r)" "''inet6_rth_space error''" for type segments
  by unfold_locales (auto simp: Inet6_rth_space_def andThen_apply err_doit_apply extends_def Let_def)

interpretation inet6_rth_init_w: checked_call "Inet6_rth_init rthbuf rthlen type segments" "C_lib ''inet6_rth_init'' [rthbuf, rthlen, type, segments] []"
    "\<lambda>r. r_val r = 0" "\<lambda>r. (r_val r)" "''inet6_rth_init error''" for rthbuf rthlen type segments
  by unfold_locales (auto simp: Inet6_rth_init_def andThen_apply err_doit_apply extends_def Let_def)

interpretation inet6_rth_add_w: checked_call "Inet6_rth_add rthbuf addr" "C_lib ''inet6_rth_add'' [rthbuf] addr"
    "\<lambda>r. r_val r < 0" "\<lambda>r. ()" "''inet6_rth_add error''" for rthbuf addr
  by unfold_locales (auto simp: Inet6_rth_add_def andThen_apply err_doit_apply extends_def Let_def)

interpretation inet6_rth_reverse_w: checked_call "Inet6_rth_reverse inb outb" "C_lib ''inet6_rth_reverse'' [inb, outb] []"
    "\<lambda>r. r_val r < 0" "\<lambda>r. ()" "''inet6_rth_reverse error''" for inb outb
  by unfold_locales (auto simp: Inet6_rth_reverse_def andThen_apply err_doit_apply extends_def Let_def)

interpretation inet6_rth_segments_w: checked_call "Inet6_rth_segments rthbuf" "C_lib ''inet6_rth_segments'' [rthbuf] []"
    "\<lambda>r. r_val r < 0" "\<lambda>r. (r_val r)" "''inet6_rth_segments error''" for rthbuf
  by unfold_locales (auto simp: Inet6_rth_segments_def andThen_apply err_doit_apply extends_def Let_def)

interpretation inet6_rth_getaddr_w: checked_call "Inet6_rth_getaddr rthbuf idx" "C_lib ''inet6_rth_getaddr'' [rthbuf, idx] []"
    "\<lambda>r. r_val r = 0" "\<lambda>r. (r_val r)" "''inet6_rth_getaddr error''" for rthbuf idx
  by unfold_locales (auto simp: Inet6_rth_getaddr_def andThen_apply err_doit_apply extends_def Let_def)

interpretation kqueue_w: checked_call "Kqueue" "C_lib ''kqueue'' [] []"
    "\<lambda>r. r_val r < 0" "\<lambda>r. (r_val r)" "''kqueue error''"
  by unfold_locales (auto simp: Kqueue_def andThen_apply err_doit_apply extends_def Let_def)

interpretation kevent_w: checked_call "Kevent kq nchanges nevents" "C_lib ''kevent'' [kq, nchanges, nevents] []"
    "\<lambda>r. r_val r < 0" "\<lambda>r. (r_val r)" "''kevent error''" for kq nchanges nevents
  by unfold_locales (auto simp: Kevent_def andThen_apply err_doit_apply extends_def Let_def)

interpretation poll_w: checked_call "Poll fdarray timeout" "C_poll fdarray timeout"
    "\<lambda>r. r_val r < 0" "\<lambda>r. let re = revents_of fdarray r in (int (length (filter (\<lambda>e. e \<noteq> 0) re)), re)" "''poll error''" for fdarray timeout
  by unfold_locales (auto simp: Poll_def andThen_apply err_doit_apply extends_def Let_def)

interpretation recv_w: checked_call "Recv fd nbytes flags" "C_recv fd nbytes flags"
    "\<lambda>r. got_len nbytes r < 0" "\<lambda>r. (got nbytes r)" "''recv error''" for fd nbytes flags
  by unfold_locales (auto simp: Recv_def andThen_apply err_doit_apply extends_def Let_def)

interpretation recvfrom_w: checked_call "Recvfrom fd nbytes flags" "C_recvfrom fd nbytes flags"
    "\<lambda>r. got_len nbytes r < 0" "\<lambda>r. (got nbytes r, r_addr r)" "''recvfrom error''" for fd nbytes flags
  by unfold_locales (auto simp: Recvfrom_def andThen_apply err_doit_apply extends_def Let_def)

interpretation recvmsg_w: checked_call "Recvmsg fd nbytes flags" "C_recvmsg fd nbytes flags"
    "\<lambda>r. got_len nbytes r < 0" "\<lambda>r. (got nbytes r, r)" "''recvmsg error''" for fd nbytes flags
  by unfold_locales (auto simp: Recvmsg_def andThen_apply err_doit_apply extends_def Let_def)

interpretation select_w: checked_call "Select readfds writefds exceptfds timeout" "C_select readfds writefds exceptfds timeout"
    "\<lambda>r. ready_count readfds writefds r < 0" "\<lambda>r. (ready_count readfds writefds r, readfds \<inter> r_rd r, writefds \<inter> r_wr r)" "''select error''" for readfds writefds exceptfds timeout
  by unfold_locales (auto simp: Select_def andThen_apply err_doit_apply extends_def Let_def)

interpretation send_w: checked_call "Send fd bs flags" "C_send fd bs flags"
    "\<lambda>r. put_len bs r \<noteq> int (length bs)" "\<lambda>r. ()" "''send error''" for fd bs flags
  by unfold_locales (auto simp: Send_def andThen_apply err_doit_apply extends_def Let_def)

interpretation sendto_w: checked_call "Sendto fd bs flags sa" "C_sendto fd bs flags sa"
    "\<lambda>r. put_len bs r \<noteq> int (length bs)" "\<lambda>r. ()" "''sendto error''" for fd bs flags sa
  by unfold_locales (auto simp: Sendto_def andThen_apply err_doit_apply extends_def Let_def)

interpretation sendmsg_w: checked_call "Sendmsg fd iov flags" "C_sendmsg fd (concat iov) flags"
    "\<lambda>r. put_len (concat iov) r \<noteq> foldl (\<lambda>n v. n + int (length v)) 0 iov" "\<lambda>r. ()" "''sendmsg error''" for fd iov flags
  by unfold_locales (auto simp: Sendmsg_def andThen_apply err_doit_apply extends_def Let_def)

interpretation setsockopt_w: checked_call "Setsockopt fd level optname optval" "C_setsockopt fd level optname optval"
    "\<lambda>r. r_val r < 0" "\<lambda>r. ()" "''setsockopt error''" for fd level optname optval
  by unfold_locales (auto simp: Setsockopt_def andThen_apply err_doit_apply extends_def Let_def)

interpretation shutdown_w: checked_call "Shutdown fd how" "C_shutdown fd how"
    "\<lambda>r. r_val r < 0" "\<lambda>r. ()" "''shutdown error''" for fd how
  by unfold_locales (auto simp: Shutdown_def andThen_apply err_doit_apply extends_def Let_def)

interpretation sockatmark_w: checked_call "Sockatmark fd" "C_lib ''sockatmark'' [fd] []"
    "\<lambda>r. r_val r < 0" "\<lambda>r. (r_val r)" "''sockatmark error''" for fd
  by unfold_locales (auto simp: Sockatmark_def andThen_apply err_doit_apply extends_def Let_def)

interpretation socket_w: checked_call "Socket family type protocol" "C_socket family type protocol"
    "\<lambda>r. r_val r < 0" "\<lambda>r. (r_val r)" "''socket error''" for family type protocol
  by unfold_locales (auto simp: Socket_def andThen_apply err_doit_apply extends_def Let_def)

interpretation socketpair_w: checked_call "Socketpair family type protocol" "C_lib ''socketpair'' [family, type, protocol] []"
    "\<lambda>r. r_val r < 0" "\<lambda>r. (aux r 0, aux r 1)" "''socketpair error''" for family type protocol
  by unfold_locales (auto simp: Socketpair_def andThen_apply err_doit_apply extends_def Let_def)

interpretation calloc_w: checked_call "Calloc n sz" "C_lib ''calloc'' [n, sz] []"
    "\<lambda>r. r_val r = 0" "\<lambda>r. (r_val r)" "''calloc error''" for n sz
  by unfold_locales (auto simp: Calloc_def andThen_apply err_doit_apply extends_def Let_def)

interpretation close_w: checked_call "Close fd" "C_close fd"
    "\<lambda>r. r_val r = -1" "\<lambda>r. ()" "''close error''" for fd
  by unfold_locales (auto simp: Close_def andThen_apply err_doit_apply extends_def Let_def)

interpretation dup2_w: checked_call "Dup2 fd1 fd2" "C_lib ''dup2'' [fd1, fd2] []"
    "\<lambda>r. r_val r = -1" "\<lambda>r. ()" "''dup2 error''" for fd1 fd2
  by unfold_locales (auto simp: Dup2_def andThen_apply err_doit_apply extends_def Let_def)

interpretation fcntl_w: checked_call "Fcntl fd cmd arg" "C_fcntl fd cmd arg"
    "\<lambda>r. r_val r = -1" "\<lambda>r. (r_val r)" "''fcntl error''" for fd cmd arg
  by unfold_locales (auto simp: Fcntl_def andThen_apply err_doit_apply extends_def Let_def)

interpretation gettimeofday_w: checked_call "Gettimeofday" "C_gettimeofday"
    "\<lambda>r. r_val r = -1" "\<lambda>r. (time_of r)" "''gettimeofday error''"
  by unfold_locales (auto simp: Gettimeofday_def andThen_apply err_doit_apply extends_def Let_def)

interpretation ioctl_w: checked_call "Ioctl fd request" "C_ioctl fd request"
    "\<lambda>r. r_val r = -1" "\<lambda>r. (r_val r, r)" "''ioctl error''" for fd request
  by unfold_locales (auto simp: Ioctl_def andThen_apply err_doit_apply extends_def Let_def)

interpretation fork_w: checked_call "Fork" "C_lib ''fork'' [] []"
    "\<lambda>r. r_val r = -1" "\<lambda>r. (r_val r)" "''fork error''"
  by unfold_locales (auto simp: Fork_def andThen_apply err_doit_apply extends_def Let_def)

interpretation malloc_w: checked_call "Malloc sz" "C_lib ''malloc'' [sz] []"
    "\<lambda>r. r_val r = 0" "\<lambda>r. (r_val r)" "''malloc error''" for sz
  by unfold_locales (auto simp: Malloc_def andThen_apply err_doit_apply extends_def Let_def)

interpretation mmap_w: checked_call "Mmap addr len prot flags fd offset" "C_lib ''mmap'' [addr, len, prot, flags, fd, offset] []"
    "\<lambda>r. r_val r = -1" "\<lambda>r. (r_val r)" "''mmap error''" for addr len prot flags fd offset
  by unfold_locales (auto simp: Mmap_def andThen_apply err_doit_apply extends_def Let_def)

interpretation open_w: checked_call "Open pathname oflag mode" "C_lib ''open'' [oflag, mode] pathname"
    "\<lambda>r. r_val r = -1" "\<lambda>r. (r_val r)" "''open error for %s''" for pathname oflag mode
  by unfold_locales (auto simp: Open_def andThen_apply err_doit_apply extends_def Let_def)

interpretation pipe_w: checked_call "Pipe" "C_lib ''pipe'' [] []"
    "\<lambda>r. r_val r < 0" "\<lambda>r. (aux r 0, aux r 1)" "''pipe error''"
  by unfold_locales (auto simp: Pipe_def andThen_apply err_doit_apply extends_def Let_def)

interpretation read_w: checked_call "Read fd nbytes" "C_read fd nbytes"
    "\<lambda>r. got_len nbytes r = -1" "\<lambda>r. (got nbytes r)" "''read error''" for fd nbytes
  by unfold_locales (auto simp: Read_def andThen_apply err_doit_apply extends_def Let_def)

interpretation sigaddset_w: checked_call "Sigaddset sigset signo" "C_lib ''sigaddset'' [sigset, signo] []"
    "\<lambda>r. r_val r = -1" "\<lambda>r. ()" "''sigaddset error''" for sigset signo
  by unfold_locales (auto simp: Sigaddset_def andThen_apply err_doit_apply extends_def Let_def)

interpretation sigdelset_w: checked_call "Sigdelset sigset signo" "C_lib ''sigdelset'' [sigset, signo] []"
    "\<lambda>r. r_val r = -1" "\<lambda>r. ()" "''sigdelset error''" for sigset signo
  by unfold_locales (auto simp: Sigdelset_def andThen_apply err_doit_apply extends_def Let_def)

interpretation sigemptyset_w: checked_call "Sigemptyset sigset" "C_lib ''sigemptyset'' [sigset] []"
    "\<lambda>r. r_val r = -1" "\<lambda>r. ()" "''sigemptyset error''" for sigset
  by unfold_locales (auto simp: Sigemptyset_def andThen_apply err_doit_apply extends_def Let_def)

interpretation sigfillset_w: checked_call "Sigfillset sigset" "C_lib ''sigfillset'' [sigset] []"
    "\<lambda>r. r_val r = -1" "\<lambda>r. ()" "''sigfillset error''" for sigset
  by unfold_locales (auto simp: Sigfillset_def andThen_apply err_doit_apply extends_def Let_def)

interpretation sigismember_w: checked_call "Sigismember sigset signo" "C_lib ''sigismember'' [sigset, signo] []"
    "\<lambda>r. r_val r = -1" "\<lambda>r. (r_val r)" "''sigismember error''" for sigset signo
  by unfold_locales (auto simp: Sigismember_def andThen_apply err_doit_apply extends_def Let_def)

interpretation sigpending_w: checked_call "Sigpending sigset" "C_lib ''sigpending'' [sigset] []"
    "\<lambda>r. r_val r = -1" "\<lambda>r. ()" "''sigpending error''" for sigset
  by unfold_locales (auto simp: Sigpending_def andThen_apply err_doit_apply extends_def Let_def)

interpretation sigprocmask_w: checked_call "Sigprocmask how sigset oset" "C_lib ''sigprocmask'' [how, sigset, oset] []"
    "\<lambda>r. r_val r = -1" "\<lambda>r. ()" "''sigprocmask error''" for how sigset oset
  by unfold_locales (auto simp: Sigprocmask_def andThen_apply err_doit_apply extends_def Let_def)

interpretation strdup_w: checked_call "Strdup str" "C_lib ''strdup'' [] str"
    "\<lambda>r. r_val r = 0" "\<lambda>r. (r_val r)" "''strdup error''" for str
  by unfold_locales (auto simp: Strdup_def andThen_apply err_doit_apply extends_def Let_def)

interpretation sysctl_w: checked_call "Sysctl name" "C_lib ''sysctl'' name []"
    "\<lambda>r. r_val r = -1" "\<lambda>r. (r_aux r)" "''sysctl error''" for name
  by unfold_locales (auto simp: Sysctl_def andThen_apply err_doit_apply extends_def Let_def)

interpretation unlink_w: checked_call "Unlink pathname" "C_lib ''unlink'' [] pathname"
    "\<lambda>r. r_val r = -1" "\<lambda>r. ()" "''unlink error for %s''" for pathname
  by unfold_locales (auto simp: Unlink_def andThen_apply err_doit_apply extends_def Let_def)

interpretation wait_w: checked_call "Wait" "C_lib ''wait'' [] []"
    "\<lambda>r. r_val r = -1" "\<lambda>r. (r_val r, aux r 0)" "''wait error''"
  by unfold_locales (auto simp: Wait_def andThen_apply err_doit_apply extends_def Let_def)

interpretation waitpid_w: checked_call "Waitpid pid options" "C_lib ''waitpid'' [pid, options] []"
    "\<lambda>r. r_val r = -1" "\<lambda>r. (r_val r, aux r 0)" "''waitpid error''" for pid options
  by unfold_locales (auto simp: Waitpid_def andThen_apply err_doit_apply extends_def Let_def)

interpretation write_w: checked_call "Write fd bs" "C_write fd bs"
    "\<lambda>r. put_len bs r \<noteq> int (length bs)" "\<lambda>r. ()" "''write error''" for fd bs
  by unfold_locales (auto simp: Write_def andThen_apply err_doit_apply extends_def Let_def)

interpretation fclose_w: checked_call "Fclose fp" "C_lib ''fclose'' [fp] []"
    "\<lambda>r. r_val r \<noteq> 0" "\<lambda>r. ()" "''fclose error''" for fp
  by unfold_locales (auto simp: Fclose_def andThen_apply err_doit_apply extends_def Let_def)

interpretation fdopen_w: checked_call "Fdopen fd type" "C_lib ''fdopen'' [fd] type"
    "\<lambda>r. r_val r = 0" "\<lambda>r. (r_val r)" "''fdopen error''" for fd type
  by unfold_locales (auto simp: Fdopen_def andThen_apply err_doit_apply extends_def Let_def)

interpretation fgets_w: checked_call "Fgets n" "C_fgets n"
    "\<lambda>r. r_val r < 0" "\<lambda>r. (if fgets_line n r = [] then None else Some (fgets_line n r))" "''fgets error''" for n
  by unfold_locales (auto simp: Fgets_def andThen_apply err_doit_apply extends_def Let_def)

interpretation fopen_w: checked_call "Fopen filename mode" "C_lib ''fopen'' [] (filename @ NUL # mode)"
    "\<lambda>r. r_val r = 0" "\<lambda>r. (r_val r)" "''fopen error''" for filename mode
  by unfold_locales (auto simp: Fopen_def andThen_apply err_doit_apply extends_def Let_def)

interpretation fputs_w: checked_call "Fputs bs" "C_fputs (cstr bs)"
    "\<lambda>r. r_val r = -1" "\<lambda>r. ()" "''fputs error''" for bs
  by unfold_locales (auto simp: Fputs_def andThen_apply err_doit_apply extends_def Let_def)

interpretation pthread_create_w: checked_call "Pthread_create attr func arg"
    "C_lib ''pthread_create'' [attr, func, arg] []" "\<lambda>r. r_val r \<noteq> 0" "\<lambda>r. (aux r 0)" "''pthread_create error''" for attr func arg
  by unfold_locales
    (auto simp: Pthread_create_def pthread_check_def andThen_apply err_doit_apply extends_def)

interpretation pthread_join_w: checked_call "Pthread_join tid"
    "C_lib ''pthread_join'' [tid] []" "\<lambda>r. r_val r \<noteq> 0" "\<lambda>r. (aux r 0)" "''pthread_join error''" for tid
  by unfold_locales
    (auto simp: Pthread_join_def pthread_check_def andThen_apply err_doit_apply extends_def)

interpretation pthread_detach_w: checked_call "Pthread_detach tid"
    "C_lib ''pthread_detach'' [tid] []" "\<lambda>r. r_val r \<noteq> 0" "\<lambda>r. ()" "''pthread_detach error''" for tid
  by unfold_locales
    (auto simp: Pthread_detach_def pthread_check_def andThen_apply err_doit_apply extends_def)

interpretation pthread_kill_w: checked_call "Pthread_kill tid signo"
    "C_lib ''pthread_kill'' [tid, signo] []" "\<lambda>r. r_val r \<noteq> 0" "\<lambda>r. ()" "''pthread_kill error''" for tid signo
  by unfold_locales
    (auto simp: Pthread_kill_def pthread_check_def andThen_apply err_doit_apply extends_def)

interpretation pthread_mutexattr_init_w: checked_call "Pthread_mutexattr_init attr"
    "C_lib ''pthread_mutexattr_init'' [attr] []" "\<lambda>r. r_val r \<noteq> 0" "\<lambda>r. ()" "''pthread_mutexattr_init error''" for attr
  by unfold_locales
    (auto simp: Pthread_mutexattr_init_def pthread_check_def andThen_apply err_doit_apply extends_def)

interpretation pthread_mutexattr_setpshared_w: checked_call "Pthread_mutexattr_setpshared attr flag"
    "C_lib ''pthread_mutexattr_setpshared'' [attr, flag] []" "\<lambda>r. r_val r \<noteq> 0" "\<lambda>r. ()" "''pthread_mutexattr_setpshared error''" for attr flag
  by unfold_locales
    (auto simp: Pthread_mutexattr_setpshared_def pthread_check_def andThen_apply err_doit_apply extends_def)

interpretation pthread_mutex_init_w: checked_call "Pthread_mutex_init mptr attr"
    "C_lib ''pthread_mutex_init'' [mptr, attr] []" "\<lambda>r. r_val r \<noteq> 0" "\<lambda>r. ()" "''pthread_mutex_init error''" for mptr attr
  by unfold_locales
    (auto simp: Pthread_mutex_init_def pthread_check_def andThen_apply err_doit_apply extends_def)

interpretation pthread_mutex_lock_w: checked_call "Pthread_mutex_lock mptr"
    "C_lib ''pthread_mutex_lock'' [mptr] []" "\<lambda>r. r_val r \<noteq> 0" "\<lambda>r. ()" "''pthread_mutex_lock error''" for mptr
  by unfold_locales
    (auto simp: Pthread_mutex_lock_def pthread_check_def andThen_apply err_doit_apply extends_def)

interpretation pthread_mutex_unlock_w: checked_call "Pthread_mutex_unlock mptr"
    "C_lib ''pthread_mutex_unlock'' [mptr] []" "\<lambda>r. r_val r \<noteq> 0" "\<lambda>r. ()" "''pthread_mutex_unlock error''" for mptr
  by unfold_locales
    (auto simp: Pthread_mutex_unlock_def pthread_check_def andThen_apply err_doit_apply extends_def)

interpretation pthread_cond_broadcast_w: checked_call "Pthread_cond_broadcast cptr"
    "C_lib ''pthread_cond_broadcast'' [cptr] []" "\<lambda>r. r_val r \<noteq> 0" "\<lambda>r. ()" "''pthread_cond_broadcast error''" for cptr
  by unfold_locales
    (auto simp: Pthread_cond_broadcast_def pthread_check_def andThen_apply err_doit_apply extends_def)

interpretation pthread_cond_signal_w: checked_call "Pthread_cond_signal cptr"
    "C_lib ''pthread_cond_signal'' [cptr] []" "\<lambda>r. r_val r \<noteq> 0" "\<lambda>r. ()" "''pthread_cond_signal error''" for cptr
  by unfold_locales
    (auto simp: Pthread_cond_signal_def pthread_check_def andThen_apply err_doit_apply extends_def)

interpretation pthread_cond_wait_w: checked_call "Pthread_cond_wait cptr mptr"
    "C_lib ''pthread_cond_wait'' [cptr, mptr] []" "\<lambda>r. r_val r \<noteq> 0" "\<lambda>r. ()" "''pthread_cond_wait error''" for cptr mptr
  by unfold_locales
    (auto simp: Pthread_cond_wait_def pthread_check_def andThen_apply err_doit_apply extends_def)

interpretation pthread_cond_timedwait_w: checked_call "Pthread_cond_timedwait cptr mptr tsptr"
    "C_lib ''pthread_cond_timedwait'' [cptr, mptr, tsptr] []" "\<lambda>r. r_val r \<noteq> 0" "\<lambda>r. ()" "''pthread_cond_timedwait error''" for cptr mptr tsptr
  by unfold_locales
    (auto simp: Pthread_cond_timedwait_def pthread_check_def andThen_apply err_doit_apply extends_def)

interpretation pthread_once_w: checked_call "Pthread_once ptr func"
    "C_lib ''pthread_once'' [ptr, func] []" "\<lambda>r. r_val r \<noteq> 0" "\<lambda>r. ()" "''pthread_once error''" for ptr func
  by unfold_locales
    (auto simp: Pthread_once_def pthread_check_def andThen_apply err_doit_apply extends_def)

interpretation pthread_key_create_w: checked_call "Pthread_key_create func"
    "C_lib ''pthread_key_create'' [func] []" "\<lambda>r. r_val r \<noteq> 0" "\<lambda>r. (aux r 0)" "''pthread_key_create error''" for func
  by unfold_locales
    (auto simp: Pthread_key_create_def pthread_check_def andThen_apply err_doit_apply extends_def)

interpretation pthread_setspecific_w: checked_call "Pthread_setspecific key val"
    "C_lib ''pthread_setspecific'' [key, val] []" "\<lambda>r. r_val r \<noteq> 0" "\<lambda>r. ()" "''pthread_setspecific error''" for key val
  by unfold_locales
    (auto simp: Pthread_setspecific_def pthread_check_def andThen_apply err_doit_apply extends_def)

lemmas wrappers_lawful [lawful_intros] =
  bind_w.lawful_call connect_w.lawful_call getpeername_w.lawful_call getsockname_w.lawful_call
  getsockopt_w.lawful_call inet6_rth_space_w.lawful_call inet6_rth_init_w.lawful_call
  inet6_rth_add_w.lawful_call inet6_rth_reverse_w.lawful_call inet6_rth_segments_w.lawful_call
  inet6_rth_getaddr_w.lawful_call kqueue_w.lawful_call kevent_w.lawful_call poll_w.lawful_call
  recv_w.lawful_call recvfrom_w.lawful_call recvmsg_w.lawful_call select_w.lawful_call
  send_w.lawful_call sendto_w.lawful_call sendmsg_w.lawful_call setsockopt_w.lawful_call
  shutdown_w.lawful_call sockatmark_w.lawful_call socket_w.lawful_call socketpair_w.lawful_call
  calloc_w.lawful_call close_w.lawful_call dup2_w.lawful_call fcntl_w.lawful_call
  gettimeofday_w.lawful_call ioctl_w.lawful_call fork_w.lawful_call malloc_w.lawful_call
  mmap_w.lawful_call open_w.lawful_call pipe_w.lawful_call read_w.lawful_call
  sigaddset_w.lawful_call sigdelset_w.lawful_call sigemptyset_w.lawful_call
  sigfillset_w.lawful_call sigismember_w.lawful_call sigpending_w.lawful_call
  sigprocmask_w.lawful_call strdup_w.lawful_call sysctl_w.lawful_call unlink_w.lawful_call
  wait_w.lawful_call waitpid_w.lawful_call write_w.lawful_call fclose_w.lawful_call
  fdopen_w.lawful_call fgets_w.lawful_call fopen_w.lawful_call fputs_w.lawful_call
  pthread_create_w.lawful_call pthread_join_w.lawful_call pthread_detach_w.lawful_call
  pthread_kill_w.lawful_call pthread_mutexattr_init_w.lawful_call
  pthread_mutexattr_setpshared_w.lawful_call pthread_mutex_init_w.lawful_call
  pthread_mutex_lock_w.lawful_call pthread_mutex_unlock_w.lawful_call
  pthread_cond_broadcast_w.lawful_call pthread_cond_signal_w.lawful_call
  pthread_cond_wait_w.lawful_call pthread_cond_timedwait_w.lawful_call pthread_once_w.lawful_call
  pthread_key_create_w.lawful_call pthread_setspecific_w.lawful_call

lemmas wrappers_eat [eats_intros] =
  bind_w.eats_call connect_w.eats_call getpeername_w.eats_call getsockname_w.eats_call
  getsockopt_w.eats_call inet6_rth_space_w.eats_call inet6_rth_init_w.eats_call
  inet6_rth_add_w.eats_call inet6_rth_reverse_w.eats_call inet6_rth_segments_w.eats_call
  inet6_rth_getaddr_w.eats_call kqueue_w.eats_call kevent_w.eats_call poll_w.eats_call
  recv_w.eats_call recvfrom_w.eats_call recvmsg_w.eats_call select_w.eats_call send_w.eats_call
  sendto_w.eats_call sendmsg_w.eats_call setsockopt_w.eats_call shutdown_w.eats_call
  sockatmark_w.eats_call socket_w.eats_call socketpair_w.eats_call calloc_w.eats_call
  close_w.eats_call dup2_w.eats_call fcntl_w.eats_call gettimeofday_w.eats_call ioctl_w.eats_call
  fork_w.eats_call malloc_w.eats_call mmap_w.eats_call open_w.eats_call pipe_w.eats_call
  read_w.eats_call sigaddset_w.eats_call sigdelset_w.eats_call sigemptyset_w.eats_call
  sigfillset_w.eats_call sigismember_w.eats_call sigpending_w.eats_call sigprocmask_w.eats_call
  strdup_w.eats_call sysctl_w.eats_call unlink_w.eats_call wait_w.eats_call waitpid_w.eats_call
  write_w.eats_call fclose_w.eats_call fdopen_w.eats_call fgets_w.eats_call fopen_w.eats_call
  fputs_w.eats_call pthread_create_w.eats_call pthread_join_w.eats_call
  pthread_detach_w.eats_call pthread_kill_w.eats_call pthread_mutexattr_init_w.eats_call
  pthread_mutexattr_setpshared_w.eats_call pthread_mutex_init_w.eats_call
  pthread_mutex_lock_w.eats_call pthread_mutex_unlock_w.eats_call
  pthread_cond_broadcast_w.eats_call pthread_cond_signal_w.eats_call
  pthread_cond_wait_w.eats_call pthread_cond_timedwait_w.eats_call pthread_once_w.eats_call
  pthread_key_create_w.eats_call pthread_setspecific_w.eats_call

lemmas wrappers_wp [wp_intros] =
  bind_w.wp_call connect_w.wp_call getpeername_w.wp_call getsockname_w.wp_call
  getsockopt_w.wp_call inet6_rth_space_w.wp_call inet6_rth_init_w.wp_call
  inet6_rth_add_w.wp_call inet6_rth_reverse_w.wp_call inet6_rth_segments_w.wp_call
  inet6_rth_getaddr_w.wp_call kqueue_w.wp_call kevent_w.wp_call poll_w.wp_call
  recv_w.wp_call recvfrom_w.wp_call recvmsg_w.wp_call select_w.wp_call send_w.wp_call
  sendto_w.wp_call sendmsg_w.wp_call setsockopt_w.wp_call shutdown_w.wp_call
  sockatmark_w.wp_call socket_w.wp_call socketpair_w.wp_call calloc_w.wp_call
  close_w.wp_call dup2_w.wp_call fcntl_w.wp_call gettimeofday_w.wp_call ioctl_w.wp_call
  fork_w.wp_call malloc_w.wp_call mmap_w.wp_call open_w.wp_call pipe_w.wp_call
  read_w.wp_call sigaddset_w.wp_call sigdelset_w.wp_call sigemptyset_w.wp_call
  sigfillset_w.wp_call sigismember_w.wp_call sigpending_w.wp_call sigprocmask_w.wp_call
  strdup_w.wp_call sysctl_w.wp_call unlink_w.wp_call wait_w.wp_call waitpid_w.wp_call
  write_w.wp_call fclose_w.wp_call fdopen_w.wp_call fgets_w.wp_call fopen_w.wp_call
  fputs_w.wp_call pthread_create_w.wp_call pthread_join_w.wp_call
  pthread_detach_w.wp_call pthread_kill_w.wp_call pthread_mutexattr_init_w.wp_call
  pthread_mutexattr_setpshared_w.wp_call pthread_mutex_init_w.wp_call
  pthread_mutex_lock_w.wp_call pthread_mutex_unlock_w.wp_call
  pthread_cond_broadcast_w.wp_call pthread_cond_signal_w.wp_call
  pthread_cond_wait_w.wp_call pthread_cond_timedwait_w.wp_call pthread_once_w.wp_call
  pthread_key_create_w.wp_call pthread_setspecific_w.wp_call

text \<open>The wrappers that make two calls, or can fail in two ways.\<close>

lemma lawful_more [lawful_intros]:
  "lawful (Listen fd n)" "lawful (Mkstemp t)" "lawful (Sysconf k)"
  "lawful (Inet_ntop f a b m)" "lawful (Inet_pton f s)"
  unfolding Listen_def Mkstemp_def Sysconf_def Inet_ntop_def Inet_pton_def Let_def
  by (intro lawful_intros)+

lemma eats_more [eats_intros]:
  "eats P (Listen fd n)" "eats Q (Mkstemp t)" "eats R (Sysconf k)" "eats S (Inet_pton f s)"
proof -
  show "eats P (Listen fd n)" "eats Q (Mkstemp t)" "eats S (Inet_pton f s)"
    unfolding Listen_def Mkstemp_def Inet_pton_def Let_def
    by (intro eats_first eats_intros lawful_intros)+
  show "eats R (Sysconf k)"
    unfolding Sysconf_def by (intro eats_second eats_first eats_intros lawful_intros)
qed

section \<open>Accept\<close>

interpretation accept_w: consuming "accept_round fd" for fd
  by unfold_locales (unfold accept_round_def, intro eats_first eats_intros lawful_intros)

lemma accept_round_apply:
  "accept_round fd x w = (case resps w of
      [] \<Rightarrow> (Inl Blocked, w)
    | r # _ \<Rightarrow>
       if r_val r < 0 then
         (if r_errno r = EPROTO \<or> r_errno r = ECONNABORTED then (Inr (Inl ()), took (C_accept fd) r w)
          else err_sys ''accept error'' (took (C_accept fd) r w))
       else (Inr (Inr (r_val r, r_addr r)), took (C_accept fd) r w))"
  by (auto simp: accept_round_def andThen_apply sys_apply split: list.split)

lemma accept_round_lawful: "lawful (accept_round fd x)"
  unfolding accept_round_def by (intro lawful_intros)

lemma lawful_Accept [lawful_intros]: "lawful (Accept fd)"
  unfolding Accept_def by (rule accept_w.loop_lawful) (rule accept_round_lawful)

lemma eats_Accept [eats_intros]: "eats P (Accept fd)"
  unfolding Accept_def
  by (rule accept_w.loop_eats [OF accept_round_lawful])
    (unfold accept_round_def, intro eats_first eats_intros lawful_intros)

text \<open>The responses \<open>Accept\<close> takes before it answers are connections that were gone again.\<close>

definition gone :: "int \<Rightarrow> event \<Rightarrow> bool" where
  "gone fd ev \<longleftrightarrow> (\<exists>r. ev = Did (C_accept fd) r \<and> r_val r < 0 \<and>
     (r_errno r = EPROTO \<or> r_errno r = ECONNABORTED))"

lemma Accept_trace:
  assumes "Accept fd w = (res, w')"
  shows "\<exists>tr. (\<forall>ev\<in>set tr. gone fd ev) \<and>
    (case res of
       Inr (n, sa) \<Rightarrow> \<exists>r. trace w' = trace w @ tr @ [Did (C_accept fd) r] \<and>
         0 \<le> n \<and> n = r_val r \<and> sa = r_addr r
     | Inl e \<Rightarrow> e = Blocked \<and> trace w' = trace w @ tr \<or>
         e = Exit 1 ''accept error'')"
proof -
  let ?I = "\<lambda>_ v. \<exists>tr. (\<forall>ev\<in>set tr. gone fd ev) \<and> trace v = trace w @ tr"
  let ?Q = "\<lambda>res w'. \<exists>tr. (\<forall>ev\<in>set tr. gone fd ev) \<and>
    (case res of
       Inr (n, sa) \<Rightarrow> \<exists>r. trace w' = trace w @ tr @ [Did (C_accept fd) r] \<and>
         0 \<le> n \<and> n = r_val r \<and> sa = r_addr r
     | Inl e \<Rightarrow> e = Blocked \<and> trace w' = trace w @ tr \<or>
         e = Exit 1 ''accept error'')"
  show ?thesis
  proof (rule accept_w.loop_rule [where I = ?I and Q = ?Q, OF assms [unfolded Accept_def]])
    show "?I () w" by (intro exI [of _ "[]"]) simp
  next
    fix x v y v'
    assume "?I x v" and "accept_round fd x v = (Inr (Inl y), v')"
    then show "?I y v'"
      by (fastforce simp: accept_round_def andThen_apply sys_apply gone_def
          split: list.splits if_splits)
  next
    fix x v a v'
    assume "?I x v" and "accept_round fd x v = (Inr (Inr a), v')"
    then show "?Q (Inr a) v'"
      by (fastforce simp: accept_round_def andThen_apply sys_apply
          split: list.splits if_splits prod.splits)
  next
    fix x v e v'
    assume "?I x v" and "accept_round fd x v = (Inl e, v')"
    then show "?Q (Inl e) v'"
      by (fastforce simp: accept_round_def andThen_apply sys_apply
          split: list.splits if_splits)
  qed
qed

text \<open>The verification condition: whatever \<open>Accept\<close> did before it answers or stops were calls of
  \<open>accept\<close> that failed.\<close>

definition refused :: "int \<Rightarrow> event \<Rightarrow> bool" where
  "refused fd ev \<longleftrightarrow> (\<exists>r. ev = Did (C_accept fd) r \<and> r_val r < 0)"

lemma wp_Accept [wp_intros]:
  assumes returns: "\<And>r v tr. trace v = trace w @ tr @ [Did (C_accept fd) r] \<Longrightarrow>
      \<forall>ev\<in>set tr. refused fd ev \<Longrightarrow> 0 \<le> r_val r \<Longrightarrow> Q (r_val r, r_addr r) v"
    and stops: "\<And>e v tr. trace v = trace w @ tr \<Longrightarrow> \<forall>ev\<in>set tr. refused fd ev \<or> is_log ev \<Longrightarrow>
      e = Blocked \<or> e = Exit 1 ''accept error'' \<Longrightarrow> E e v"
  shows "wp (Accept fd) Q E w"
  unfolding Accept_def
proof (rule accept_w.loop_wp [where I = "\<lambda>_ v. \<exists>tr. trace v = trace w @ tr \<and> (\<forall>ev\<in>set tr. refused fd ev)"])
  show "\<exists>tr. trace w = trace w @ tr \<and> (\<forall>ev\<in>set tr. refused fd ev)" by simp
next
  fix x :: unit and v :: world
  assume "\<exists>tr. trace v = trace w @ tr \<and> (\<forall>ev\<in>set tr. refused fd ev)"
  then obtain tr where tr: "trace v = trace w @ tr" "\<forall>ev\<in>set tr. refused fd ev" by blast
  show "wp (accept_round fd x) (\<lambda>z v. case z of
      Inl y \<Rightarrow> \<exists>tr. trace v = trace w @ tr \<and> (\<forall>ev\<in>set tr. refused fd ev) | Inr a \<Rightarrow> Q a v) E v"
    unfolding accept_round_def
  proof (intro wp_intros)
    fix r :: resp and ev
    assume "r_val r < 0" and "is_log ev"
    with tr show "E (Exit 1 ''accept error'') (took (C_accept fd) r v
        \<lparr>trace := trace (took (C_accept fd) r v) @ [ev]\<rparr>)"
      by (intro stops [of _ "tr @ [Did (C_accept fd) r, ev]"]) (auto simp: refused_def)
  next
    show "E Blocked v" by (rule stops) (use tr in auto)
  qed (use tr returns in \<open>auto simp: refused_def\<close>)
qed

end
