(* ===== verification/Stream_IO.thy ===== *)
theory Stream_IO
  imports Wrappers
begin

text \<open>
  \<open>readn.cpp\<close>, \<open>writen.cpp\<close> and \<open>readline.cpp\<close>: byte-stream input and output on
  descriptors that transfer less than they are asked for. \<open>received\<close> and \<open>sent\<close> read off a
  trace what the kernel handed over and what it took; the lemmas relate the buffers of the
  functions to them. \<open>readline\<close> keeps its buffer between calls in three static variables,
  here the record \<open>rl\<close> that is passed in and returned.
\<close>

section \<open>What a trace moves\<close>

fun ev_received :: "int \<Rightarrow> event \<Rightarrow> byte list" where
  "ev_received fd (Did (C_read fd' n) r) = (if fd' = fd then got n r else [])"
| "ev_received fd _ = []"

fun ev_sent :: "int \<Rightarrow> event \<Rightarrow> byte list" where
  "ev_sent fd (Did (C_write fd' bs) r) = (if fd' = fd then take (nat (put_len bs r)) bs else [])"
| "ev_sent fd _ = []"

definition received :: "int \<Rightarrow> event list \<Rightarrow> byte list" where
  "received fd tr = concat (map (ev_received fd) tr)"

definition sent :: "int \<Rightarrow> event list \<Rightarrow> byte list" where
  "sent fd tr = concat (map (ev_sent fd) tr)"

lemma received_simps [simp]:
  "received fd [] = []" "received fd (e # es) = ev_received fd e @ received fd es"
  "received fd (xs @ ys) = received fd xs @ received fd ys"
  by (simp_all add: received_def)

lemma sent_simps [simp]:
  "sent fd [] = []" "sent fd (e # es) = ev_sent fd e @ sent fd es"
  "sent fd (xs @ ys) = sent fd xs @ sent fd ys"
  by (simp_all add: sent_def)

definition reads_of :: "int \<Rightarrow> event \<Rightarrow> bool" where
  "reads_of fd ev \<longleftrightarrow> (\<exists>n r. ev = Did (C_read fd n) r)"

definition writes_of :: "int \<Rightarrow> event \<Rightarrow> bool" where
  "writes_of fd ev \<longleftrightarrow> (\<exists>bs r. ev = Did (C_write fd bs) r)"

lemma sent_reads [simp]: "\<forall>ev\<in>set tr. reads_of fd ev \<Longrightarrow> sent fd' tr = []"
  by (induction tr) (auto simp: reads_of_def)

lemma received_writes [simp]: "\<forall>ev\<in>set tr. writes_of fd ev \<Longrightarrow> received fd' tr = []"
  by (induction tr) (auto simp: writes_of_def)

section \<open>readn\<close>

definition readn_round ::
  "int \<Rightarrow> nat \<Rightarrow> nat \<times> byte list \<Rightarrow> (world, nat \<times> byte list + int \<times> byte list) prog" where
  "readn_round fd n = (\<lambda>(nleft, buf).
     if 0 < nleft then
       andThen (sys_read fd nleft) (\<lambda>(nread, bs).
         if nread < 0 then
           andThen get_errno (\<lambda>errno.
             if errno = EINTR then again (nleft, buf) else leave (-1, buf))
         else if nread = 0 then leave (int n - int nleft, buf)
         else again (nleft - nat nread, buf @ bs))
     else leave (int n - int nleft, buf))"

definition readn :: "int \<Rightarrow> nat \<Rightarrow> (world, int \<times> byte list) prog" where
  "readn fd n = loop (readn_round fd n) (n, [])"

definition Readn :: "int \<Rightarrow> nat \<Rightarrow> (world, int \<times> byte list) prog" where
  "Readn fd nbytes = andThen (readn fd nbytes)
     (\<lambda>(n, buf). if n < 0 then err_sys ''readn error'' else ret (n, buf))"

lemma readn_round_lawful: "lawful (readn_round fd n x)"
  unfolding readn_round_def by (cases x) (auto intro!: lawful_intros)

interpretation readn_loop: consuming "readn_round fd n" for fd n
proof
  show "eats repeats (readn_round fd n x)" for x
    unfolding readn_round_def
    by (cases x) (auto intro!: eats_intros eats_first lawful_intros)
qed

text \<open>What one round does, evaluated.\<close>

lemma readn_round_apply:
  "readn_round fd n (nleft, buf) w =
     (if nleft = 0 then (Inr (Inr (int n, buf)), w)
      else case resps w of
        [] \<Rightarrow> (Inl Blocked, w)
      | r # _ \<Rightarrow>
         (Inr (if r_val r < 0 then
                 (if r_errno r = EINTR then Inl (nleft, buf) else Inr (-1, buf))
               else if got nleft r = [] then Inr (int n - int nleft, buf)
               else Inl (nleft - length (got nleft r), buf @ got nleft r)),
          took (C_read fd nleft) r w))"
  by (auto simp: readn_round_def sys_read_def andThen_apply sys_apply got_len_def
      split: list.splits)

text \<open>The buffer holds exactly the bytes received, no call is made but \<open>read\<close> on the
  descriptor, and the value is the number of bytes: short of \<open>n\<close> only at end of file, -1
  only when a \<open>read\<close> failed with something other than \<open>EINTR\<close>.\<close>

definition readn_post :: "int \<Rightarrow> nat \<Rightarrow> world \<Rightarrow> int \<Rightarrow> byte list \<Rightarrow> world \<Rightarrow> bool" where
  "readn_post fd n w k buf w' \<longleftrightarrow>
     (\<exists>tr. trace w' = trace w @ tr \<and> (\<forall>ev\<in>set tr. reads_of fd ev) \<and> buf = received fd tr \<and>
       length buf \<le> n \<and>
       (k = int (length buf) \<and>
          (length buf < n \<longrightarrow> (\<exists>tr' m r. tr = tr' @ [Did (C_read fd m) r] \<and> got_len m r = 0)) \<or>
        k = -1 \<and> (\<exists>tr' m r. tr = tr' @ [Did (C_read fd m) r] \<and>
          r_val r < 0 \<and> r_errno r \<noteq> EINTR)))"

lemma readn_correct:
  assumes "readn fd n w = (res, w')"
  shows "case res of Inr (k, buf) \<Rightarrow> readn_post fd n w k buf w' | Inl e \<Rightarrow> e = Blocked"
proof -
  let ?I = "\<lambda>(nleft, buf) v. \<exists>tr. trace v = trace w @ tr \<and> (\<forall>ev\<in>set tr. reads_of fd ev) \<and>
     buf = received fd tr \<and> nleft + length buf = n"
  let ?Q = "\<lambda>res w'. case res of Inr (k, buf) \<Rightarrow> readn_post fd n w k buf w' | Inl e \<Rightarrow> e = Blocked"
  show ?thesis
  proof (rule readn_loop.loop_rule [where I = ?I and Q = ?Q, OF assms [unfolded readn_def]])
    show "?I (n, []) w" by (auto intro: exI [of _ "[]"])
  next
    fix x v y v'
    assume "?I x v" and "readn_round fd n x v = (Inr (Inl y), v')"
    then show "?I y v'"
      by (cases x) (auto simp: readn_round_apply reads_of_def split: if_splits list.splits)
  next
    fix x v a v'
    assume I: "?I x v" and r: "readn_round fd n x v = (Inr (Inr a), v')"
    obtain nleft buf where x: "x = (nleft, buf)" by fastforce
    from I x obtain tr where tr: "trace v = trace w @ tr" "\<forall>ev\<in>set tr. reads_of fd ev"
      "buf = received fd tr" "nleft + length buf = n" by auto
    show "?Q (Inr a) v'"
    proof (cases "nleft = 0")
      case True
      with r x tr show ?thesis by (auto simp: readn_round_apply readn_post_def)
    next
      case False
      with r x obtain q rs where "resps v = q # rs" and v': "v' = took (C_read fd nleft) q v"
        and got: "got nleft q = []" and a: "a = (if r_val q < 0 then -1 else int n - int nleft, buf)"
        and neg: "r_val q < 0 \<longrightarrow> r_errno q \<noteq> EINTR"
        by (auto simp: readn_round_apply split: if_splits list.splits)
      let ?tr = "tr @ [Did (C_read fd nleft) q]"
      have "trace v' = trace w @ ?tr" "\<forall>ev\<in>set ?tr. reads_of fd ev" "buf = received fd ?tr"
        using v' tr got by (auto simp: reads_of_def)
      with a neg tr got show ?thesis
        unfolding readn_post_def by (auto simp: got_len_def intro!: exI [of _ ?tr])
    qed
  next
    fix x v e v'
    assume "?I x v" and "readn_round fd n x v = (Inl e, v')"
    then show "?Q (Inl e) v'"
      by (cases x) (auto simp: readn_round_apply split: if_splits list.splits)
  qed
qed

text \<open>However a stream is cut into segments, and however often the call is interrupted,
  \<open>readn\<close> puts it together again: it returns as soon as \<open>n\<close> bytes have arrived.\<close>

definition interrupted :: "resp \<Rightarrow> bool" where
  "interrupted r \<longleftrightarrow> r_val r < 0 \<and> r_errno r = EINTR"

definition segment :: "resp \<Rightarrow> bool" where
  "segment r \<longleftrightarrow> 0 \<le> r_val r \<and> r_data r \<noteq> []"

definition stream_of :: "resp list \<Rightarrow> byte list" where
  "stream_of rs = concat (map (\<lambda>r. if r_val r < 0 then [] else r_data r) rs)"

lemma stream_of_Cons [simp]:
  "stream_of (r # rs) = (if r_val r < 0 then [] else r_data r) @ stream_of rs"
  by (simp add: stream_of_def)

lemma stream_of_Nil [simp]: "stream_of [] = []"
  by (simp add: stream_of_def)

lemma readn_round_loop_step:
  assumes "resps w = r # rs" and "0 < nleft"
  shows "interrupted r \<Longrightarrow> loop (readn_round fd n) (nleft, buf) w =
      loop (readn_round fd n) (nleft, buf) (took (C_read fd nleft) r w)"
    and "segment r \<Longrightarrow> length (r_data r) \<le> nleft \<Longrightarrow>
      loop (readn_round fd n) (nleft, buf) w =
        loop (readn_round fd n) (nleft - length (r_data r), buf @ r_data r)
          (took (C_read fd nleft) r w)"
  using assms
  by (auto simp: readn_loop.loop_unfold [of fd n "(nleft, buf)" w] readn_round_apply
      interrupted_def segment_def got_def)

lemma readn_round_loop_done:
  "loop (readn_round fd n) (0, buf) w = (Inr (int n, buf), w)"
  by (simp add: readn_loop.loop_unfold [of fd n "(0, buf)" w] readn_round_apply)

lemma readn_reassembles_aux:
  assumes "resps w = rs @ rest" and "\<forall>r\<in>set rs. interrupted r \<or> segment r"
    and "length (stream_of rs) = nleft" and "nleft \<le> n"
  shows "\<exists>w'. loop (readn_round fd n) (nleft, buf) w = (Inr (int n, buf @ stream_of rs), w')"
  using assms
proof (induction rs arbitrary: w nleft buf)
  case Nil
  then show ?case
    by (simp add: readn_round_loop_done)
next
  case (Cons r rs)
  show ?case
  proof (cases "nleft = 0")
    case True
    then show ?thesis
      using Cons.prems by (auto simp: readn_round_loop_done)
  next
    case False
    with Cons.prems have w: "resps w = r # (rs @ rest)" "0 < nleft" by simp_all
    show ?thesis
    proof (cases "interrupted r")
      case True
      then have "stream_of (r # rs) = stream_of rs"
        by (simp add: interrupted_def)
      with Cons.IH [of "took (C_read fd nleft) r w" nleft buf] Cons.prems w True show ?thesis
        by (simp add: readn_round_loop_step(1) [OF w])
    next
      case no: False
      then have seg: "segment r" using Cons.prems by auto
      then have len: "length (r_data r) \<le> nleft"
        using Cons.prems by (auto simp: segment_def)
      have "stream_of (r # rs) = r_data r @ stream_of rs"
        using seg by (simp add: segment_def)
      with Cons.IH [of "took (C_read fd nleft) r w" "nleft - length (r_data r)" "buf @ r_data r"]
        Cons.prems w len show ?thesis
        by (simp add: readn_round_loop_step(2) [OF w seg len])
    qed
  qed
qed

text \<open>(C12) \<open>readn\<close> returns the first \<open>n\<close> bytes of the stream, whatever segments they arrive in
  and however often \<open>read\<close> is interrupted by a signal in between.\<close>

lemma readn_reassembles:
  assumes "resps w = rs @ rest" and "\<forall>r\<in>set rs. interrupted r \<or> segment r"
  shows "\<exists>w'. readn fd (length (stream_of rs)) w = (Inr (int (length (stream_of rs)), stream_of rs), w')"
  using readn_reassembles_aux [OF assms refl order.refl, of fd "[]"] by (simp add: readn_def)

lemma readn_reassembles_witness:
  "\<exists>w'. readn 5 3 (start [fails EINTR, gives [1, 2], fails EINTR, gives [3]]) =
     (Inr (3, [1, 2, 3]), w')"
  using readn_reassembles [of "start [fails EINTR, gives [1, 2], fails EINTR, gives [3]]"
      "[fails EINTR, gives [1, 2], fails EINTR, gives [3]]" "[]" 5]
  by (simp add: resp_defs interrupted_def segment_def eval_nat_numeral)

lemma lawful_readn [lawful_intros]: "lawful (readn fd n)" "lawful (Readn fd n)"
proof -
  show "lawful (readn fd n)"
    unfolding readn_def by (rule readn_loop.loop_lawful) (rule readn_round_lawful)
  then show "lawful (Readn fd n)"
    unfolding Readn_def by (auto intro!: lawful_intros)
qed

lemma Readn_result:
  assumes "Readn fd n w = (Inr (k, buf), w')"
  shows "readn_post fd n w k buf w' \<and> k = int (length buf)"
proof -
  from assms have k: "0 \<le> k" and r: "readn fd n w = (Inr (k, buf), w')"
    by (auto simp: Readn_def andThen_apply split: prod.splits sum.splits if_splits)
  from readn_correct [OF r] have "readn_post fd n w k buf w'" by simp
  with k show ?thesis by (auto simp: readn_post_def)
qed

section \<open>writen\<close>

text \<open>\<open>writen\<close> returns a \<open>size_t\<close>: its \<open>return (-1)\<close> is the largest one.\<close>

definition SIZE_MAX :: int where "SIZE_MAX = 2 ^ 64 - 1"

definition writen_round ::
  "int \<Rightarrow> byte list \<Rightarrow> nat \<Rightarrow> (world, nat + int) prog" where
  "writen_round fd vptr nleft =
     (if 0 < nleft then
        andThen (sys_write fd (drop (length vptr - nleft) vptr)) (\<lambda>nwritten.
          if nwritten \<le> 0 then
            andThen get_errno (\<lambda>errno.
              if nwritten < 0 \<and> errno = EINTR then again nleft else leave SIZE_MAX)
          else again (nleft - nat nwritten))
      else leave (int (length vptr)))"

definition writen :: "int \<Rightarrow> byte list \<Rightarrow> (world, int) prog" where
  "writen fd vptr = loop (writen_round fd vptr) (length vptr)"

definition Writen :: "int \<Rightarrow> byte list \<Rightarrow> (world, unit) prog" where
  "Writen fd bs = andThen (writen fd bs)
     (\<lambda>k. if k \<noteq> int (length bs) then err_sys ''writen error'' else ret ())"

lemma writen_round_lawful: "lawful (writen_round fd vptr x)"
  unfolding writen_round_def by (auto intro!: lawful_intros)

interpretation writen_loop: consuming "writen_round fd vptr" for fd vptr
  by unfold_locales (auto simp: writen_round_def intro!: eats_intros eats_first lawful_intros)

lemma put_len_neg_iff [simp]: "put_len bs r < 0 \<longleftrightarrow> r_val r < 0"
  by (auto simp: put_len_def)

definition writen_next :: "byte list \<Rightarrow> nat \<Rightarrow> resp \<Rightarrow> nat + int" where
  "writen_next bs nleft r =
     (if put_len bs r \<le> 0 then
        (if r_val r < 0 \<and> r_errno r = EINTR then Inl nleft else Inr SIZE_MAX)
      else Inl (nleft - nat (put_len bs r)))"

lemma writen_round_apply:
  "writen_round fd vptr nleft w =
     (if nleft = 0 then (Inr (Inr (int (length vptr))), w)
      else case resps w of
        [] \<Rightarrow> (Inl Blocked, w)
      | r # _ \<Rightarrow>
         (Inr (writen_next (drop (length vptr - nleft) vptr) nleft r),
          took (C_write fd (drop (length vptr - nleft) vptr)) r w))"
  by (auto simp: writen_round_def sys_write_def andThen_apply sys_apply writen_next_def
      split: list.splits)

lemma writen_nextE:
  assumes "writen_next bs nleft r = z"
  obtains "z = Inl (nleft - nat (put_len bs r))" | "put_len bs r \<le> 0" "z = Inr SIZE_MAX"
  using assms by (auto simp: writen_next_def split: if_splits)

lemma lawful_writen [lawful_intros]: "lawful (writen fd bs)" "lawful (Writen fd bs)"
proof -
  show "lawful (writen fd bs)"
    unfolding writen_def by (rule writen_loop.loop_lawful) (rule writen_round_lawful)
  then show "lawful (Writen fd bs)"
    unfolding Writen_def by (auto intro!: lawful_intros)
qed

text \<open>When \<open>writen\<close> reports success, the kernel has taken every byte of the buffer, once and
  in order; when it reports an error it has taken a prefix, and some call failed.\<close>

definition writen_post :: "int \<Rightarrow> byte list \<Rightarrow> world \<Rightarrow> int \<Rightarrow> world \<Rightarrow> bool" where
  "writen_post fd bs w k w' \<longleftrightarrow>
     (\<exists>tr. trace w' = trace w @ tr \<and> (\<forall>ev\<in>set tr. writes_of fd ev) \<and>
       (k = int (length bs) \<and> sent fd tr = bs \<or>
        k = SIZE_MAX \<and> (\<exists>n < length bs. sent fd tr = take n bs)))"

definition writen_inv :: "int \<Rightarrow> byte list \<Rightarrow> world \<Rightarrow> nat \<Rightarrow> world \<Rightarrow> bool" where
  "writen_inv fd bs w nleft v \<longleftrightarrow> nleft \<le> length bs \<and>
     (\<exists>tr. trace v = trace w @ tr \<and> (\<forall>ev\<in>set tr. writes_of fd ev) \<and> sent fd tr = take (length bs - nleft) bs)"

lemma writen_inv_step:
  assumes "writen_inv fd vptr w nleft v" and "bs = drop (length vptr - nleft) vptr"
  shows "writen_inv fd vptr w (nleft - nat (put_len bs q)) (took (C_write fd bs) q v)"
proof -
  obtain tr where tr: "trace v = trace w @ tr" "\<forall>ev\<in>set tr. writes_of fd ev" "nleft \<le> length vptr"
      "sent fd tr = take (length vptr - nleft) vptr"
    using assms(1) by (auto simp: writen_inv_def)
  let ?k = "nat (put_len bs q)"
  have k: "?k \<le> nleft"
    using put_len_bounds(2) [of bs q] tr(3) assms(2) by simp
  have "take (length vptr - nleft) vptr @ take ?k bs = take (length vptr - (nleft - ?k)) vptr"
    using k tr(3) by (simp add: take_add [symmetric] assms(2))
  with tr have "sent fd (tr @ [Did (C_write fd bs) q]) = take (length vptr - (nleft - ?k)) vptr"
    by simp
  with tr show ?thesis
    unfolding writen_inv_def by (auto intro!: exI [of _ "tr @ [Did (C_write fd bs) q]"] simp: writes_of_def)
qed

lemma writen_inv_post:
  "writen_inv fd vptr w 0 v \<Longrightarrow> writen_post fd vptr w (int (length vptr)) v"
  "writen_inv fd vptr w nleft v \<Longrightarrow> nleft \<noteq> 0 \<Longrightarrow> writen_post fd vptr w SIZE_MAX v"
  unfolding writen_inv_def writen_post_def
  by (auto intro!: exI [of _ "length vptr - nleft"])

lemma writen_round_wp:
  assumes "writen_inv fd vptr w nleft v"
  shows "wp (writen_round fd vptr nleft)
    (\<lambda>z v. case z of Inl y \<Rightarrow> writen_inv fd vptr w y v | Inr k \<Rightarrow> writen_post fd vptr w k v)
    (\<lambda>e v. e = Blocked \<and> (\<exists>nleft. writen_inv fd vptr w nleft v)) v"
proof (cases "nleft = 0 \<or> resps v = []")
  case True
  with assms show ?thesis
    by (auto simp: wp_def writen_round_apply writen_inv_post split: list.split)
next
  case False
  let ?bs = "drop (length vptr - nleft) vptr"
  obtain q rs where q: "resps v = q # rs" using False by (cases "resps v") auto
  show ?thesis
    by (rule writen_nextE [of ?bs nleft q, OF refl])
      (use writen_inv_step [OF assms refl, of q] False in
        \<open>auto simp: wp_def writen_round_apply q intro: writen_inv_post\<close>)
qed

lemma writen_correct:
  assumes "writen fd vptr w = (res, w')"
  shows "case res of
      Inr k \<Rightarrow> writen_post fd vptr w k w'
    | Inl e \<Rightarrow> e = Blocked \<and> (\<exists>tr n. trace w' = trace w @ tr \<and> (\<forall>ev\<in>set tr. writes_of fd ev) \<and>
        sent fd tr = take n vptr)"
proof -
  have "writen_inv fd vptr w (length vptr) w"
    by (simp add: writen_inv_def)
  then have "wp (writen fd vptr) (writen_post fd vptr w) (\<lambda>e v. e = Blocked \<and> (\<exists>nleft. writen_inv fd vptr w nleft v)) w"
    unfolding writen_def by (rule writen_loop.loop_wp [OF _ writen_round_wp])
  then show ?thesis
    using assms by (fastforce simp: wp_def writen_inv_def split: sum.split)
qed

lemma Writen_correct:
  assumes "Writen fd bs w = (res, w')" and "int (length bs) < SIZE_MAX"
  shows "case res of
      Inr _ \<Rightarrow> (\<exists>tr. trace w' = trace w @ tr \<and> (\<forall>ev\<in>set tr. writes_of fd ev) \<and> sent fd tr = bs)
    | Inl e \<Rightarrow> e = Blocked \<or> e = Exit 1 ''writen error''"
proof -
  obtain r v where r: "writen fd bs w = (r, v)" by fastforce
  show ?thesis
  proof (cases r)
    case (Inl e)
    with writen_correct [OF r] assms r show ?thesis
      by (auto simp: Writen_def andThen_apply)
  next
    case (Inr k)
    with writen_correct [OF r] have "writen_post fd bs w k v" by simp
    with assms r Inr show ?thesis
      by (auto simp: Writen_def andThen_apply err_doit_apply writen_post_def split: if_splits)
  qed
qed

section \<open>readline\<close>

text \<open>The static variables of \<open>readline.cpp\<close>. \<open>read_cnt\<close> is a \<open>size_t\<close>: \<open>read_cnt < 0\<close> is false
  whatever \<open>read\<close> returned, and a failed \<open>read\<close> leaves the largest \<open>size_t\<close> in it. \<open>read_ptr\<close>
  is an index into \<open>read_buf\<close>; reading beyond the array is undefined behaviour.\<close>

record rl =
  read_cnt :: u64
  read_ptr :: nat
  read_buf :: "byte list"

definition rl_start :: rl where
  "rl_start = \<lparr>read_cnt = 0, read_ptr = 0, read_buf = replicate MAXLINE 0\<rparr>"

definition my_read_fill :: "int \<Rightarrow> rl \<Rightarrow> (world, rl + int \<times> rl) prog" where
  "my_read_fill fd s = andThen (sys_read fd MAXLINE) (\<lambda>(nread, bs).
     let s = s\<lparr>read_cnt := word_of_int nread, read_buf := bs @ drop (length bs) (read_buf s)\<rparr>
     in if uint (read_cnt s) < 0 then
          andThen get_errno (\<lambda>errno. if errno = EINTR then again s else leave (-1, s))
        else if read_cnt s = 0 then leave (0, s)
        else leave (1, s\<lparr>read_ptr := 0\<rparr>))"

definition my_read_take :: "rl \<Rightarrow> (world, int \<times> byte \<times> rl) prog" where
  "my_read_take s =
     (if read_ptr s < length (read_buf s) then
        ret (1, read_buf s ! read_ptr s,
             s\<lparr>read_cnt := read_cnt s - 1, read_ptr := read_ptr s + 1\<rparr>)
      else halt (Undef ''read_buf''))"

definition my_read :: "int \<Rightarrow> rl \<Rightarrow> (world, int \<times> byte \<times> rl) prog" where
  "my_read fd s =
     (if uint (read_cnt s) \<le> 0 then
        andThen (loop (my_read_fill fd) s) (\<lambda>(rc, s).
          if rc = 1 then my_read_take s else ret (rc, 0, s))
      else my_read_take s)"

text \<open>The \<open>for\<close> loop of \<open>readline\<close>: \<open>k\<close> is \<open>maxlen - n\<close>, \<open>line\<close> the bytes stored, so that
  \<open>n = length line + 1\<close>. A \<open>maxlen\<close> of 0 has no room for the terminating null.\<close>

fun readline_from :: "int \<Rightarrow> nat \<Rightarrow> byte list \<Rightarrow> rl \<Rightarrow> (world, int \<times> byte list \<times> rl) prog" where
  "readline_from fd 0 line s = ret (int (length line) + 1, line, s)"
| "readline_from fd (Suc k) line s = andThen (my_read fd s) (\<lambda>(rc, c, s).
     if rc = 1 then
       (if c = NEWLINE then ret (int (length line) + 1, line @ [c], s)
        else readline_from fd k (line @ [c]) s)
     else if rc = 0 then ret (int (length line), line, s)
     else ret (-1, line, s))"

definition readline :: "int \<Rightarrow> nat \<Rightarrow> rl \<Rightarrow> (world, int \<times> byte list \<times> rl) prog" where
  "readline fd maxlen s =
     (if maxlen = 0 then halt (Undef ''readline: ptr'') else readline_from fd (maxlen - 1) [] s)"

definition readlinebuf :: "rl \<Rightarrow> u64 \<times> nat option" where
  "readlinebuf s = (read_cnt s, if read_cnt s \<noteq> 0 then Some (read_ptr s) else None)"

definition Readline :: "int \<Rightarrow> nat \<Rightarrow> rl \<Rightarrow> (world, int \<times> byte list \<times> rl) prog" where
  "Readline fd maxlen s = andThen (readline fd maxlen s) (\<lambda>(n, line, s).
     if n < 0 then err_sys ''readline error'' else ret (n, line, s))"

text \<open>The bytes read from the descriptor and not yet handed out, and the invariant of the
  buffer: they lie inside the array.\<close>

definition pending :: "rl \<Rightarrow> byte list" where
  "pending s = take (unat (read_cnt s)) (drop (read_ptr s) (read_buf s))"

definition rl_inv :: "rl \<Rightarrow> bool" where
  "rl_inv s \<longleftrightarrow> length (read_buf s) = MAXLINE \<and>
     (read_cnt s \<noteq> 0 \<longrightarrow> read_ptr s + unat (read_cnt s) \<le> MAXLINE)"

lemma rl_inv_start [simp]: "rl_inv rl_start" "pending rl_start = []"
  by (simp_all add: rl_inv_def rl_start_def pending_def)

interpretation my_read_loop: consuming "my_read_fill fd" for fd
  by unfold_locales
    (auto simp: my_read_fill_def Let_def intro!: eats_intros eats_first lawful_intros)

text \<open>What \<open>my_read\<close> does on an empty buffer: the test for an error is never true.\<close>

definition refill :: "rl \<Rightarrow> resp \<Rightarrow> rl" where
  "refill s r = s\<lparr>read_cnt := word_of_int (got_len MAXLINE r),
     read_buf := got MAXLINE r @ drop (length (got MAXLINE r)) (read_buf s), read_ptr := 0\<rparr>"

lemma word_of_got_len_0_iff [simp]:
  "(word_of_int (got_len MAXLINE r) :: u64) = 0 \<longleftrightarrow> got_len MAXLINE r = 0"
proof (cases "got_len MAXLINE r = -1")
  case True
  then show ?thesis by simp
next
  case False
  then have "0 \<le> got_len MAXLINE r" and "got_len MAXLINE r < 2 ^ 64"
    using got_len_bounds [of MAXLINE r] by (simp_all add: MAXLINE_def del: got_len_bounds)
  then have "got_len MAXLINE r mod 2 ^ 64 = got_len MAXLINE r"
    by (rule mod_pos_pos_trivial)
  then show ?thesis
    by (simp add: word_of_int_eq_0_iff dvd_eq_mod_eq_0)
qed

lemma my_read_empty:
  assumes "read_cnt s = 0"
  shows "my_read fd s w = (case resps w of
      [] \<Rightarrow> (Inl Blocked, w)
    | r # _ \<Rightarrow>
        if got_len MAXLINE r = 0
        then (Inr (0, 0, s\<lparr>read_cnt := 0\<rparr>), took (C_read fd MAXLINE) r w)
        else my_read_take (refill s r) (took (C_read fd MAXLINE) r w))"
  using assms
  by (auto simp: my_read_def my_read_loop.loop_unfold [of fd s w] my_read_fill_def sys_read_def
      andThen_apply sys_apply Let_def refill_def got_len_zero split: list.splits)

lemma my_read_buffered: "read_cnt s \<noteq> 0 \<Longrightarrow> my_read fd s = my_read_take s"
proof -
  assume "read_cnt s \<noteq> 0"
  then have "\<not> uint (read_cnt s) \<le> 0"
    by (metis antisym uint_ge_0 uint_0_iff)
  then show ?thesis
    by (simp add: my_read_def)
qed

text \<open>Taking the next byte of a buffer that holds some keeps the invariant.\<close>

lemma my_read_take_pending:
  assumes "rl_inv s" and "read_cnt s \<noteq> 0"
  obtains c s' where "my_read_take s = ret (1, c, s')" and "rl_inv s'" and "pending s = c # pending s'"
proof -
  let ?n = "unat (read_cnt s)"
  let ?s = "s\<lparr>read_cnt := read_cnt s - 1, read_ptr := read_ptr s + 1\<rparr>"
  have n: "unat (read_cnt s - 1) = ?n - 1" "0 < ?n"
    using assms(2) by (simp_all add: unat_minus_one unat_gt_0)
  have len: "length (read_buf s) = MAXLINE" "read_ptr s + ?n \<le> MAXLINE"
    using assms by (simp_all add: rl_inv_def)
  with n have lt: "read_ptr s < length (read_buf s)" by linarith
  have "pending s = read_buf s ! read_ptr s # pending ?s"
    using lt n by (cases ?n) (simp_all add: pending_def Cons_nth_drop_Suc [symmetric])
  moreover have "rl_inv ?s"
    using len n unfolding rl_inv_def by auto
  moreover have "my_read_take s = ret (1, read_buf s ! read_ptr s, ?s)"
    using lt by (simp add: my_read_take_def)
  ultimately show ?thesis
    using that by blast
qed

lemma unat_got_len:
  assumes "\<not> r_val r < 0"
  shows "unat (word_of_int (got_len MAXLINE r) :: u64) = length (got MAXLINE r)"
proof -
  have "length (got MAXLINE r) < 2 ^ 64"
    using length_got_le [of MAXLINE r] by (simp add: MAXLINE_def del: length_got_le)
  with assms show ?thesis
    by (simp add: got_len_def unat_of_nat take_bit_nat_eq_self)
qed

lemma refill_pending:
  assumes "rl_inv s" and "\<not> r_val r < 0"
  shows "rl_inv (refill s r)" and "pending (refill s r) = got MAXLINE r"
  using assms length_got_le [of MAXLINE r]
  by (auto simp: rl_inv_def refill_def pending_def unat_got_len)

text \<open>One byte at a time, as long as no \<open>read\<close> fails: what was pending and what arrives comes
  out in order, and 0 is returned only for an end of file on an empty buffer.\<close>

fun unfailed :: "event \<Rightarrow> bool" where
  "unfailed (Did c r) \<longleftrightarrow> 0 \<le> r_val r"
| "unfailed _ \<longleftrightarrow> True"

definition read_eof :: "int \<Rightarrow> event \<Rightarrow> bool" where
  "read_eof fd ev \<longleftrightarrow> (\<exists>n r. ev = Did (C_read fd n) r \<and> got_len n r = 0)"

lemma read_eof_Did [simp]: "read_eof fd (Did (C_read fd n) r) \<longleftrightarrow> got_len n r = 0"
  by (simp add: read_eof_def)

definition my_read_post :: "int \<Rightarrow> rl \<Rightarrow> event list \<Rightarrow> int \<Rightarrow> byte \<Rightarrow> rl \<Rightarrow> bool" where
  "my_read_post fd s tr rc c s' \<longleftrightarrow> rl_inv s' \<and>
     (rc = 1 \<and> pending s @ received fd tr = c # pending s' \<or>
      rc = 0 \<and> pending s @ received fd tr = [] \<and> pending s' = [] \<and>
        tr \<noteq> [] \<and> read_eof fd (last tr))"

definition read_res :: "int \<Rightarrow> rl \<Rightarrow> event list \<Rightarrow> stop + int \<times> byte \<times> rl \<Rightarrow> bool" where
  "read_res fd s tr res \<longleftrightarrow> (rl_inv s \<longrightarrow> (\<forall>ev\<in>set tr. unfailed ev) \<longrightarrow>
     (case res of Inl e \<Rightarrow> e = Blocked | Inr (rc, c, s') \<Rightarrow> my_read_post fd s tr rc c s'))"

lemma my_read_take_world: "my_read_take s w = (res, w') \<Longrightarrow> w' = w"
  by (auto simp: my_read_take_def split: if_splits)

lemma my_read_take_res:
  assumes "my_read_take s w = (res, w')" and "rl_inv s" and "read_cnt s \<noteq> 0"
  obtains c s' where "res = Inr (1, c, s')" and "rl_inv s'" and "pending s = c # pending s'"
  using my_read_take_pending [OF assms(2,3)] assms(1) by (metis Pair_inject ret_apply)

text \<open>The three things \<open>my_read\<close> does: a byte of the buffer, the end of the file, the first byte of what
  has been read into an empty buffer.\<close>

lemma my_read_res_buffered:
  assumes "my_read_take s w = (res, w')" and "read_cnt s \<noteq> 0"
  shows "read_res fd s [] res"
  unfolding read_res_def
  by (auto elim!: my_read_take_res [OF assms(1) _ assms(2)] simp: my_read_post_def)

lemma my_read_res_eof:
  assumes "read_cnt s = 0" and "got_len MAXLINE r = 0"
  shows "read_res fd s [Did (C_read fd MAXLINE) r] (Inr (0, 0, s\<lparr>read_cnt := 0\<rparr>))"
  using assms
  by (auto simp: read_res_def my_read_post_def rl_inv_def pending_def read_eof_def got_len_zero)

lemma my_read_res_refilled:
  assumes "read_cnt s = 0" and "got_len MAXLINE r \<noteq> 0" and "my_read_take (refill s r) w = (res, w')"
  shows "read_res fd s [Did (C_read fd MAXLINE) r] res"
proof -
  have none: "pending s = []" using assms(1) by (simp add: pending_def)
  have "my_read_post fd s [Did (C_read fd MAXLINE) r] 1 c s'"
    if "0 \<le> r_val r" and "rl_inv s'" "pending (refill s r) = c # pending s'" and "rl_inv s" for c s'
    using that none refill_pending(2) [of s r] by (simp add: my_read_post_def)
  moreover have "rl_inv s \<Longrightarrow> 0 \<le> r_val r \<Longrightarrow> rl_inv (refill s r)" "read_cnt (refill s r) \<noteq> 0"
    using refill_pending(1) [of s r] assms(2) by (auto simp: refill_def)
  ultimately show ?thesis
    unfolding read_res_def by (auto elim!: my_read_take_res [OF assms(3)])
qed

lemma my_read_correct:
  assumes run: "my_read fd s w = (res, w')"
  shows "\<exists>tr. trace w' = trace w @ tr \<and> (\<forall>ev\<in>set tr. reads_of fd ev) \<and> read_res fd s tr res"
proof (cases "read_cnt s = 0 \<and> resps w \<noteq> []")
  case False
  then have "trace w' = trace w \<and> read_res fd s [] res"
    using run my_read_res_buffered
    by (cases "read_cnt s = 0")
      (auto simp: my_read_empty my_read_buffered read_res_def dest: my_read_take_world)
  then show ?thesis by (intro exI [of _ "[]"]) simp
next
  case True
  then obtain r rs where r: "resps w = r # rs" by (cases "resps w") auto
  with True run have "trace w' = trace w @ [Did (C_read fd MAXLINE) r]"
    by (auto simp: my_read_empty split: if_splits dest!: my_read_take_world)
  moreover from True run r have "read_res fd s [Did (C_read fd MAXLINE) r] res"
    by (auto simp: my_read_empty intro: my_read_res_eof my_read_res_refilled split: if_splits)
  ultimately show ?thesis
    by (intro exI [of _ "[Did (C_read fd MAXLINE) r]"]) (auto simp: reads_of_def)
qed

lemma upto_newline_simps [simp]:
  "upto_newline [] = []"
  "upto_newline (c # cs) = (if c = NEWLINE then [c] else c # upto_newline cs)"
  by (simp_all add: upto_newline_def)

lemma upto_newline_append:
  "upto_newline (xs @ ys) = (if NEWLINE \<in> set xs then upto_newline xs else xs @ upto_newline ys)"
  by (induction xs) auto

text \<open>\<open>line\<close> grows by the bytes up to the first newline, or \<open>k\<close> of them, or all there were
  before the end of file. A line that fills the buffer is counted one too long: \<open>n\<close> is then
  \<open>maxlen\<close>, but \<open>maxlen - 1\<close> bytes were stored.\<close>

definition line_post :: "int \<Rightarrow> nat \<Rightarrow> rl \<Rightarrow> event list \<Rightarrow> int \<Rightarrow> byte list \<Rightarrow> rl \<Rightarrow> bool" where
  "line_post fd k s tr n line s' \<longleftrightarrow>
     rl_inv s' \<and>
     pending s @ received fd tr = line @ pending s' \<and>
     line = take k (upto_newline (pending s @ received fd tr)) \<and>
     n = int (length line) + (if length line = k \<and> NEWLINE \<notin> set line then 1 else 0) \<and>
     (length line < k \<and> NEWLINE \<notin> set line \<longrightarrow> tr \<noteq> [] \<and> read_eof fd (last tr))"

lemma line_post_Cons:
  assumes "my_read_post fd s t1 1 c s1" and "c \<noteq> NEWLINE" and "line_post fd k s1 t2 (n - 1) x s'"
  shows "line_post fd (Suc k) s (t1 @ t2) n (c # x) s'"
proof -
  have "pending s @ received fd t1 = c # pending s1"
    using assms(1) by (simp add: my_read_post_def)
  then have all: "pending s @ received fd (t1 @ t2) = c # (pending s1 @ received fd t2)"
    by (simp flip: append_assoc)
  define ys where "ys = pending s1 @ received fd t2"
  from assms(3) have post: "rl_inv s'" "ys = x @ pending s'" "x = take k (upto_newline ys)"
    "n - 1 = int (length x) + (if length x = k \<and> NEWLINE \<notin> set x then 1 else 0)"
    "length x < k \<and> NEWLINE \<notin> set x \<longrightarrow> t2 \<noteq> [] \<and> read_eof fd (last t2)"
    unfolding line_post_def ys_def by blast+
  have "c # ys = (c # x) @ pending s'"
    using post(2) by simp
  moreover have "c # x = take (Suc k) (upto_newline (c # ys))"
    using assms(2) post(3) by simp
  moreover have "n = int (length (c # x)) +
      (if length (c # x) = Suc k \<and> NEWLINE \<notin> set (c # x) then 1 else 0)"
    using assms(2) post(4) by (simp split: if_splits)
  moreover have "length (c # x) < Suc k \<and> NEWLINE \<notin> set (c # x) \<longrightarrow>
      t1 @ t2 \<noteq> [] \<and> read_eof fd (last (t1 @ t2))"
    using assms(2) post(5) by simp
  ultimately show ?thesis
    using post(1) unfolding line_post_def all ys_def by blast
qed

definition line_res :: "int \<Rightarrow> nat \<Rightarrow> byte list \<Rightarrow> rl \<Rightarrow> event list \<Rightarrow> stop + int \<times> byte list \<times> rl \<Rightarrow> bool" where
  "line_res fd k line s tr res \<longleftrightarrow> (rl_inv s \<longrightarrow> (\<forall>ev\<in>set tr. unfailed ev) \<longrightarrow>
     (case res of Inl e \<Rightarrow> e = Blocked
      | Inr (n, line', s') \<Rightarrow> \<exists>x. line' = line @ x \<and> line_post fd k s tr (n - int (length line)) x s'))"

lemma line_res_Cons:
  assumes "read_res fd s t1 (Inr (1, c, s1))" and "c \<noteq> NEWLINE" and "line_res fd k (line @ [c]) s1 t2 res"
  shows "line_res fd (Suc k) line s (t1 @ t2) res"
  unfolding line_res_def
proof (intro impI)
  assume inv: "rl_inv s" and good: "\<forall>ev\<in>set (t1 @ t2). unfailed ev"
  then have p: "my_read_post fd s t1 1 c s1"
    using assms(1) by (simp add: read_res_def)
  then have "case res of Inl e \<Rightarrow> e = Blocked | Inr (n, line', s') \<Rightarrow>
      \<exists>x. line' = line @ c # x \<and> line_post fd k s1 t2 (n - int (length line) - 1) x s'"
    using assms(3) good
    by (cases res) (auto simp: line_res_def my_read_post_def diff_diff_eq add.commute)
  then show "case res of Inl e \<Rightarrow> e = Blocked | Inr (n, line', s') \<Rightarrow>
      \<exists>x. line' = line @ x \<and> line_post fd (Suc k) s (t1 @ t2) (n - int (length line)) x s'"
    using line_post_Cons [OF p assms(2)] by (fastforce split: sum.splits)
qed

text \<open>The round after which the line is complete, or after which \<open>readline\<close> has failed.\<close>

lemma line_res_last:
  assumes "my_read fd s w = (r1, w1)" and "\<nexists>c s1. r1 = Inr (1, c, s1) \<and> c \<noteq> NEWLINE"
    and "read_res fd s t1 r1" and "readline_from fd (Suc k) line s w = (res, w')"
  shows "w' = w1 \<and> line_res fd (Suc k) line s t1 res"
  using assms
  by (auto simp: andThen_apply line_post_def my_read_post_def read_res_def line_res_def
      split: sum.splits prod.splits if_splits)

lemma readline_from_correct:
  assumes "readline_from fd k line s w = (res, w')"
  shows "\<exists>tr. trace w' = trace w @ tr \<and> (\<forall>ev\<in>set tr. reads_of fd ev) \<and> line_res fd k line s tr res"
  using assms
proof (induction k arbitrary: line s w)
  case 0
  then show ?case
    by (auto simp: line_post_def line_res_def intro!: exI [of _ "[]"])
next
  case (Suc k)
  obtain r1 w1 where m: "my_read fd s w = (r1, w1)" by fastforce
  from my_read_correct [OF this] obtain t1 where t1:
    "trace w1 = trace w @ t1" "\<forall>ev\<in>set t1. reads_of fd ev" and post: "read_res fd s t1 r1"
    by blast
  show ?case
  proof (cases "\<exists>c s1. r1 = Inr (1, c, s1) \<and> c \<noteq> NEWLINE")
    case True
    then obtain c s1 where r1: "r1 = Inr (1, c, s1)" "c \<noteq> NEWLINE" by blast
    with m Suc.prems have "readline_from fd k (line @ [c]) s1 w1 = (res, w')"
      by (simp add: andThen_apply)
    from Suc.IH [OF this] t1 show ?thesis
      using line_res_Cons [OF post [unfolded r1(1)] r1(2)] by (metis append_assoc Un_iff set_append)
  next
    case False
    from line_res_last [OF m False post Suc.prems] t1 show ?thesis by blast
  qed
qed

lemma readline_correct:
  assumes "rl_inv s" and "0 < maxlen" and "readline fd maxlen s w = (res, w')"
  shows "\<exists>tr. trace w' = trace w @ tr \<and> (\<forall>ev\<in>set tr. reads_of fd ev) \<and>
    ((\<forall>ev\<in>set tr. unfailed ev) \<longrightarrow>
      (case res of Inl e \<Rightarrow> e = Blocked
       | Inr (n, line, s') \<Rightarrow> line_post fd (maxlen - 1) s tr n line s'))"
proof -
  have "readline_from fd (maxlen - 1) [] s w = (res, w')"
    using assms by (simp add: readline_def)
  from readline_from_correct [OF this] assms(1) show ?thesis
    by (simp add: line_res_def case_prod_unfold cong: sum.case_cong)
qed

lemma lawful_my_read [lawful_intros]: "lawful (my_read fd s)"
proof -
  have "lawful (loop (my_read_fill fd) s)" for s
    by (rule my_read_loop.loop_lawful)
      (auto simp: my_read_fill_def Let_def intro!: lawful_intros)
  then show ?thesis
    unfolding my_read_def my_read_take_def by (auto intro!: lawful_intros)
qed

lemma lawful_readline [lawful_intros]: "lawful (readline fd maxlen s)" "lawful (Readline fd maxlen s)"
proof -
  have "lawful (readline_from fd k line s)" for k line s
    by (induction k arbitrary: line s) (auto intro!: lawful_intros)
  then show "lawful (readline fd maxlen s)"
    unfolding readline_def by (auto intro!: lawful_intros)
  then show "lawful (Readline fd maxlen s)"
    unfolding Readline_def by (auto intro!: lawful_intros)
qed

section \<open>What the three functions guarantee\<close>

text \<open>(C1) When \<open>Writen\<close> returns, the kernel has taken exactly the bytes of the buffer, in order,
  from as many \<open>write\<close> calls as it needed, and nothing else was called; the only other
  outcome, short of \<open>write\<close> never answering, is the exit of \<open>err_sys\<close>.\<close>

theorem Writen_sends_all:
  assumes "Writen fd bs w = (res, w')" and "int (length bs) < SIZE_MAX"
  shows "case res of
      Inr _ \<Rightarrow> (\<exists>tr. trace w' = trace w @ tr \<and> (\<forall>ev\<in>set tr. writes_of fd ev) \<and> sent fd tr = bs)
    | Inl e \<Rightarrow> e = Blocked \<or> e = Exit 1 ''writen error''"
  using Writen_correct [OF assms] .

theorem Writen_sends_all_witness:
  "case Writen 4 [7, 8, 9] (start [ok 2, fails EINTR, ok 1]) of (res, w') \<Rightarrow>
     (case res of
        Inr _ \<Rightarrow> (\<exists>tr. trace w' = [] @ tr \<and> (\<forall>ev\<in>set tr. writes_of 4 ev) \<and> sent 4 tr = [7, 8, 9])
      | Inl e \<Rightarrow> e = Blocked \<or> e = Exit 1 ''writen error'')"
proof -
  obtain res w' where run: "Writen 4 [7, 8, 9] (start [ok 2, fails EINTR, ok 1]) = (res, w')"
    by fastforce
  show ?thesis
    using Writen_sends_all [OF run] run by (cases res) (simp_all add: SIZE_MAX_def)
qed

text \<open>(C2) \<open>readline\<close> takes the bytes up to the first newline off the stream, or \<open>maxlen - 1\<close> of
  them, or all there are before the end of file, however the stream was cut into \<open>read\<close>s:
  nothing is lost or repeated between the line, the bytes kept for the next call and the
  bytes received. (No \<open>read\<close> may fail: see the next theorem.)\<close>

theorem readline_takes_line:
  assumes "rl_inv s" and "0 < maxlen" and "readline fd maxlen s w = (Inr (n, line, s'), w')"
    and "trace w' = trace w @ tr" and "\<forall>ev\<in>set tr. unfailed ev"
  shows "pending s @ received fd tr = line @ pending s' \<and>
    line = take (maxlen - 1) (upto_newline (pending s @ received fd tr)) \<and>
    (length line < maxlen - 1 \<and> NEWLINE \<notin> set line \<longrightarrow> tr \<noteq> [] \<and> read_eof fd (last tr)) \<and>
    rl_inv s'"
  using readline_correct [OF assms(1-3)] assms(4,5) by (auto simp only: line_post_def sum.case prod.case same_append_eq)

lemma my_read_rl_start:
  "my_read fd rl_start w = (case resps w of
      [] \<Rightarrow> (Inl Blocked, w)
    | r # _ \<Rightarrow>
        if got_len MAXLINE r = 0
        then (Inr (0, 0, rl_start), took (C_read fd MAXLINE) r w)
        else my_read_take (refill rl_start r) (took (C_read fd MAXLINE) r w))"
  by (auto simp: my_read_empty rl_start_def split: list.splits)

theorem readline_takes_line_witness:
  "\<exists>tr n line s' w'. readline 3 10 rl_start (start [gives [97, 10, 98]]) = (Inr (n, line, s'), w') \<and>
     pending rl_start @ received 3 tr = line @ pending s' \<and> line = [97, 10] \<and> rl_inv s'"
proof -
  let ?r = "gives [97, 10, 98]"
  let ?w = "took (C_read 3 MAXLINE) ?r (start [?r])"
  let ?tr = "[Did (C_read 3 MAXLINE) ?r]"
  define pad :: "byte list" where "pad = replicate 4093 0"
  let ?s = "\<lambda>c p. \<lparr>read_cnt = c, read_ptr = p, read_buf = [97, 10, 98] @ pad\<rparr>"
  have got: "got MAXLINE ?r = [97, 10, 98]"
    by (simp add: got_def resp_defs MAXLINE_def)
  then have "refill rl_start ?r = ?s 3 0"
    by (simp add: refill_def rl_start_def got_len_def MAXLINE_def resp_defs pad_def)
  then have m1: "my_read 3 rl_start (start [?r]) = (Inr (1, 97, ?s 2 1), ?w)"
    using got by (simp add: my_read_rl_start my_read_take_def got_len_def resp_defs)
  have m2: "my_read 3 (?s 2 1) ?w = (Inr (1, 10, ?s 1 2), ?w)"
    by (simp add: my_read_buffered my_read_take_def)
  have m: "readline_from 3 (Suc (Suc 7)) [] rl_start (start [?r]) = (Inr (2, [97, 10], ?s 1 2), ?w)"
    by (simp only: readline_from.simps andThen_apply m1 m2 prod.case sum.case)
      (insert m2, simp add: andThen_apply)
  have ten: "(10 :: nat) = Suc (Suc (Suc 7))" by simp
  have run: "readline 3 10 rl_start (start [?r]) = (Inr (2, [97, 10], ?s 1 2), ?w)"
    unfolding readline_def ten using m by (simp only: diff_Suc_1 nat.distinct if_False)
  have ten_pos: "(0 :: nat) < 10" by simp
  have tr: "trace ?w = trace (start [?r]) @ ?tr"
    by (simp only: took_simps)
  have good: "\<forall>ev\<in>set ?tr. unfailed ev"
    by (simp add: resp_defs)
  from readline_takes_line [OF rl_inv_start(1) ten_pos run tr good] run show ?thesis
    by blast
qed

lemma my_read_round_nonneg:
  assumes "my_read fd s w = (Inr (rc, c, s'), w')"
  shows "rc = 0 \<or> rc = 1"
proof (cases "read_cnt s = 0")
  case True
  with assms show ?thesis
    by (auto simp: my_read_empty my_read_take_def split: list.splits if_splits)
next
  case False
  with assms show ?thesis
    by (auto simp: my_read_buffered my_read_take_def split: if_splits)
qed

lemma readline_from_nonneg:
  "readline_from fd k line s w = (Inr (n, line', s'), w') \<Longrightarrow> 0 \<le> n"
  by (induction k arbitrary: line s w)
    (auto simp: andThen_apply dest!: my_read_round_nonneg split: prod.splits sum.splits if_splits)

text \<open>A failed \<open>read\<close> is never reported: because \<open>read_cnt\<close> is a \<open>size_t\<close>, \<open>my_read\<close> takes the
  failure for a read of \<open>2^64 - 1\<close> bytes and hands out whatever byte is first in its buffer,
  with \<open>EINTR\<close> as with every other error.\<close>

theorem my_read_hides_failure:
  assumes "read_cnt s = 0" and "length (read_buf s) = MAXLINE" and "resps w = r # rs" and "r_val r < 0"
  shows "my_read fd s w =
    (Inr (1, read_buf s ! 0, s\<lparr>read_cnt := 2 ^ 64 - 2, read_ptr := 1\<rparr>), took (C_read fd MAXLINE) r w)"
proof -
  have "got_len MAXLINE r = -1" and "got MAXLINE r = []"
    using assms(4) by (simp_all add: got_len_def got_def)
  moreover have "(- 1 - 1 :: u64) = 2 ^ 64 - 2" by simp
  ultimately show ?thesis
    using assms by (simp add: my_read_empty my_read_take_def refill_def MAXLINE_def)
qed

theorem my_read_hides_failure_witness:
  "my_read 3 rl_start (start [fails ECONNRESET]) =
    (Inr (1, read_buf rl_start ! 0, rl_start\<lparr>read_cnt := 2 ^ 64 - 2, read_ptr := 1\<rparr>),
     took (C_read 3 MAXLINE) (fails ECONNRESET) (start [fails ECONNRESET]))"
  by (rule my_read_hides_failure [where rs = "[]"]) (simp_all add: rl_start_def resp_defs)

text \<open>So the test in \<open>Readline\<close> is dead code: it behaves as \<open>readline\<close> in every world.\<close>

theorem Readline_never_reports:
  "Readline fd maxlen s = readline fd maxlen s"
proof
  fix w
  obtain res w' where run: "readline fd maxlen s w = (res, w')" by fastforce
  show "Readline fd maxlen s w = readline fd maxlen s w"
  proof (cases res)
    case (Inl e)
    with run show ?thesis by (simp add: Readline_def andThen_apply)
  next
    case (Inr a)
    obtain n line s' where a: "a = (n, line, s')" by (cases a)
    with run Inr have "0 \<le> n"
      by (auto simp: readline_def split: if_splits dest: readline_from_nonneg)
    with run Inr a show ?thesis by (simp add: Readline_def andThen_apply)
  qed
qed

text \<open>The same, as effects on what a world has received and sent; the programs built on
  these functions are reasoned about through these three facts.\<close>

lemma sent_writes_other:
  "\<forall>ev\<in>set tr. writes_of fd ev \<Longrightarrow> fd' \<noteq> fd \<Longrightarrow> sent fd' tr = []"
  by (induction tr) (auto simp: writes_of_def)

lemma received_reads_other:
  "\<forall>ev\<in>set tr. reads_of fd ev \<Longrightarrow> fd' \<noteq> fd \<Longrightarrow> received fd' tr = []"
  by (induction tr) (auto simp: reads_of_def)

lemma Writen_effect:
  assumes "Writen fd bs w = (res, w')" and small: "int (length bs) < SIZE_MAX"
  obtains n where "\<And>fd'. received fd' (trace w') = received fd' (trace w)"
    and "\<And>fd'. sent fd' (trace w') = sent fd' (trace w) @ (if fd' = fd then take n bs else [])"
    and "isl res \<or> length bs \<le> n"
proof -
  obtain r v where r: "writen fd bs w = (r, v)" by fastforce
  from writen_correct [OF r] obtain tr n where
    tr: "trace v = trace w @ tr" "\<forall>ev\<in>set tr. writes_of fd ev" "sent fd tr = take n bs"
    and k: "isl r \<or> r = Inr (int (length bs)) \<and> length bs \<le> n \<or> r = Inr SIZE_MAX"
  proof (cases r)
    case (Inl e)
    with writen_correct [OF r] that show ?thesis by auto
  next
    case (Inr k)
    with writen_correct [OF r] have "writen_post fd bs w k v" by simp
    then obtain tr where tr: "trace v = trace w @ tr" "\<forall>ev\<in>set tr. writes_of fd ev"
      and "k = int (length bs) \<and> sent fd tr = bs \<or>
        k = SIZE_MAX \<and> (\<exists>n < length bs. sent fd tr = take n bs)"
      unfolding writen_post_def by blast
    then consider "k = int (length bs)" "sent fd tr = take (length bs) bs"
      | n where "k = SIZE_MAX" "sent fd tr = take n bs" by auto
    then show ?thesis
    proof cases
      case 1
      with that [OF tr, of "length bs"] Inr show ?thesis by simp
    next
      case (2 n)
      with that [OF tr, of n] Inr show ?thesis by simp
    qed
  qed
  from assms(1) r small k have "trace w' = trace v \<or> (\<exists>ev. trace w' = trace v @ [ev] \<and>
      (\<forall>fd'. ev_sent fd' ev = [] \<and> ev_received fd' ev = []))" and "isl res \<or> length bs \<le> n"
    by (auto simp: Writen_def andThen_apply err_doit_apply split: sum.splits if_splits)
  with tr have "received fd' (trace w') = received fd' (trace w)"
    and "sent fd' (trace w') = sent fd' (trace w) @ (if fd' = fd then take n bs else [])" for fd'
    by (auto simp: sent_writes_other)
  with \<open>isl res \<or> length bs \<le> n\<close> that show ?thesis by blast
qed

lemma Writen_wp:
  assumes "int (length bs) < SIZE_MAX"
    and "\<And>v. (\<And>f. received f (trace v) = received f (trace w)) \<Longrightarrow>
      (\<And>f. sent f (trace v) = sent f (trace w) @ (if f = fd then bs else [])) \<Longrightarrow> extends w v \<Longrightarrow> Q () v"
    and "\<And>e v n. (\<And>f. received f (trace v) = received f (trace w)) \<Longrightarrow>
      (\<And>f. sent f (trace v) = sent f (trace w) @ (if f = fd then take n bs else [])) \<Longrightarrow> extends w v \<Longrightarrow> E e v"
  shows "wp (Writen fd bs) Q E w"
proof (rule wpI)
  fix x v
  assume run: "Writen fd bs w = (Inr x, v)"
  obtain n where "\<And>f. received f (trace v) = received f (trace w)"
    and "\<And>f. sent f (trace v) = sent f (trace w) @ (if f = fd then take n bs else [])" and "length bs \<le> n"
    using Writen_effect [OF run assms(1)] by auto
  with lawfulD [OF lawful_writen(2) run] have "Q () v"
    by (intro assms(2)) simp_all
  then show "Q x v" by simp
next
  fix e v
  assume run: "Writen fd bs w = (Inl e, v)"
  show "E e v"
    by (rule Writen_effect [OF run assms(1)]) (rule assms(3) [OF _ _ lawfulD [OF lawful_writen(2) run]])
qed

lemma log_moves_nothing [simp]: "is_log ev \<Longrightarrow> ev_received fd ev = []" "is_log ev \<Longrightarrow> ev_sent fd ev = []"
  by (cases ev; simp)+

lemma got_small [simp]: "int (length (got MAXLINE r)) < SIZE_MAX"
  using length_got_le [of MAXLINE r] by (simp add: SIZE_MAX_def MAXLINE_def del: length_got_le)

lemma Writen_stops:
  assumes "Writen fd bs w = (Inl e, w')"
  shows "e = Blocked \<or> e = Exit 1 ''writen error''"
proof -
  obtain r v where r: "writen fd bs w = (r, v)" by fastforce
  with writen_correct [OF r] assms show ?thesis
    by (cases r) (auto simp: Writen_def andThen_apply split: if_splits)
qed

lemma MAXLINE_small [simp]: "length bs \<le> MAXLINE \<Longrightarrow> int (length bs) < SIZE_MAX"
  by (simp add: MAXLINE_def SIZE_MAX_def)

text \<open>The verification condition of \<open>Writen\<close>.\<close>

lemma wp_Writen [wp_intros]:
  assumes small: "int (length bs) < SIZE_MAX"
    and returns: "\<And>v tr. trace v = trace w @ tr \<Longrightarrow> \<forall>ev\<in>set tr. writes_of fd ev \<Longrightarrow> sent fd tr = bs \<Longrightarrow> Q () v"
    and stops: "\<And>e v tr n. trace v = trace w @ tr \<Longrightarrow> \<forall>ev\<in>set tr. writes_of fd ev \<or> is_log ev \<Longrightarrow>
      sent fd tr = take n bs \<Longrightarrow> e = Blocked \<or> e = Exit 1 ''writen error'' \<Longrightarrow> E e v"
  shows "wp (Writen fd bs) Q E w"
proof (rule wpI)
  fix u v
  assume run: "Writen fd bs w = (Inr u, v)"
  from Writen_correct [OF run small] returns show "Q u v" by auto
next
  fix e v
  assume run: "Writen fd bs w = (Inl e, v)"
  obtain r x where r: "writen fd bs w = (r, x)" by fastforce
  show "E e v"
  proof (cases r)
    case (Inl d)
    with run r have "v = x" "e = d" by (auto simp: Writen_def andThen_apply)
    with Inl writen_correct [OF r] show ?thesis
      by (auto intro: stops)
  next
    case (Inr k)
    with writen_correct [OF r] have "writen_post fd bs w k x" by simp
    with Inr run r small obtain tr n ev where tr: "trace x = trace w @ tr" "\<forall>ev\<in>set tr. writes_of fd ev"
      and "sent fd tr = take n bs" "e = Exit 1 ''writen error''" "trace v = trace x @ [ev]" "is_log ev"
      unfolding writen_post_def by (auto simp: Writen_def andThen_apply err_doit_apply split: if_splits)
    then show ?thesis
      by (intro stops [of v "tr @ [ev]" n]) auto
  qed
qed

end
