(* ===== verification/Echo.thy ===== *)
theory Echo
  imports Stream_IO
begin

text \<open>
  The echo service: \<open>str_echo.cpp\<close> (the server's side of a connection), \<open>str_cli.cpp\<close> (three
  clients: stop-and-wait, \<open>select\<close>, and \<open>select\<close> with a half-close), and \<open>signal.cpp\<close>. The lemmas say that an echo server sends back what it received and nothing
  else, and that a client relays between its input and the socket. Standard input is read
  through \<open>C_fgets\<close>, or through \<open>read\<close> on its descriptor.
\<close>

section \<open>signal.cpp\<close>

definition SIGALRM :: int where "SIGALRM = 14"
definition SIGCHLD :: int where "SIGCHLD = 17"
definition SA_RESTART :: int where "SA_RESTART = 0x10000000"
definition SA_INTERRUPT :: int where "SA_INTERRUPT = 0x20000000"

text \<open>Handlers are numbered; \<open>None\<close> is \<open>SIG_ERR\<close>.\<close>

definition signal :: "int \<Rightarrow> int \<Rightarrow> (world, int option) prog" where
  "signal signo func =
     (let sa_flags = (if signo = SIGALRM then SA_INTERRUPT else SA_RESTART)
      in andThen (sys (C_lib ''sigaction'' [signo, func, sa_flags] []))
        (\<lambda>r. ret (if r_val r < 0 then None else Some (aux r 0))))"

definition Signal :: "int \<Rightarrow> int \<Rightarrow> (world, int) prog" where
  "Signal signo func = andThen (signal signo func) (\<lambda>sigfunc.
     case sigfunc of None \<Rightarrow> err_sys ''signal error'' | Some f \<Rightarrow> ret f)"

lemma lawful_Signal [lawful_intros]: "lawful (Signal signo func)"
  unfolding Signal_def signal_def Let_def by (intro lawful_intros)

interpretation signal_w: checked_call "Signal signo func"
    "C_lib ''sigaction'' [signo, func, if signo = SIGALRM then SA_INTERRUPT else SA_RESTART] []"
    negative "\<lambda>r. aux r 0" "''signal error''" for signo func
  by unfold_locales
    (auto simp: Signal_def signal_def Let_def andThen_apply err_doit_apply extends_def)

declare signal_w.wp_call [wp_intros]

section \<open>What the wrappers receive and send\<close>

text \<open>\<open>quiet fd w w'\<close>: between the two worlds no byte was received from or sent to \<open>fd\<close>.\<close>

definition quiet :: "int \<Rightarrow> world \<Rightarrow> world \<Rightarrow> bool" where
  "quiet fd w w' \<longleftrightarrow>
     received fd (trace w') = received fd (trace w) \<and> sent fd (trace w') = sent fd (trace w)"

named_theorems io_effects \<open>what a call receives and sends\<close>

lemma Read_effect:
  assumes "Read fd n w = (res, w')"
  shows "received fd' (trace w') =
      received fd' (trace w) @ (if fd' = fd then case res of Inl _ \<Rightarrow> [] | Inr bs \<Rightarrow> bs else [])"
    and "sent fd' (trace w') = sent fd' (trace w)"
    and "\<And>bs. res = Inr bs \<Longrightarrow> length bs \<le> n"
  using assms
  by (auto simp: Read_def andThen_apply sys_apply err_doit_apply got_neg got_len_def
      split: list.splits if_splits)

lemma Write_effect:
  assumes "Write fd bs w = (Inr u, w')"
  shows "received fd' (trace w') = received fd' (trace w)"
    and "sent fd' (trace w') = sent fd' (trace w) @ (if fd' = fd then bs else [])"
  using assms
  by (auto simp: Write_def andThen_apply sys_apply split: list.splits if_splits)

section \<open>str_echo.cpp\<close>

text \<open>The \<open>again\<close> label and the \<open>while\<close> loop are one loop.\<close>

definition str_echo_round :: "int \<Rightarrow> unit \<Rightarrow> (world, unit + unit) prog" where
  "str_echo_round sockfd _ = andThen (sys_read sockfd MAXLINE) (\<lambda>(n, buf).
     if n > 0 then seq (Writen sockfd buf) (again ())
     else andThen get_errno (\<lambda>errno.
       if n < 0 \<and> errno = EINTR then again ()
       else if n < 0 then err_sys ''str_echo: read error''
       else leave ()))"

definition str_echo :: "int \<Rightarrow> (world, unit) prog" where
  "str_echo sockfd = loop (str_echo_round sockfd) ()"

lemma lawful_str_echo_round [lawful_intros]: "lawful (str_echo_round sockfd x)"
  unfolding str_echo_round_def by (intro lawful_intros)

interpretation str_echo_loop: consuming "str_echo_round sockfd" for sockfd
  by unfold_locales (auto simp: str_echo_round_def intro!: eats_intros eats_first lawful_intros)

lemma lawful_str_echo [lawful_intros]: "lawful (str_echo sockfd)"
  unfolding str_echo_def by (intro str_echo_loop.loop_lawful lawful_intros)

lemma str_echo_round_apply:
  "str_echo_round fd x w = (case resps w of
      [] \<Rightarrow> (Inl Blocked, w)
    | r # _ \<Rightarrow>
       let v = took (C_read fd MAXLINE) r w
       in if r_val r < 0 then
            (if r_errno r = EINTR then (Inr (Inl ()), v) else err_sys ''str_echo: read error'' v)
          else if got MAXLINE r = [] then (Inr (Inr ()), v)
          else seq (Writen fd (got MAXLINE r)) (again ()) v)"
  by (auto simp: str_echo_round_def sys_read_def andThen_apply sys_apply got_len_def Let_def
      split: list.splits)

text \<open>What has been sent is a beginning of what has been received.\<close>

definition echoing :: "int \<Rightarrow> world \<Rightarrow> bool" where
  "echoing fd v \<longleftrightarrow> (\<exists>rest. received fd (trace v) = sent fd (trace v) @ rest)"

lemma echoing_all: "sent fd (trace v) = received fd (trace v) \<Longrightarrow> echoing fd v"
  by (simp add: echoing_def)

lemma echoing_part:
  "received fd (trace v) = xs @ bs \<Longrightarrow> sent fd (trace v) = xs @ take n bs \<Longrightarrow> echoing fd v"
  unfolding echoing_def by (intro exI [of _ "drop n bs"]) simp

lemma str_echo_round_wp:
  assumes "sent fd (trace v) = received fd (trace v)"
  shows "wp (str_echo_round fd x)
    (\<lambda>z v. sent fd (trace v) = received fd (trace v) \<and> (\<forall>u. z = Inr u \<longrightarrow> read_eof fd (last (trace v))))
    (\<lambda>_. echoing fd) v"
  unfolding str_echo_round_def sys_read_def using assms
  by (auto intro!: wp_intros Writen_wp intro: echoing_all echoing_part simp: got_len_zero)

lemma str_echo_run:
  assumes run: "str_echo fd w = (res, w')" and init: "sent fd (trace w) = received fd (trace w)"
  shows "(\<exists>rest. received fd (trace w') = sent fd (trace w') @ rest) \<and>
    (res = Inr () \<longrightarrow> sent fd (trace w') = received fd (trace w') \<and> read_eof fd (last (trace w')))"
proof -
  have "wp (str_echo fd) (\<lambda>_ v. sent fd (trace v) = received fd (trace v) \<and> read_eof fd (last (trace v)))
      (\<lambda>_. echoing fd) w"
    unfolding str_echo_def
    by (rule str_echo_loop.loop_wp [where I = "\<lambda>_ v. sent fd (trace v) = received fd (trace v)", OF init])
      (rule wp_mono [OF str_echo_round_wp], auto split: sum.split)
  with run show ?thesis
    by (auto simp: wp_def echoing_def split: sum.splits)
qed

text \<open>(C5) \<open>str_echo\<close> sends back what it receives: in every outcome what was sent is a beginning of
  what was received, in order; when it returns, which it does only after the end of the file,
  it is all of it.\<close>

theorem str_echo_correct:
  assumes "str_echo fd w = (res, w')" and "sent fd (trace w) = received fd (trace w)"
  shows "(\<exists>rest. received fd (trace w') = sent fd (trace w') @ rest) \<and>
    (res = Inr () \<longrightarrow> sent fd (trace w') = received fd (trace w') \<and> read_eof fd (last (trace w')))"
  using str_echo_run [OF assms] .

theorem str_echo_correct_witness:
  "\<exists>w'. str_echo 4 (start [gives [104, 105], ok 2, fails EINTR, gives []]) = (Inr (), w') \<and>
     sent 4 (trace w') = received 4 (trace w') \<and> received 4 (trace w') = [104, 105]"
proof -
  let ?w = "start [gives [104, 105], ok 2, fails EINTR, gives []]"
  obtain w' where run: "str_echo 4 ?w = (Inr (), w')" and got: "received 4 (trace w') = [104, 105]"
    by (simp add: str_echo_def loop_def eval_nat_numeral str_echo_round_apply Writen_def writen_def
        writen_round_apply writen_next_def andThen_apply Let_def got_def put_len_def resp_defs
        received_def MAXLINE_def)
  have "sent 4 (trace ?w) = received 4 (trace ?w)" by simp
  from str_echo_correct [OF run this] run got show ?thesis by blast
qed

section \<open>str_cli.cpp\<close>

text \<open>Stop and wait: one line to the server, one line back. The static buffer of \<open>readline\<close> is
  the loop's variable.\<close>

definition str_cli_round :: "int \<Rightarrow> rl \<Rightarrow> (world, rl + rl) prog" where
  "str_cli_round sockfd s = andThen (Fgets MAXLINE) (\<lambda>sendline.
     case sendline of
       None \<Rightarrow> leave s
     | Some sendline \<Rightarrow>
         seq (Writen sockfd (cstr sendline))
        (andThen (Readline sockfd MAXLINE s) (\<lambda>(n, recvline, s).
           if n = 0 then err_quit ''str_cli: server terminated prematurely''
           else seq (Fputs recvline) (again s))))"

definition str_cli :: "int \<Rightarrow> rl \<Rightarrow> (world, rl) prog" where
  "str_cli sockfd s = loop (str_cli_round sockfd) s"

text \<open>With \<open>select\<close> on the socket and on the input's descriptor \<open>fp\<close>.\<close>

definition str_cli_select_round :: "int \<Rightarrow> int \<Rightarrow> int set \<times> rl \<Rightarrow> (world, int set \<times> rl + rl) prog" where
  "str_cli_select_round fp sockfd = (\<lambda>(rset, s).
     andThen (Select (insert sockfd (insert fp rset)) {} {} None) (\<lambda>(_, rset, _).
     andThen
       (if sockfd \<in> rset then
          andThen (Readline sockfd MAXLINE s) (\<lambda>(n, recvline, s).
            if n = 0 then err_quit ''str_cli_select: server terminated prematurely''
            else seq (Fputs recvline) (ret s))
        else ret s) (\<lambda>s.
     if fp \<in> rset then
       andThen (Fgets MAXLINE) (\<lambda>sendline.
         case sendline of
           None \<Rightarrow> leave s
         | Some sendline \<Rightarrow> seq (Writen sockfd (cstr sendline)) (again (rset, s)))
     else again (rset, s))))"

definition str_cli_select :: "int \<Rightarrow> int \<Rightarrow> rl \<Rightarrow> (world, rl) prog" where
  "str_cli_select fp sockfd s = loop (str_cli_select_round fp sockfd) ({}, s)"

text \<open>With a half-close at the end of the input: \<open>stdineof\<close> and \<open>rset\<close> are the variables
  the loop keeps.\<close>

definition SHUT_WR :: int where "SHUT_WR = 1"
definition STDOUT :: int where "STDOUT = 1"

definition relay_socket :: "int \<Rightarrow> bool \<Rightarrow> int set \<Rightarrow> (world, bool) prog" where
  "relay_socket sockfd stdineof rset =
     (if sockfd \<in> rset then
        andThen (Read sockfd MAXLINE) (\<lambda>buf.
          if buf = [] then
            (if stdineof then ret True else err_quit ''str_cli: server terminated prematurely'')
          else seq (Write STDOUT buf) (ret False))
      else ret False)"

definition str_cli_select_shutdown_round ::
  "int \<Rightarrow> int \<Rightarrow> bool \<times> int set \<Rightarrow> (world, bool \<times> int set + unit) prog" where
  "str_cli_select_shutdown_round fp sockfd = (\<lambda>(stdineof, rset).
     let rset = (if stdineof then rset else insert fp rset)
     in andThen (Select (insert sockfd rset) {} {} None) (\<lambda>(_, rset, _).
        andThen (relay_socket sockfd stdineof rset) (\<lambda>done.
          if done then leave ()
          else if fp \<in> rset then
            andThen (Read fp MAXLINE) (\<lambda>buf.
              if buf = [] then seq (Shutdown sockfd SHUT_WR) (again (True, rset - {fp}))
              else seq (Writen sockfd buf) (again (stdineof, rset)))
          else again (stdineof, rset))))"

definition str_cli_select_shutdown :: "int \<Rightarrow> int \<Rightarrow> (world, unit) prog" where
  "str_cli_select_shutdown fp sockfd =
     loop (str_cli_select_shutdown_round fp sockfd) (False, {})"

lemma lawful_str_cli_rounds [lawful_intros]:
  "lawful (str_cli_round sockfd s)" "lawful (str_cli_select_round fp sockfd x)"
  "lawful (relay_socket sockfd b rset)" "lawful (str_cli_select_shutdown_round fp sockfd y)"
proof -
  show "lawful (str_cli_round sockfd s)"
    unfolding str_cli_round_def by (auto intro!: lawful_intros)
  show "lawful (str_cli_select_round fp sockfd x)"
    unfolding str_cli_select_round_def by (cases x) (auto intro!: lawful_intros)
  show relay: "lawful (relay_socket sockfd b rset)" for b rset
    unfolding relay_socket_def by (auto intro!: lawful_intros)
  show "lawful (str_cli_select_shutdown_round fp sockfd y)"
    unfolding str_cli_select_shutdown_round_def Let_def
    by (cases y) (auto intro!: lawful_intros relay)
qed

interpretation str_cli_loop: consuming "str_cli_round sockfd" for sockfd
  by unfold_locales (auto simp: str_cli_round_def intro!: eats_intros eats_first lawful_intros)

interpretation str_cli_select_loop: consuming "str_cli_select_round fp sockfd" for fp sockfd
proof
  show "eats repeats (str_cli_select_round fp sockfd x)" for x
    unfolding str_cli_select_round_def
    by (cases x) (auto intro!: eats_intros eats_first lawful_intros)
qed

interpretation str_cli_shutdown_loop: consuming "str_cli_select_shutdown_round fp sockfd" for fp sockfd
proof
  show "eats repeats (str_cli_select_shutdown_round fp sockfd x)" for x
    unfolding str_cli_select_shutdown_round_def Let_def
    by (cases x) (auto intro!: eats_intros eats_first lawful_intros)
qed

lemma lawful_str_cli [lawful_intros]:
  "lawful (str_cli sockfd s)" "lawful (str_cli_select fp sockfd s)"
  "lawful (str_cli_select_shutdown fp sockfd)"
  unfolding str_cli_def str_cli_select_def str_cli_select_shutdown_def
  by (intro str_cli_loop.loop_lawful str_cli_select_loop.loop_lawful
      str_cli_shutdown_loop.loop_lawful lawful_intros)+

text \<open>What \<open>Select\<close> and \<open>Shutdown\<close> do to the trace.\<close>

lemma Select_effect:
  assumes "Select rd wr ex tmo w = (Inr (n, rd', wr'), w')"
  shows "received fd (trace w') = received fd (trace w)" "sent fd (trace w') = sent fd (trace w)"
    "rd' \<subseteq> rd" "wr' \<subseteq> wr"
  using assms
  by (auto simp: Select_def andThen_apply sys_apply split: list.splits if_splits)

lemma Shutdown_effect:
  assumes "Shutdown sockfd how w = (Inr u, w')"
  shows "received fd (trace w') = received fd (trace w)" "sent fd (trace w') = sent fd (trace w)"
  using assms
  by (auto simp: Shutdown_def andThen_apply sys_apply split: list.splits if_splits)

text \<open>The relay of \<open>str_cli_select_shutdown\<close>: what came in on one side has gone out on the
  other, and the input is not selected for again after its end.\<close>

definition relayed :: "int \<Rightarrow> int \<Rightarrow> world \<Rightarrow> bool" where
  "relayed fp sockfd w \<longleftrightarrow> sent sockfd (trace w) = received fp (trace w) \<and>
     sent STDOUT (trace w) = received sockfd (trace w)"

definition saw_eof :: "int \<Rightarrow> world \<Rightarrow> bool" where
  "saw_eof fd w \<longleftrightarrow> (\<exists>ev\<in>set (trace w). read_eof fd ev)"

lemma saw_eof_extends: "saw_eof fd w \<Longrightarrow> extends w w' \<Longrightarrow> saw_eof fd w'"
  by (auto simp: saw_eof_def extends_def)

lemma got_nothing: "got n r = [] \<Longrightarrow> got_len n r = -1 \<or> got_len n r = 0"
  by (simp add: got_len_def)

text \<open>The invariant of the loop: \<open>fp\<close> is not selected for after its end.\<close>

definition relaying :: "int \<Rightarrow> int \<Rightarrow> bool \<times> int set \<Rightarrow> world \<Rightarrow> bool" where
  "relaying fp sockfd = (\<lambda>(eof, rset) v. relayed fp sockfd v \<and> (eof \<longrightarrow> saw_eof fp v \<and> fp \<notin> rset))"

lemma relay_socket_wp:
  assumes "relayed fp sockfd v" and "fp \<noteq> sockfd" and "sockfd \<noteq> STDOUT" and "fp \<noteq> STDOUT"
    and "\<And>u. relayed fp sockfd u \<Longrightarrow> (saw_eof fp v \<Longrightarrow> saw_eof fp u) \<Longrightarrow> Q False u"
    and "\<And>u. eof \<Longrightarrow> relayed fp sockfd u \<Longrightarrow> (saw_eof fp v \<Longrightarrow> saw_eof fp u) \<Longrightarrow> saw_eof sockfd u \<Longrightarrow> Q True u"
    and "\<And>e u. E e u"
  shows "wp (relay_socket sockfd eof rset) Q E v"
  unfolding relay_socket_def using assms(1-4)
  by (auto intro!: wp_intros assms(5-7) dest!: got_nothing
      simp: relayed_def saw_eof_def got_len_zero)

lemma str_cli_shutdown_round_wp:
  assumes "relaying fp sockfd x v" and fds: "fp \<noteq> sockfd" "sockfd \<noteq> STDOUT" "fp \<noteq> STDOUT"
  shows "wp (str_cli_select_shutdown_round fp sockfd x)
    (\<lambda>z v. case z of Inl y \<Rightarrow> relaying fp sockfd y v
       | Inr _ \<Rightarrow> relayed fp sockfd v \<and> saw_eof fp v \<and> saw_eof sockfd v) (\<lambda>_ _. True) v"
  unfolding str_cli_select_shutdown_round_def Let_def using assms
  by (auto intro!: wp_intros relay_socket_wp Writen_wp dest!: got_nothing
      simp: relaying_def relayed_def saw_eof_def got_len_zero)

lemma str_cli_shutdown_run:
  assumes run: "str_cli_select_shutdown fp sockfd w = (Inr u, w')" and init: "relayed fp sockfd w"
    and fds: "fp \<noteq> sockfd" "sockfd \<noteq> STDOUT" "fp \<noteq> STDOUT"
  shows "relayed fp sockfd w' \<and> saw_eof fp w' \<and> saw_eof sockfd w'"
proof -
  have "wp (str_cli_select_shutdown fp sockfd)
      (\<lambda>_ v. relayed fp sockfd v \<and> saw_eof fp v \<and> saw_eof sockfd v) (\<lambda>_ _. True) w"
    unfolding str_cli_select_shutdown_def
    by (rule str_cli_shutdown_loop.loop_wp [where I = "relaying fp sockfd"])
      (use init fds in \<open>auto simp: relaying_def intro!: str_cli_shutdown_round_wp\<close>)
  from wp_returns [OF this run] show ?thesis .
qed

text \<open>(C4) \<open>str_cli_select_shutdown\<close> returns only when both the input and the server have
  reached their end, and by then every byte of the input has been sent to the server and every
  byte of the server has been written to the standard output, in order: nothing is lost when
  the two interleave or when the input ends while replies are still on their way.\<close>

theorem str_cli_shutdown_correct:
  assumes run: "str_cli_select_shutdown fp sockfd w = (Inr u, w')" and init: "relayed fp sockfd w"
    and fds: "fp \<noteq> sockfd" "sockfd \<noteq> STDOUT" "fp \<noteq> STDOUT"
  shows "relayed fp sockfd w' \<and> saw_eof fp w' \<and> saw_eof sockfd w'"
  using str_cli_shutdown_run [OF assms] .

theorem str_cli_shutdown_correct_witness:
  "\<exists>w'. str_cli_select_shutdown 0 3 (start
       [no_resp\<lparr>r_rd := {0}\<rparr>, gives [104, 10], ok 2, no_resp\<lparr>r_rd := {0}\<rparr>, gives [], ok 0,
        no_resp\<lparr>r_rd := {3}\<rparr>, gives [104, 10], ok 2, no_resp\<lparr>r_rd := {3}\<rparr>, gives []]) = (Inr (), w') \<and>
     relayed 0 3 w' \<and> saw_eof 0 w' \<and> saw_eof 3 w'"
proof -
  let ?w = "start
       [no_resp\<lparr>r_rd := {0}\<rparr>, gives [104, 10], ok 2, no_resp\<lparr>r_rd := {0}\<rparr>, gives [], ok 0,
        no_resp\<lparr>r_rd := {3}\<rparr>, gives [104, 10], ok 2, no_resp\<lparr>r_rd := {3}\<rparr>, gives []]"
  obtain w' where run: "str_cli_select_shutdown 0 3 ?w = (Inr (), w')"
    by (simp add: str_cli_select_shutdown_def loop_def str_cli_select_shutdown_round_def
        relay_socket_def Select_def Read_def Write_def Shutdown_def Writen_def writen_def
        writen_round_apply writen_next_def andThen_apply sys_apply Let_def got_def got_len_def
        put_len_def ready_count_def resp_defs MAXLINE_def STDOUT_def eval_nat_numeral)
  have "relayed 0 3 ?w" by (simp add: relayed_def)
  from str_cli_shutdown_correct [OF run this] run show ?thesis
    by (simp add: STDOUT_def)
qed

end
