(* ===== verification/Sockaddr.thy ===== *)
theory Sockaddr
  imports Wrappers
begin

text \<open>
  The protocol-independent address helpers: \<open>sock_set_port.cpp\<close>, \<open>sock_get_port.cpp\<close>,
  \<open>sock_set_addr.cpp\<close>, \<open>sock_set_wild.cpp\<close>, \<open>sock_cmp_addr.cpp\<close>, \<open>sock_ntop.cpp\<close>,
  \<open>sock_ntop_host.cpp\<close>, \<open>sock_bind_wild.cpp\<close>, \<open>family_to_level.cpp\<close> and
  \<open>sockfd_to_family.cpp\<close>. Each switches on the family; \<open>ipv6\<close> is the macro \<open>IPV6\<close>, which
  adds a case to each switch and which no build file of the repository defines. (The case
  for \<open>AF_LINK\<close>, under \<open>HAVE_SOCKADDR_DL_STRUCT\<close>, is compiled on BSD only.) The locale
  \<open>field\<close> is the contract of the setters and getters: what is set is read back, and setting
  one field leaves the other alone.
\<close>

section \<open>Ports and addresses\<close>

text \<open>The address stored in a \<open>sockaddr_in\<close> is a \<open>u32\<close> in network byte order, so that its
  bytes in memory are \<open>bytes32\<close> of it. \<open>memcpy\<close> of 4 or 16 bytes from a shorter object is
  undefined; \<open>addr\<close> is the memory at the pointer.\<close>

fun sock_set_port :: "bool \<Rightarrow> sockaddr \<Rightarrow> int \<Rightarrow> sockaddr" where
  "sock_set_port ipv6 (Sin p a) port = Sin (word_of_int port) a"
| "sock_set_port ipv6 (Sin6 p a) port = (if ipv6 then Sin6 (word_of_int port) a else Sin6 p a)"
| "sock_set_port ipv6 sa port = sa"

fun sock_get_port :: "bool \<Rightarrow> sockaddr \<Rightarrow> int" where
  "sock_get_port ipv6 (Sin p a) = uint p"
| "sock_get_port ipv6 (Sin6 p a) = (if ipv6 then uint p else -1)"
| "sock_get_port ipv6 sa = -1"

fun addr4 :: "byte list \<Rightarrow> u32" where
  "addr4 (a # b # c # d # _) = le32 a b c d"
| "addr4 _ = 0"

fun sock_set_addr :: "bool \<Rightarrow> sockaddr \<Rightarrow> byte list \<Rightarrow> sockaddr" where
  "sock_set_addr ipv6 (Sin p a) addr = Sin p (addr4 addr)"
| "sock_set_addr ipv6 (Sin6 p a) addr = (if ipv6 then Sin6 p (take 16 addr) else Sin6 p a)"
| "sock_set_addr ipv6 sa addr = sa"

definition INADDR_ANY :: u32 where "INADDR_ANY = 0"

fun sock_set_wild :: "bool \<Rightarrow> sockaddr \<Rightarrow> sockaddr" where
  "sock_set_wild ipv6 (Sin p a) = sock_set_addr ipv6 (Sin p a) (bytes32 (htonl INADDR_ANY))"
| "sock_set_wild ipv6 (Sin6 p a) =
     (if ipv6 then sock_set_addr ipv6 (Sin6 p a) (replicate 16 0) else Sin6 p a)"
| "sock_set_wild ipv6 sa = sa"

text \<open>\<open>memcmp\<close> and \<open>strcmp\<close>: the difference of the first bytes that differ; the end of a string
  counts as a null byte.\<close>

fun memcmp :: "byte list \<Rightarrow> byte list \<Rightarrow> int" where
  "memcmp (x # xs) (y # ys) = (if x = y then memcmp xs ys else uint x - uint y)"
| "memcmp _ _ = 0"

definition strcmp :: "byte list \<Rightarrow> byte list \<Rightarrow> int" where
  "strcmp s t = memcmp (cstr s @ [NUL]) (cstr t @ [NUL])"

fun sock_cmp_addr :: "bool \<Rightarrow> sockaddr \<Rightarrow> sockaddr \<Rightarrow> int" where
  "sock_cmp_addr ipv6 (Sin p a) (Sin q b) = memcmp (bytes32 a) (bytes32 b)"
| "sock_cmp_addr ipv6 (Sin6 p a) (Sin6 q b) = (if ipv6 then memcmp a b else -1)"
| "sock_cmp_addr ipv6 (Sun s) (Sun t) = strcmp s t"
| "sock_cmp_addr ipv6 sa1 sa2 = -1"

definition family_to_level :: "bool \<Rightarrow> int \<Rightarrow> int" where
  "family_to_level ipv6 family =
     (if family = AF_INET then 0 else if ipv6 \<and> family = AF_INET6 then 41 else -1)"

definition Family_to_level :: "bool \<Rightarrow> int \<Rightarrow> (world, int) prog" where
  "Family_to_level ipv6 family =
     (let rc = family_to_level ipv6 family
      in if rc < 0 then err_sys ''family_to_level error'' else ret rc)"

section \<open>The contract of setters and getters\<close>

text \<open>A field that every address in \<open>has\<close> carries, with its getter and its setter; \<open>rest\<close> is
  what the setter must leave alone.\<close>

locale field =
  fixes has :: "'s \<Rightarrow> bool" and get :: "'s \<Rightarrow> 'v" and put :: "'s \<Rightarrow> 'v \<Rightarrow> 's" and rest :: "'s \<Rightarrow> 'r"
  assumes put_get: "has s \<Longrightarrow> get (put s v) = v"
    and get_put: "has s \<Longrightarrow> put s (get s) = s"
    and put_put: "has s \<Longrightarrow> put (put s u) v = put s v"
    and put_has: "has s \<Longrightarrow> has (put s v)"
    and put_rest: "has s \<Longrightarrow> rest (put s v) = rest s"
begin

lemma put_inj: "has s \<Longrightarrow> put s u = put s v \<longleftrightarrow> u = v"
  by (metis put_get)

lemma put_noop_iff: "has s \<Longrightarrow> put s v = s \<longleftrightarrow> get s = v"
  by (metis put_get get_put)

lemma put_list: "has s \<Longrightarrow> foldl put s (us @ [v]) = put s v"
proof (induction us arbitrary: s)
  case (Cons u us)
  then show ?case
    using put_put put_has by simp
qed simp

end

definition has_port :: "bool \<Rightarrow> sockaddr \<Rightarrow> bool" where
  "has_port ipv6 sa \<longleftrightarrow> sa_family sa = AF_INET \<and> (\<exists>p a. sa = Sin p a) \<or>
     ipv6 \<and> (\<exists>p a. sa = Sin6 p a)"

fun sa_addr :: "sockaddr \<Rightarrow> byte list" where
  "sa_addr (Sin p a) = bytes32 a"
| "sa_addr (Sin6 p a) = a"
| "sa_addr sa = []"

lemma has_port_cases:
  assumes "has_port ipv6 sa"
  obtains p a where "sa = Sin p a" | p a where "sa = Sin6 p a" "ipv6"
  using assms by (auto simp: has_port_def)

interpretation port_field: field "has_port ipv6" "\<lambda>sa. word_of_int (sock_get_port ipv6 sa) :: u16"
    "\<lambda>sa p. sock_set_port ipv6 sa (uint p)" sa_addr for ipv6
  by unfold_locales (auto simp: has_port_def)

text \<open>The address field, for IPv4: the four bytes.\<close>

lemma addr4_bytes32 [simp]: "addr4 (bytes32 a) = a"
  by (simp add: bytes32_def)

lemma addr4_append [simp]: "addr4 (bytes32 a @ bs) = a"
  by (simp add: bytes32_def)

interpretation addr4_field: field "\<lambda>sa. \<exists>p a. sa = Sin p a" "\<lambda>sa. addr4 (sa_addr sa)"
    "\<lambda>sa a. sock_set_addr ipv6 sa (bytes32 a)" "sock_get_port ipv6" for ipv6
  by unfold_locales auto

lemma uint_byte_eq [simp]: "uint (x :: byte) = uint y \<longleftrightarrow> x = y"
  by (simp add: word_uint_eq_iff)

lemma memcmp_eq_0: "length xs = length ys \<Longrightarrow> memcmp xs ys = 0 \<longleftrightarrow> xs = ys"
  by (induction xs ys rule: memcmp.induct) auto

lemma memcmp_swap: "memcmp ys xs = - memcmp xs ys"
  by (induction xs ys rule: memcmp.induct) auto

lemma bytes32_inject [simp]: "bytes32 a = bytes32 b \<longleftrightarrow> a = b"
  by (metis addr4_bytes32)

lemma strcmp_eq_0: "NUL \<notin> set s \<Longrightarrow> NUL \<notin> set t \<Longrightarrow> strcmp s t = 0 \<longleftrightarrow> s = t"
  unfolding strcmp_def
proof (induction s arbitrary: t)
  case Nil
  then show ?case
    by (cases t) (auto simp: cstr_def uint_0_iff)
next
  case (Cons x s)
  then show ?case
    by (cases t) (auto simp: cstr_def uint_0_iff)
qed

section \<open>Printing an address\<close>

fun dec :: "nat \<Rightarrow> string" where
  "dec n = (if n < 10 then [char_of (48 + n)] else dec (n div 10) @ [char_of (48 + n mod 10)])"

declare dec.simps [simp del]

definition dec_int :: "int \<Rightarrow> string" where
  "dec_int i = (if i < 0 then CHR ''-'' # dec (nat (- i)) else dec (nat i))"

text \<open>\<open>inet_ntop\<close> for IPv4 prints the four bytes in memory order. For IPv6 the text is the
  parameter \<open>ntop6\<close>; by its documentation it has at most 45 characters.\<close>

definition dotted :: "u32 \<Rightarrow> string" where
  "dotted a = (let b = bytes32 a in
     dec (unat (b ! 0)) @ ''.'' @ dec (unat (b ! 1)) @ ''.'' @
     dec (unat (b ! 2)) @ ''.'' @ dec (unat (b ! 3)))"

definition snprintf :: "nat \<Rightarrow> string \<Rightarrow> string" where
  "snprintf sz s = take (sz - 1) s"

definition text_of :: "byte list \<Rightarrow> string" where
  "text_of bs = map (\<lambda>b. char_of (unat b)) bs"

text \<open>\<open>strcat\<close> into the static \<open>str[128]\<close> must leave room for the terminating null.\<close>

definition strcat128 :: "string \<Rightarrow> string \<Rightarrow> stop + string option" where
  "strcat128 s t = (if length (s @ t) < 128 then Inr (Some (s @ t)) else Inl (Undef ''str''))"

fun sock_ntop :: "bool \<Rightarrow> (byte list \<Rightarrow> string) \<Rightarrow> sockaddr \<Rightarrow> nat \<Rightarrow> stop + string option" where
  "sock_ntop ipv6 ntop6 (Sin port a) salen =
     (if ntohs port \<noteq> 0
      then strcat128 (dotted a) (snprintf 8 ('':'' @ dec (unat (ntohs port))))
      else Inr (Some (dotted a)))"
| "sock_ntop ipv6 ntop6 (Sin6 port a) salen =
     (if ipv6 then
        (if ntohs port \<noteq> 0
         then strcat128 (CHR ''['' # ntop6 a) (snprintf 8 ('']:'' @ dec (unat (ntohs port))))
         else Inr (Some (ntop6 a)))
      else Inr (Some (snprintf 128 (''sock_ntop: unknown AF_xxx: '' @ dec_int AF_INET6 @
             '', len '' @ dec salen))))"
| "sock_ntop ipv6 ntop6 (Sun path) salen =
     (if path = [] then Inr (Some ''(no pathname bound)'') else Inr (Some (snprintf 128 (text_of path))))"
| "sock_ntop ipv6 ntop6 (Sother f) salen =
     Inr (Some (snprintf 128 (''sock_ntop: unknown AF_xxx: '' @ dec_int f @ '', len '' @ dec salen)))"

fun sock_ntop_host :: "bool \<Rightarrow> (byte list \<Rightarrow> string) \<Rightarrow> sockaddr \<Rightarrow> nat \<Rightarrow> string option" where
  "sock_ntop_host ipv6 ntop6 (Sin port a) salen = Some (dotted a)"
| "sock_ntop_host ipv6 ntop6 (Sin6 port a) salen =
     (if ipv6 then Some (ntop6 a)
      else Some (snprintf 128 (''sock_ntop_host: unknown AF_xxx: '' @ dec_int AF_INET6 @
             '', len '' @ dec salen)))"
| "sock_ntop_host ipv6 ntop6 (Sun path) salen =
     (if path = [] then Some ''(no pathname bound)'' else Some (snprintf 128 (text_of path)))"
| "sock_ntop_host ipv6 ntop6 (Sother f) salen =
     Some (snprintf 128 (''sock_ntop_host: unknown AF_xxx: '' @ dec_int f @ '', len '' @ dec salen))"

definition Sock_ntop :: "bool \<Rightarrow> (byte list \<Rightarrow> string) \<Rightarrow> sockaddr \<Rightarrow> nat \<Rightarrow> (world, string) prog" where
  "Sock_ntop ipv6 ntop6 sa salen = (case sock_ntop ipv6 ntop6 sa salen of
     Inl e \<Rightarrow> halt e
   | Inr None \<Rightarrow> err_sys ''sock_ntop error''
   | Inr (Some ptr) \<Rightarrow> ret ptr)"

definition Sock_ntop_host :: "bool \<Rightarrow> (byte list \<Rightarrow> string) \<Rightarrow> sockaddr \<Rightarrow> nat \<Rightarrow> (world, string) prog" where
  "Sock_ntop_host ipv6 ntop6 sa salen = (case sock_ntop_host ipv6 ntop6 sa salen of
     None \<Rightarrow> err_sys ''sock_ntop_host error''
   | Some ptr \<Rightarrow> ret ptr)"

lemma length_dec: "0 < k \<Longrightarrow> n < 10 ^ k \<Longrightarrow> length (dec n) \<le> k"
proof (induction k arbitrary: n)
  case (Suc k)
  show ?case
  proof (cases "n < 10")
    case True
    then show ?thesis by (simp add: dec.simps [of n])
  next
    case False
    with Suc.prems have "0 < k" by (cases k) auto
    moreover have "n div 10 < 10 ^ k"
      using Suc.prems by (simp add: less_mult_imp_div_less mult.commute)
    ultimately have "length (dec (n div 10)) \<le> k"
      by (rule Suc.IH)
    then show ?thesis
      using False by (simp add: dec.simps [of n])
  qed
qed simp

lemma length_dec_byte: "length (dec (unat (b :: byte))) \<le> 3"
proof (rule length_dec)
  have "unat b < 2 ^ LENGTH(8)" by (rule unsigned_less)
  then show "unat b < 10 ^ 3" by simp
qed simp

lemma length_dec_port: "length (dec (unat (p :: u16))) \<le> 5"
proof (rule length_dec)
  have "unat p < 2 ^ LENGTH(16)" by (rule unsigned_less)
  then show "unat p < 10 ^ 5" by simp
qed simp

lemma length_dotted: "length (dotted a) \<le> 15"
  using length_dec_byte [of "bytes32 a ! 0"] length_dec_byte [of "bytes32 a ! 1"]
    length_dec_byte [of "bytes32 a ! 2"] length_dec_byte [of "bytes32 a ! 3"]
  by (simp add: dotted_def Let_def)

text \<open>Neither printer ever returns the null pointer, and the text with its terminating null
  fits the static buffer of 128 bytes; in particular the port is never cut off by
  \<open>snprintf\<close>, although the buffer for it has only 8 bytes.\<close>

lemma port_text_fits:
  "snprintf 8 (CHR '':'' # dec (unat (p :: u16))) = CHR '':'' # dec (unat p)"
  "snprintf 8 (CHR '']'' # CHR '':'' # dec (unat p)) = CHR '']'' # CHR '':'' # dec (unat p)"
  using length_dec_port [of p] by (auto simp: snprintf_def)

lemma length_snprintf: "0 < n \<Longrightarrow> length (snprintf n s) < n"
  by (auto simp: snprintf_def)

lemma sock_ntop_fits:
  assumes "\<forall>a. length (ntop6 a) \<le> 45"
  shows "\<exists>s. sock_ntop ipv6 ntop6 sa salen = Inr (Some s) \<and> length s < 128"
proof (cases sa)
  case (Sin p a)
  then show ?thesis
    using length_dotted [of a] length_dec_port [of "ntohs p"]
    by (auto simp: strcat128_def port_text_fits)
next
  case (Sin6 p a)
  then show ?thesis
    using assms length_dec_port [of "ntohs p"]
    by (auto simp: strcat128_def port_text_fits length_snprintf dest: spec [of _ a]
        intro: le_less_trans)
qed (auto simp: length_snprintf)

lemma Sock_ntop_total:
  assumes "\<forall>a. length (ntop6 a) \<le> 45"
  shows "\<exists>s. Sock_ntop ipv6 ntop6 sa salen = ret s"
proof -
  obtain s where "sock_ntop ipv6 ntop6 sa salen = Inr (Some s)" "length s < 128"
    using sock_ntop_fits [OF assms] by blast
  then show ?thesis by (auto simp: Sock_ntop_def)
qed

lemma Sock_ntop_host_total: "\<exists>s. Sock_ntop_host ipv6 ntop6 sa salen = ret s"
  by (cases sa) (auto simp: Sock_ntop_host_def)

lemma wp_Sock_ntop_host [wp_intros]: "(\<And>s. Q s w) \<Longrightarrow> wp (Sock_ntop_host ipv6 ntop6 sa salen) Q E w"
  using Sock_ntop_host_total [of ipv6 ntop6 sa salen] by (auto simp: wp_def)

lemma lawful_Sock_ntop [lawful_intros]:
  "lawful (Sock_ntop ipv6 ntop6 sa salen)" "lawful (Sock_ntop_host ipv6 ntop6 sa salen)"
  unfolding Sock_ntop_def Sock_ntop_host_def
  by (auto intro!: lawful_intros split: sum.split option.split)

section \<open>Questions to the kernel\<close>

text \<open>The port returned is the \<open>sin_port\<close> of the structure, in network byte order.\<close>

definition sock_bind_wild :: "bool \<Rightarrow> int \<Rightarrow> int \<Rightarrow> (world, int) prog" where
  "sock_bind_wild ipv6 sockfd family =
     (let bind_to = (\<lambda>sa. andThen (sys_int (C_bind sockfd sa)) (\<lambda>n.
            if n < 0 then ret (-1)
            else andThen (sys (C_getsockname sockfd)) (\<lambda>r.
              if r_val r < 0 then ret (-1) else ret (sock_get_port ipv6 (r_addr r)))))
      in if family = AF_INET then bind_to (Sin (htons 0) (htonl INADDR_ANY))
         else if ipv6 \<and> family = AF_INET6 then bind_to (Sin6 (htons 0) (replicate 16 0))
         else ret (-1))"

definition Sock_bind_wild :: "bool \<Rightarrow> int \<Rightarrow> int \<Rightarrow> (world, int) prog" where
  "Sock_bind_wild ipv6 sockfd family = andThen (sock_bind_wild ipv6 sockfd family) (\<lambda>port.
     if port < 0 then err_sys ''sock_bind_wild error'' else ret port)"

definition sockfd_to_family :: "int \<Rightarrow> (world, int) prog" where
  "sockfd_to_family sockfd = andThen (sys (C_getsockname sockfd)) (\<lambda>r.
     ret (if r_val r < 0 then -1 else sa_family (r_addr r)))"

definition Sockfd_to_family :: "int \<Rightarrow> (world, int) prog" where
  "Sockfd_to_family sockfd = andThen (sockfd_to_family sockfd) (\<lambda>rc.
     if rc < 0 then err_sys ''sockfd_to_family error'' else ret rc)"

lemma lawful_sockaddr [lawful_intros]:
  "lawful (sock_bind_wild ipv6 sockfd family)" "lawful (Sock_bind_wild ipv6 sockfd family)"
  "lawful (sockfd_to_family sockfd)" "lawful (Sockfd_to_family sockfd)"
  unfolding sock_bind_wild_def Sock_bind_wild_def sockfd_to_family_def Sockfd_to_family_def Let_def
  by (intro lawful_intros)+

text \<open>\<open>Sock_bind_wild\<close> binds to the wildcard address with port 0, and returns the port the
  kernel chose.\<close>

lemma Sock_bind_wild_inet:
  assumes "resps w = r1 # r2 # rs" and "0 \<le> r_val r1" and "0 \<le> r_val r2"
    and "r_addr r2 = Sin p a"
  shows "\<exists>w'. Sock_bind_wild ipv6 fd AF_INET w = (Inr (uint p), w') \<and>
    trace w' = trace w @ [Did (C_bind fd (Sin 0 0)) r1, Did (C_getsockname fd) r2]"
proof -
  have "htonl INADDR_ANY = 0"
    by (simp add: INADDR_ANY_def htonl_def le32_def)
  moreover have "htons 0 = 0" by simp
  ultimately show ?thesis
    using assms
    by (simp add: Sock_bind_wild_def sock_bind_wild_def sys_int_def andThen_apply sys_apply)
qed

text \<open>\<open>sock_cmp_addr\<close> is 0 exactly for two addresses of one family with the same bytes, the
  ports aside, and its sign turns around with its arguments, for the families the build
  knows. (Addresses of a family it was not compiled for never compare equal.)\<close>

theorem sock_cmp_addr_decides:
  assumes "sa_family sa = AF_INET \<and> has_port ipv6 sa" and "sa_family sb = AF_INET \<and> has_port ipv6 sb"
  shows "(sock_cmp_addr ipv6 sa sb = 0 \<longleftrightarrow> sa_addr sa = sa_addr sb) \<and>
    sock_cmp_addr ipv6 sb sa = - sock_cmp_addr ipv6 sa sb \<and>
    sock_cmp_addr ipv6 (sock_set_addr ipv6 sa (sa_addr sb)) sb = 0"
proof -
  obtain p a q b where "sa = Sin p a" "sb = Sin q b"
    using assms by (auto simp: has_port_def family_defs)
  then show ?thesis
    by (auto simp: memcmp_eq_0 memcmp_swap [of "bytes32 b" "bytes32 a"])
qed

theorem sock_cmp_addr_decides_witness:
  "sock_cmp_addr False (Sin 80 (addr4 [127, 0, 0, 1])) (Sin 443 (addr4 [127, 0, 0, 1])) = 0 \<and>
   sock_cmp_addr False (Sin 80 (addr4 [127, 0, 0, 1])) (Sin 80 (addr4 [127, 0, 0, 2])) \<noteq> 0"
  using sock_cmp_addr_decides [of "Sin 80 (addr4 [127, 0, 0, 1])" False "Sin 443 (addr4 [127, 0, 0, 1])"]
    sock_cmp_addr_decides [of "Sin 80 (addr4 [127, 0, 0, 1])" False "Sin 80 (addr4 [127, 0, 0, 2])"]
  by (simp add: has_port_def)

text \<open>\<open>sock_ntop\<close> returns a string for every address of every family: its static buffer and
  its 8-byte port buffer are never overrun, so \<open>Sock_ntop\<close> never exits.\<close>

theorem sock_ntop_never_overruns:
  assumes "\<forall>a. length (ntop6 a) \<le> 45"
  shows "\<exists>s. sock_ntop ipv6 ntop6 sa salen = Inr (Some s) \<and> length s < 128 \<and>
    Sock_ntop ipv6 ntop6 sa salen = ret s"
proof -
  obtain s where "sock_ntop ipv6 ntop6 sa salen = Inr (Some s)" "length s < 128"
    using sock_ntop_fits [OF assms] by blast
  then show ?thesis by (auto simp: Sock_ntop_def)
qed

theorem sock_ntop_never_overruns_witness:
  "\<exists>s. sock_ntop True (\<lambda>_. ''::1'') (Sin6 (htons 65535) []) 28 = Inr (Some s) \<and> length s < 128 \<and>
    Sock_ntop True (\<lambda>_. ''::1'') (Sin6 (htons 65535) []) 28 = ret s"
  by (rule sock_ntop_never_overruns) simp

end
