(* ===== verification/Connect.thy ===== *)
theory Connect
  imports Echo Sockaddr
begin

text \<open>
  Opening sockets by name: \<open>tcp_connect.cpp\<close>, \<open>tcp_listen.cpp\<close>, \<open>udp_client.cpp\<close>,
  \<open>udp_server.cpp\<close>, \<open>host_serv.cpp\<close>, with \<open>connect_nonb.cpp\<close> and \<open>readable_timeo.cpp\<close>. The
  four \<open>do \<dots> while\<close> loops over the addresses of \<open>getaddrinfo\<close> are one recursion on the list
  with the body as its parameter; the locale \<open>attempt\<close> is what a body promises: a failed
  attempt leaves no descriptor open, a successful one leaves exactly the one it returns, and
  the interpretations show it of each of the four.
\<close>

section \<open>Descriptors opened and not closed\<close>

text \<open>How often \<open>socket\<close> returned the descriptor \<open>fd\<close>, less how often it was closed.\<close>

fun ev_balance :: "int \<Rightarrow> event \<Rightarrow> int" where
  "ev_balance fd (Did (C_socket f t p) r) = (if 0 \<le> r_val r \<and> r_val r = fd then 1 else 0)"
| "ev_balance fd (Did (C_close fd') r) = (if r_val r \<noteq> -1 \<and> fd' = fd then -1 else 0)"
| "ev_balance fd _ = 0"

definition balance :: "int \<Rightarrow> world \<Rightarrow> int" where
  "balance fd w = sum_list (map (ev_balance fd) (trace w))"

lemma balance_took [simp]: "balance fd (took c r w) = balance fd w + ev_balance fd (Did c r)"
  by (simp add: balance_def)

lemma balance_log [simp]:
  "balance fd (w\<lparr>trace := trace w @ [Syslog l s e]\<rparr>) = balance fd w"
  "balance fd (w\<lparr>trace := trace w @ [Stderr s e]\<rparr>) = balance fd w"
  "balance fd (w\<lparr>trace := trace w @ [Print s xs]\<rparr>) = balance fd w"
  "balance fd (w\<lparr>errno_v := err\<rparr>) = balance fd w"
  by (simp_all add: balance_def)

lemma balance_err [simp]: "balance fd (snd (err_doit b l s w)) = balance fd w"
  by (simp add: err_doit_apply)

section \<open>The loop over the addresses\<close>

text \<open>An \<open>addrinfo\<close>: family, socket type, protocol and address; the length of an address goes
  with its family.\<close>

type_synonym ai = "int \<times> int \<times> int \<times> sockaddr"

fun ai_addr :: "ai \<Rightarrow> sockaddr" where "ai_addr (f, t, p, sa) = sa"

fun sa_len :: "sockaddr \<Rightarrow> nat" where
  "sa_len (Sin _ _) = 16"
| "sa_len (Sin6 _ _) = 28"
| "sa_len (Sun _) = 110"
| "sa_len (Sother _) = 128"

fun try_addrs :: "(ai \<Rightarrow> (world, int option) prog) \<Rightarrow> ai list \<Rightarrow> (world, (int \<times> ai) option) prog" where
  "try_addrs attempt [] = ret None"
| "try_addrs attempt (res # rest) = andThen (attempt res) (\<lambda>z.
     case z of Some fd \<Rightarrow> ret (Some (fd, res)) | None \<Rightarrow> try_addrs attempt rest)"

lemma try_addrs_wp:
  assumes "I w" and "\<And>a w. I w \<Longrightarrow> wp (body a) (\<lambda>_. I) E w"
  shows "wp (try_addrs body as) (\<lambda>_. I) E w"
  using assms(1)
proof (induction as arbitrary: w)
  case (Cons a as)
  show ?case
    unfolding try_addrs.simps
    by (rule wp_andThen, rule wp_mono [OF assms(2) [OF Cons.prems]])
      (auto intro!: wp_intros Cons.IH split: option.split)
qed (auto intro: wp_intros)

text \<open>\<open>ready fd ai ev\<close>: the event \<open>ev\<close> is the call that made \<open>fd\<close> ready for the address.\<close>

locale attempt =
  fixes body :: "ai \<Rightarrow> (world, int option) prog" and ready :: "int \<Rightarrow> ai \<Rightarrow> event \<Rightarrow> bool"
  assumes lawful_body: "lawful (body a)"
    and failed_closes: "body a w = (Inr None, w') \<Longrightarrow> balance fd w' = balance fd w"
    and success_opens: "body a w = (Inr (Some s), w') \<Longrightarrow>
      balance fd w' = balance fd w + (if fd = s then 1 else 0)"
    and success_ready: "body a w = (Inr (Some s), w') \<Longrightarrow>
      trace w' \<noteq> [] \<and> 0 \<le> s \<and> ready s a (last (trace w'))"
begin

lemma lawful_try: "lawful (try_addrs body as)"
  by (induction as) (auto intro!: lawful_intros lawful_body)

text \<open>However many addresses fail first, the descriptor returned is the only one left open,
  and when all of them fail none is.\<close>

lemma try_none: "try_addrs body as w = (Inr None, w') \<Longrightarrow> balance fd w' = balance fd w"
proof (induction as arbitrary: w)
  case (Cons a as)
  from Cons.prems obtain v where "body a w = (Inr None, v)" "try_addrs body as v = (Inr None, w')"
    by (auto simp: andThen_eq_Inr_iff split: option.splits)
  with failed_closes Cons.IH show ?case by simp
qed simp

lemma try_some:
  "try_addrs body as w = (Inr (Some (s, a)), w') \<Longrightarrow>
     balance fd w' = balance fd w + (if fd = s then 1 else 0) \<and> a \<in> set as \<and>
     0 \<le> s \<and> trace w' \<noteq> [] \<and> ready s a (last (trace w'))"
proof (induction as arbitrary: w)
  case (Cons b as)
  then obtain z v where z: "body b w = (Inr z, v)"
    and rest: "(case z of Some fd \<Rightarrow> ret (Some (fd, b)) | None \<Rightarrow> try_addrs body as) v = (Inr (Some (s, a)), w')"
    by (auto simp: andThen_eq_Inr_iff)
  show ?case
  proof (cases z)
    case None
    with z rest have "balance fd v = balance fd w" "try_addrs body as v = (Inr (Some (s, a)), w')"
      using failed_closes by simp_all
    with Cons.IH show ?thesis by fastforce
  next
    case (Some fd')
    with rest have "fd' = s" "b = a" "v = w'" by simp_all
    with z Some show ?thesis
      using success_opens [of b w s w' fd] success_ready [of b w s w'] by simp
  qed
qed simp

end

section \<open>The four attempts\<close>

definition SOL_SOCKET :: int where "SOL_SOCKET = 1"
definition SO_REUSEADDR :: int where "SO_REUSEADDR = 2"
definition AI_PASSIVE :: int where "AI_PASSIVE = 1"
definition AI_CANONNAME :: int where "AI_CANONNAME = 2"

fun tcp_connect_try :: "ai \<Rightarrow> (world, int option) prog" where
  "tcp_connect_try (fam, ty, proto, sa) = andThen (sys_int (C_socket fam ty proto)) (\<lambda>sockfd.
     if sockfd < 0 then ret None
     else andThen (sys_int (C_connect sockfd sa)) (\<lambda>n.
       if n = 0 then ret (Some sockfd) else seq (Close sockfd) (ret None)))"

fun tcp_listen_try :: "ai \<Rightarrow> (world, int option) prog" where
  "tcp_listen_try (fam, ty, proto, sa) = andThen (sys_int (C_socket fam ty proto)) (\<lambda>listenfd.
     if listenfd < 0 then ret None
     else seq (Setsockopt listenfd SOL_SOCKET SO_REUSEADDR [1])
       (andThen (sys_int (C_bind listenfd sa)) (\<lambda>n.
         if n = 0 then ret (Some listenfd) else seq (Close listenfd) (ret None))))"

fun udp_client_try :: "ai \<Rightarrow> (world, int option) prog" where
  "udp_client_try (fam, ty, proto, sa) = andThen (sys_int (C_socket fam ty proto)) (\<lambda>sockfd.
     if 0 \<le> sockfd then ret (Some sockfd) else ret None)"

fun udp_server_try :: "ai \<Rightarrow> (world, int option) prog" where
  "udp_server_try (fam, ty, proto, sa) = andThen (sys_int (C_socket fam ty proto)) (\<lambda>sockfd.
     if sockfd < 0 then ret None
     else andThen (sys_int (C_bind sockfd sa)) (\<lambda>n.
       if n = 0 then ret (Some sockfd) else seq (Close sockfd) (ret None)))"

definition connected_ev :: "int \<Rightarrow> ai \<Rightarrow> event \<Rightarrow> bool" where
  "connected_ev fd a ev \<longleftrightarrow> (\<exists>r. ev = Did (C_connect fd (ai_addr a)) r \<and> r_val r = 0)"

definition bound_ev :: "int \<Rightarrow> ai \<Rightarrow> event \<Rightarrow> bool" where
  "bound_ev fd a ev \<longleftrightarrow> (\<exists>r. ev = Did (C_bind fd (ai_addr a)) r \<and> r_val r = 0)"

definition socket_ev :: "int \<Rightarrow> ai \<Rightarrow> event \<Rightarrow> bool" where
  "socket_ev fd a ev \<longleftrightarrow> (\<exists>f t p r. ev = Did (C_socket f t p) r \<and> r_val r = fd)"

lemmas try_simps = andThen_apply sys_int_def sys_apply Close_def Setsockopt_def
  connected_ev_def bound_ev_def socket_ev_def

interpretation tcp_connect_a: attempt tcp_connect_try connected_ev
proof
  fix a :: ai and w w' fd s
  obtain f t p sa where a: "a = (f, t, p, sa)" by (cases a) auto
  show "lawful (tcp_connect_try a)"
    by (auto simp: a intro!: lawful_intros)
  show "tcp_connect_try a w = (Inr None, w') \<Longrightarrow> balance fd w' = balance fd w"
    by (auto simp: a try_simps split: list.splits if_splits)
  show "tcp_connect_try a w = (Inr (Some s), w') \<Longrightarrow>
      balance fd w' = balance fd w + (if fd = s then 1 else 0)"
    by (auto simp: a try_simps split: list.splits if_splits)
  show "tcp_connect_try a w = (Inr (Some s), w') \<Longrightarrow>
      trace w' \<noteq> [] \<and> 0 \<le> s \<and> connected_ev s a (last (trace w'))"
    by (auto simp: a try_simps split: list.splits if_splits)
qed

interpretation tcp_listen_a: attempt tcp_listen_try bound_ev
proof
  fix a :: ai and w w' fd s
  obtain f t p sa where a: "a = (f, t, p, sa)" by (cases a) auto
  show "lawful (tcp_listen_try a)"
    by (auto simp: a intro!: lawful_intros)
  show "tcp_listen_try a w = (Inr None, w') \<Longrightarrow> balance fd w' = balance fd w"
    by (auto simp: a try_simps split: list.splits if_splits)
  show "tcp_listen_try a w = (Inr (Some s), w') \<Longrightarrow>
      balance fd w' = balance fd w + (if fd = s then 1 else 0)"
    by (auto simp: a try_simps split: list.splits if_splits)
  show "tcp_listen_try a w = (Inr (Some s), w') \<Longrightarrow>
      trace w' \<noteq> [] \<and> 0 \<le> s \<and> bound_ev s a (last (trace w'))"
    by (auto simp: a try_simps split: list.splits if_splits)
qed

interpretation udp_client_a: attempt udp_client_try socket_ev
proof
  fix a :: ai and w w' fd s
  obtain f t p sa where a: "a = (f, t, p, sa)" by (cases a) auto
  show "lawful (udp_client_try a)"
    by (auto simp: a intro!: lawful_intros)
  show "udp_client_try a w = (Inr None, w') \<Longrightarrow> balance fd w' = balance fd w"
    by (auto simp: a try_simps split: list.splits if_splits)
  show "udp_client_try a w = (Inr (Some s), w') \<Longrightarrow>
      balance fd w' = balance fd w + (if fd = s then 1 else 0)"
    by (auto simp: a try_simps split: list.splits if_splits)
  show "udp_client_try a w = (Inr (Some s), w') \<Longrightarrow>
      trace w' \<noteq> [] \<and> 0 \<le> s \<and> socket_ev s a (last (trace w'))"
    by (auto simp: a try_simps split: list.splits if_splits)
qed

interpretation udp_server_a: attempt udp_server_try bound_ev
proof
  fix a :: ai and w w' fd s
  obtain f t p sa where a: "a = (f, t, p, sa)" by (cases a) auto
  show "lawful (udp_server_try a)"
    by (auto simp: a intro!: lawful_intros)
  show "udp_server_try a w = (Inr None, w') \<Longrightarrow> balance fd w' = balance fd w"
    by (auto simp: a try_simps split: list.splits if_splits)
  show "udp_server_try a w = (Inr (Some s), w') \<Longrightarrow>
      balance fd w' = balance fd w + (if fd = s then 1 else 0)"
    by (auto simp: a try_simps split: list.splits if_splits)
  show "udp_server_try a w = (Inr (Some s), w') \<Longrightarrow>
      trace w' \<noteq> [] \<and> 0 \<le> s \<and> bound_ev s a (last (trace w'))"
    by (auto simp: a try_simps split: list.splits if_splits)
qed

section \<open>The four functions\<close>

text \<open>\<open>getaddrinfo\<close> returns a list that is not empty when it succeeds; the loops read the first
  element without a test.\<close>

definition lookup ::
  "byte list option \<Rightarrow> byte list option \<Rightarrow> int \<Rightarrow> int \<Rightarrow> int \<Rightarrow> string \<Rightarrow> (world, ai list) prog" where
  "lookup host serv flags family socktype msg =
     andThen (sys (C_getaddrinfo host serv flags family socktype)) (\<lambda>r.
       if r_val r \<noteq> 0 then err_quit msg
       else if r_addrs r = [] then halt (Undef ''res'')
       else ret (r_addrs r))"

definition tcp_connect :: "byte list \<Rightarrow> byte list \<Rightarrow> (world, int) prog" where
  "tcp_connect host serv =
     andThen (lookup (Some host) (Some serv) 0 AF_UNSPEC SOCK_STREAM ''tcp_connect error for %s, %s: %s'') (\<lambda>res.
     andThen (try_addrs tcp_connect_try res) (\<lambda>z. case z of
         None \<Rightarrow> err_sys ''tcp_connect error for %s, %s''
       | Some (sockfd, _) \<Rightarrow> ret sockfd))"

definition Tcp_connect :: "byte list \<Rightarrow> byte list \<Rightarrow> (world, int) prog" where
  "Tcp_connect host serv = tcp_connect host serv"

text \<open>The servers also return the length of the address.\<close>

definition tcp_listen :: "byte list option \<Rightarrow> byte list \<Rightarrow> (world, int \<times> nat) prog" where
  "tcp_listen host serv =
     andThen (lookup host (Some serv) AI_PASSIVE AF_UNSPEC SOCK_STREAM ''tcp_listen error for %s, %s: %s'') (\<lambda>res.
     andThen (try_addrs tcp_listen_try res) (\<lambda>z. case z of
         None \<Rightarrow> err_sys ''tcp_listen error for %s, %s''
       | Some (listenfd, a) \<Rightarrow> seq (Listen listenfd LISTENQ) (ret (listenfd, sa_len (ai_addr a)))))"

definition Tcp_listen :: "byte list option \<Rightarrow> byte list \<Rightarrow> (world, int \<times> nat) prog" where
  "Tcp_listen host serv = tcp_listen host serv"

definition udp_client :: "byte list \<Rightarrow> byte list \<Rightarrow> (world, int \<times> sockaddr \<times> nat) prog" where
  "udp_client host serv =
     andThen (lookup (Some host) (Some serv) 0 AF_UNSPEC SOCK_DGRAM ''udp_client error for %s, %s: %s'') (\<lambda>res.
     andThen (try_addrs udp_client_try res) (\<lambda>z. case z of
         None \<Rightarrow> err_sys ''udp_client error for %s, %s''
       | Some (sockfd, a) \<Rightarrow>
           seq (Malloc (int (sa_len (ai_addr a)))) (ret (sockfd, ai_addr a, sa_len (ai_addr a)))))"

definition Udp_client :: "byte list \<Rightarrow> byte list \<Rightarrow> (world, int \<times> sockaddr \<times> nat) prog" where
  "Udp_client host serv = udp_client host serv"

definition udp_server :: "byte list option \<Rightarrow> byte list \<Rightarrow> (world, int \<times> nat) prog" where
  "udp_server host serv =
     andThen (lookup host (Some serv) AI_PASSIVE AF_UNSPEC SOCK_DGRAM ''udp_server error for %s, %s: %s'') (\<lambda>res.
     andThen (try_addrs udp_server_try res) (\<lambda>z. case z of
         None \<Rightarrow> err_sys ''udp_server error for %s, %s''
       | Some (sockfd, a) \<Rightarrow> ret (sockfd, sa_len (ai_addr a))))"

definition Udp_server :: "byte list option \<Rightarrow> byte list \<Rightarrow> (world, int \<times> nat) prog" where
  "Udp_server host serv = udp_server host serv"

definition host_serv ::
  "byte list option \<Rightarrow> byte list option \<Rightarrow> int \<Rightarrow> int \<Rightarrow> (world, ai list option) prog" where
  "host_serv host serv family socktype =
     andThen (sys (C_getaddrinfo host serv AI_CANONNAME family socktype)) (\<lambda>r.
       ret (if r_val r \<noteq> 0 then None else Some (r_addrs r)))"

definition Host_serv ::
  "byte list option \<Rightarrow> byte list option \<Rightarrow> int \<Rightarrow> int \<Rightarrow> (world, ai list) prog" where
  "Host_serv host serv family socktype =
     andThen (sys (C_getaddrinfo host serv AI_CANONNAME family socktype)) (\<lambda>r.
       if r_val r \<noteq> 0 then err_quit ''host_serv error for %s, %s: %s'' else ret (r_addrs r))"

lemma lawful_lookup [lawful_intros]: "lawful (lookup host serv flags family socktype msg)"
  unfolding lookup_def by (intro lawful_intros)

lemma lawful_by_name [lawful_intros]:
  "lawful (Tcp_connect h s)" "lawful (Tcp_listen ho s)" "lawful (Udp_client h s)"
  "lawful (Udp_server ho s)" "lawful (Host_serv ho so f t)"
  unfolding Tcp_connect_def tcp_connect_def Tcp_listen_def tcp_listen_def Udp_client_def
    udp_client_def Udp_server_def udp_server_def Host_serv_def
  by (auto intro!: lawful_intros tcp_connect_a.lawful_try tcp_listen_a.lawful_try
      udp_client_a.lawful_try udp_server_a.lawful_try split: option.split)

lemma lookup_balance:
  "lookup host serv flags family socktype msg w = (r, w') \<Longrightarrow> balance fd w' = balance fd w"
  by (auto simp: lookup_def andThen_apply sys_apply split: list.splits if_splits)

lemma lookup_result:
  "lookup host serv flags family socktype msg w = (Inr res, w') \<Longrightarrow>
     \<exists>r. Did (C_getaddrinfo host serv flags family socktype) r \<in> set (trace w') \<and> res = r_addrs r"
  by (auto simp: lookup_def andThen_apply sys_apply split: list.splits if_splits)

lemma Listen_balance: "Listen fd n w = (Inr u, w') \<Longrightarrow> balance x w' = balance x w"
  by (auto simp: Listen_def Let_def andThen_apply sys_apply split: list.splits if_splits)

lemma Listen_last:
  "Listen fd n w = (Inr u, w') \<Longrightarrow> \<exists>m r. last (trace w') = Did (C_listen fd m) r \<and> 0 \<le> r_val r"
  by (auto simp: Listen_def Let_def andThen_apply sys_apply split: list.splits if_splits)

lemma lawful_Listen': "Listen fd n w = (r, w') \<Longrightarrow> extends w w'"
  by (erule lawfulD [rotated]) (intro lawful_intros)

text \<open>(C13) \<open>tcp_connect\<close> leaks no descriptor: when it returns, the descriptor it returns is the only
  one it has opened and not closed, and the last call was the successful \<open>connect\<close> of that
  descriptor to one of the addresses \<open>getaddrinfo\<close> gave for the name.\<close>

theorem tcp_connect_no_leak:
  assumes "tcp_connect host serv w = (Inr fd, w')"
  shows "balance x w' = balance x w + (if x = fd then 1 else 0) \<and>
    (\<exists>a r. connected_ev fd a (last (trace w')) \<and> a \<in> set (r_addrs r) \<and>
       Did (C_getaddrinfo (Some host) (Some serv) 0 AF_UNSPEC SOCK_STREAM) r \<in> set (trace w'))"
proof -
  from assms obtain res v a where
    look: "lookup (Some host) (Some serv) 0 AF_UNSPEC SOCK_STREAM ''tcp_connect error for %s, %s: %s'' w = (Inr res, v)"
    and tr: "try_addrs tcp_connect_try res v = (Inr (Some (fd, a)), w')"
    by (auto simp: tcp_connect_def andThen_eq_Inr_iff split: option.splits)
  from lookup_result [OF look] obtain r where
    "Did (C_getaddrinfo (Some host) (Some serv) 0 AF_UNSPEC SOCK_STREAM) r \<in> set (trace v)" "res = r_addrs r"
    by blast
  moreover have "set (trace v) \<subseteq> set (trace w')"
    using lawfulD [OF tcp_connect_a.lawful_try tr] by (auto simp: extends_def)
  ultimately show ?thesis
    using tcp_connect_a.try_some [OF tr] lookup_balance [OF look] by fastforce
qed

text \<open>\<open>tcp_listen\<close> leaks no descriptor either, and returns a socket on which \<open>listen\<close> has
  succeeded, with the length of the address it is bound to.\<close>

theorem tcp_listen_no_leak:
  assumes "tcp_listen host serv w = (Inr (fd, len), w')"
  shows "balance x w' = balance x w + (if x = fd then 1 else 0) \<and>
    (\<exists>m r. last (trace w') = Did (C_listen fd m) r \<and> 0 \<le> r_val r) \<and>
    (\<exists>a ev. ev \<in> set (trace w') \<and> bound_ev fd a ev \<and> len = sa_len (ai_addr a))"
proof -
  from assms obtain res v a v' where
    look: "lookup host (Some serv) AI_PASSIVE AF_UNSPEC SOCK_STREAM ''tcp_listen error for %s, %s: %s'' w = (Inr res, v)"
    and tr: "try_addrs tcp_listen_try res v = (Inr (Some (fd, a)), v')"
    and li: "Listen fd LISTENQ v' = (Inr (), w')" and len: "len = sa_len (ai_addr a)"
    by (auto simp: tcp_listen_def andThen_eq_Inr_iff split: option.splits)
  note res = tcp_listen_a.try_some [OF tr]
  from lawful_Listen' [OF li] have "set (trace v') \<subseteq> set (trace w')"
    by (auto simp: extends_def)
  with res have "last (trace v') \<in> set (trace w')" by auto
  with res len have "\<exists>a ev. ev \<in> set (trace w') \<and> bound_ev fd a ev \<and> len = sa_len (ai_addr a)"
    by blast
  with res Listen_last [OF li] Listen_balance [OF li] lookup_balance [OF look] show ?thesis
    by simp
qed

section \<open>readable_timeo.cpp\<close>

definition readable_timeo :: "int \<Rightarrow> int \<Rightarrow> (world, int) prog" where
  "readable_timeo fd sec = andThen (sys_select {fd} {} {} (Some sec)) (\<lambda>(n, _, _). ret n)"

definition Readable_timeo :: "int \<Rightarrow> int \<Rightarrow> (world, int) prog" where
  "Readable_timeo fd sec = andThen (readable_timeo fd sec) (\<lambda>n.
     if n < 0 then err_sys ''readable_timeo error'' else ret n)"

lemma lawful_Readable [lawful_intros]: "lawful (readable_timeo fd sec)" "lawful (Readable_timeo fd sec)"
  unfolding readable_timeo_def Readable_timeo_def by (intro lawful_intros)+

lemma Readable_timeo_boolean:
  "Readable_timeo fd sec w = (Inr n, w') \<Longrightarrow> n = 0 \<or> n = 1"
  by (auto simp: Readable_timeo_def readable_timeo_def sys_select_def ready_count_def andThen_apply
      sys_apply Int_insert_left split: list.splits if_splits)

section \<open>connect_nonb.cpp\<close>

definition F_GETFL :: int where "F_GETFL = 3"
definition F_SETFL :: int where "F_SETFL = 4"
definition O_NONBLOCK :: int where "O_NONBLOCK = 2048"
definition SO_ERROR :: int where "SO_ERROR = 4"

text \<open>The label \<open>done\<close> and what follows it.\<close>

definition connect_nonb_done :: "int \<Rightarrow> int \<Rightarrow> int \<Rightarrow> (world, int) prog" where
  "connect_nonb_done sockfd flags error =
     seq (Fcntl sockfd F_SETFL flags)
       (if error \<noteq> 0 then
          seq (sys (C_close sockfd)) (seq (set_errno (Errno (nat error))) (ret (-1)))
        else ret 0)"

text \<open>Waiting for the connection to be established, which both sets report.\<close>

definition connect_nonb_wait :: "int \<Rightarrow> int \<Rightarrow> int \<Rightarrow> (world, int) prog" where
  "connect_nonb_wait sockfd nsec flags =
     andThen (Select {sockfd} {sockfd} {} (if nsec \<noteq> 0 then Some nsec else None)) (\<lambda>(n, rset, wset).
       if n = 0 then seq (sys (C_close sockfd)) (seq (set_errno ETIMEDOUT) (ret (-1)))
       else if sockfd \<in> rset \<or> sockfd \<in> wset then
         andThen (sys (C_getsockopt sockfd SOL_SOCKET SO_ERROR)) (\<lambda>r.
           if r_val r < 0 then ret (-1) else connect_nonb_done sockfd flags (aux r 0))
       else err_quit ''select error: sockfd not set'')"

definition connect_nonb :: "int \<Rightarrow> sockaddr \<Rightarrow> int \<Rightarrow> (world, int) prog" where
  "connect_nonb sockfd sa nsec =
     andThen (Fcntl sockfd F_GETFL 0) (\<lambda>flags.
     seq (Fcntl sockfd F_SETFL (flags OR O_NONBLOCK))
     (andThen (sys_int (C_connect sockfd sa)) (\<lambda>n. andThen get_errno (\<lambda>errno.
     if n < 0 \<and> errno \<noteq> EINPROGRESS then ret (-1)
     else if n = 0 then connect_nonb_done sockfd flags 0
     else connect_nonb_wait sockfd nsec flags))))"

lemma lawful_connect_nonb [lawful_intros]: "lawful (connect_nonb sockfd sa nsec)"
  unfolding connect_nonb_def connect_nonb_wait_def connect_nonb_done_def by (auto intro!: lawful_intros)

text \<open>The error exit of \<open>err_quit\<close> cannot be reached: \<open>select\<close> reports one of the two sets it
  was given when it reports anything.\<close>

lemma Select_both:
  "Select {fd} {fd} ex tmo w = (Inr (n, rd, wr), w') \<Longrightarrow> n = 0 \<longleftrightarrow> fd \<notin> rd \<and> fd \<notin> wr"
  by (auto simp: Select_def ready_count_def andThen_apply sys_apply Int_insert_left
      split: list.splits if_splits)

lemma connect_nonb_done_ok:
  "connect_nonb_done sockfd flags e u = (Inr 0, u') \<Longrightarrow>
     e = 0 \<and> (\<exists>r'. trace u' = trace u @ [Did (C_fcntl sockfd F_SETFL flags) r'])"
  by (auto simp: connect_nonb_done_def Fcntl_def andThen_apply sys_apply split: list.splits if_splits)

lemma connect_nonb_wait_ok:
  "connect_nonb_wait sockfd nsec flags u = (Inr 0, u') \<Longrightarrow>
     \<exists>tr r'. trace u' = trace u @ tr @ [Did (C_fcntl sockfd F_SETFL flags) r']"
  by (auto simp: connect_nonb_wait_def Select_def andThen_apply sys_apply
      split: list.splits if_splits dest!: connect_nonb_done_ok)

text \<open>When \<open>connect_nonb\<close> reports success, its first call read the file status flags of the
  socket and its last call restored exactly those.\<close>

theorem connect_nonb_restores_flags:
  assumes "connect_nonb sockfd sa nsec w = (Inr 0, w')"
  shows "\<exists>r tr r'. trace w' = trace w @ Did (C_fcntl sockfd F_GETFL 0) r # tr @
      [Did (C_fcntl sockfd F_SETFL (r_val r)) r']"
  using assms
  by (auto simp: connect_nonb_def Fcntl_def sys_int_def andThen_apply sys_apply
      split: list.splits if_splits dest!: connect_nonb_wait_ok connect_nonb_done_ok)

text \<open>When the connection is refused at once, \<open>connect_nonb\<close> returns -1 and leaves the socket
  open and non-blocking: neither are the flags restored nor is the descriptor closed, as the
  other two error paths do.\<close>

theorem connect_nonb_refused_leaves_nonblocking:
  assumes "resps w = r1 # r2 # r3 # rs" and "r_val r1 \<noteq> -1" and "r_val r2 \<noteq> -1"
    and "r_val r3 < 0" and "r_errno r3 \<noteq> EINPROGRESS"
  shows "\<exists>w'. connect_nonb sockfd sa nsec w = (Inr (-1), w') \<and>
    trace w' = trace w @ [Did (C_fcntl sockfd F_GETFL 0) r1,
      Did (C_fcntl sockfd F_SETFL (r_val r1 OR O_NONBLOCK)) r2, Did (C_connect sockfd sa) r3]"
  using assms
  by (simp add: connect_nonb_def Fcntl_def sys_int_def andThen_apply sys_apply)

theorem connect_nonb_refused_leaves_nonblocking_witness:
  "\<exists>w'. connect_nonb 3 (Sin 7 1) 5 (start [ok 2, ok 0, fails ECONNREFUSED]) = (Inr (-1), w') \<and>
    trace w' = [] @ [Did (C_fcntl 3 F_GETFL 0) (ok 2),
      Did (C_fcntl 3 F_SETFL (2 OR O_NONBLOCK)) (ok 0), Did (C_connect 3 (Sin 7 1)) (fails ECONNREFUSED)]"
  using connect_nonb_refused_leaves_nonblocking
    [of "start [ok 2, ok 0, fails ECONNREFUSED]" "ok 2" "ok 0" "fails ECONNREFUSED" "[]" 3 "Sin 7 1" 5]
  by (simp add: resp_defs)

theorem connect_nonb_restores_flags_witness:
  "\<exists>r tr r' w'. connect_nonb 3 (Sin 7 1) 5 (start [ok 2, ok 0, ok 0, ok 0]) = (Inr 0, w') \<and>
    trace w' = Did (C_fcntl 3 F_GETFL 0) r # tr @ [Did (C_fcntl 3 F_SETFL (r_val r)) r']"
proof -
  let ?w = "start [ok 2, ok 0, ok 0, ok 0]"
  have "\<exists>w'. connect_nonb 3 (Sin 7 1) 5 ?w = (Inr 0, w')"
    by (simp add: connect_nonb_def connect_nonb_done_def Fcntl_def sys_int_def andThen_apply
        sys_apply resp_defs)
  then obtain w' where run: "connect_nonb 3 (Sin 7 1) 5 ?w = (Inr 0, w')" by blast
  from connect_nonb_restores_flags [OF run] run show ?thesis by auto
qed

theorem tcp_connect_no_leak_witness:
  "\<exists>w'. tcp_connect [97] [98] (start [no_resp\<lparr>r_addrs := [(2, 1, 6, Sin 7 1), (2, 1, 6, Sin 7 2)]\<rparr>,
      ok 3, fails ECONNREFUSED, ok 0, ok 3, ok 0]) = (Inr 3, w') \<and> balance 3 w' = 1 \<and> balance 4 w' = 0"
proof -
  let ?w = "start [no_resp\<lparr>r_addrs := [(2, 1, 6, Sin 7 1), (2, 1, 6, Sin 7 2)]\<rparr>,
      ok 3, fails ECONNREFUSED, ok 0, ok 3, ok 0]"
  have "\<exists>w'. tcp_connect [97] [98] ?w = (Inr 3, w')"
    by (simp add: tcp_connect_def lookup_def try_simps resp_defs)
  then obtain w' where run: "tcp_connect [97] [98] ?w = (Inr 3, w')" by blast
  from tcp_connect_no_leak [OF run, of 3] tcp_connect_no_leak [OF run, of 4] run show ?thesis
    by (simp add: balance_def)
qed

theorem tcp_listen_no_leak_witness:
  "\<exists>w'. tcp_listen None [98] (start [no_resp\<lparr>r_addrs := [(2, 1, 6, Sin 7 0)]\<rparr>,
      ok 3, ok 0, ok 0, ok 0, ok 0]) = (Inr (3, 16), w') \<and> balance 3 w' = 1"
proof -
  let ?w = "start [no_resp\<lparr>r_addrs := [(2, 1, 6, Sin 7 0)]\<rparr>, ok 3, ok 0, ok 0, ok 0, ok 0]"
  have "\<exists>w'. tcp_listen None [98] ?w = (Inr (3, 16), w')"
    by (simp add: tcp_listen_def lookup_def Listen_def Let_def try_simps resp_defs)
  then obtain w' where run: "tcp_listen None [98] ?w = (Inr (3, 16), w')" by blast
  from tcp_listen_no_leak [OF run, of 3] run show ?thesis
    by (simp add: balance_def)
qed

end
