(* ===== verification/Ping.thy ===== *)
theory Ping
  imports Cksum Connect
begin

text \<open>
  \<open>ping/main.cpp\<close> and \<open>ping/ping.h\<close>: composing an ICMP echo request, taking apart the datagrams of
  the raw socket, and the loop around them. Packets are byte lists in the layout of \<open>struct ip\<close>,
  \<open>struct icmp\<close> and \<open>struct icmp6_hdr\<close>; 16-bit fields are in host order, as the code leaves them.
  The handler of \<open>SIGALRM\<close>, which sends the next request, runs in the model where it interrupts
  \<open>recvmsg\<close>. \<open>struct proto\<close> is a record of the functions of a protocol; the locale \<open>ping_proto\<close> is
  what the loop needs of them, and both protocols meet it. \<open>main\<close> has the macro \<open>IPV6\<close> as a
  parameter: without it, as the program is built, only \<open>proto_v4\<close> exists.
\<close>

section \<open>Time\<close>

text \<open>\<open>struct timeval\<close>: two 64-bit signed integers.\<close>

definition bytes64 :: "int \<Rightarrow> byte list" where
  "bytes64 i = (let x = word_of_int i :: u64 in bytes32 (ucast x) @ bytes32 (ucast (drop_bit 32 x)))"

definition int64_at :: "nat \<Rightarrow> byte list \<Rightarrow> int" where
  "int64_at i bs = sint (ucast (addr4 (drop i bs)) OR push_bit 32 (ucast (addr4 (drop (i + 4) bs))) :: u64)"

definition timeval_bytes :: "int \<times> int \<Rightarrow> byte list" where
  "timeval_bytes = (\<lambda>(sec, usec). bytes64 sec @ bytes64 usec)"

definition timeval_at :: "nat \<Rightarrow> byte list \<Rightarrow> int \<times> int" where
  "timeval_at i bs = (int64_at i bs, int64_at (i + 8) bs)"

definition tv_sub :: "int \<times> int \<Rightarrow> int \<times> int \<Rightarrow> int \<times> int" where
  "tv_sub = (\<lambda>(osec, ousec) (isec, iusec).
     let ousec = ousec - iusec;
         (osec, ousec) = (if ousec < 0 then (osec - 1, ousec + 1000000) else (osec, ousec))
     in (osec - isec, ousec))"

definition micros :: "int \<times> int \<Rightarrow> int" where
  "micros = (\<lambda>(sec, usec). sec * 1000000 + usec)"

lemma length_bytes64 [simp]: "length (bytes64 i) = 8"
  by (simp add: bytes64_def Let_def)

lemma length_timeval_bytes [simp]: "length (timeval_bytes tv) = 16"
  by (cases tv) (simp add: timeval_bytes_def)

lemma addr4_drop4 [simp]: "addr4 (drop 4 (bytes32 a @ bytes32 b @ bs)) = b"
  by (simp add: bytes32_def)

lemma halves: "(ucast (ucast (x :: u64) :: u32) OR push_bit 32 (ucast (ucast (drop_bit 32 x) :: u32)) :: u64) = x"
  by (rule bit_word_eqI) (auto simp: bit_simps)

lemma int64_at_bytes64:
  assumes "- (2 ^ 63) \<le> i" and "i < 2 ^ 63"
  shows "int64_at (length pre) (pre @ bytes64 i @ post) = i"
proof -
  have "int64_at (length pre) (pre @ bytes64 i @ post) = sint (word_of_int i :: u64)"
    by (simp add: int64_at_def bytes64_def Let_def halves)
  also have "\<dots> = i"
    using assms by (simp add: signed_of_int signed_take_bit_int_eq_self)
  finally show ?thesis .
qed

definition time_ok :: "int \<times> int \<Rightarrow> bool" where
  "time_ok = (\<lambda>(sec, usec). \<bar>sec\<bar> < 2 ^ 62 \<and> 0 \<le> usec \<and> usec < 1000000)"

lemma timeval_roundtrip:
  assumes "time_ok tv"
  shows "timeval_at (length pre) (pre @ timeval_bytes tv @ post) = tv"
proof -
  obtain sec usec where tv: "tv = (sec, usec)" by fastforce
  have "int64_at (length pre) (pre @ bytes64 sec @ bytes64 usec @ post) = sec"
    using assms by (intro int64_at_bytes64) (auto simp: tv time_ok_def)
  moreover have "int64_at (length (pre @ bytes64 sec)) ((pre @ bytes64 sec) @ bytes64 usec @ post) = usec"
    using assms by (intro int64_at_bytes64) (auto simp: tv time_ok_def)
  ultimately show ?thesis
    by (simp add: tv timeval_at_def timeval_bytes_def)
qed

text \<open>\<open>tv_sub\<close> subtracts times to the microsecond and leaves a normalised difference, when
  both arguments are normalised.\<close>

theorem tv_sub_exact:
  assumes "0 \<le> snd a" and "snd a < 1000000" and "0 \<le> snd b" and "snd b < 1000000"
  shows "micros (tv_sub a b) = micros a - micros b \<and> 0 \<le> snd (tv_sub a b) \<and> snd (tv_sub a b) < 1000000"
  using assms by (cases a, cases b) (auto simp: tv_sub_def micros_def Let_def)

theorem tv_sub_exact_witness:
  "micros (tv_sub (10, 100) (9, 999900)) = micros (10, 100) - micros (9, 999900)"
  using tv_sub_exact [of "(10, 100)" "(9, 999900)"] by simp

section \<open>The packets\<close>

definition byte_at :: "nat \<Rightarrow> byte list \<Rightarrow> byte" where
  "byte_at i bs = (if i < length bs then bs ! i else 0)"

definition half_at :: "nat \<Rightarrow> byte list \<Rightarrow> u16" where
  "half_at i bs = le16 (byte_at i bs) (byte_at (i + 1) bs)"

text \<open>Fields of \<open>struct ip\<close> at the start of a buffer (\<open>ip_hl << 2\<close>, \<open>ip_ttl\<close>, \<open>ip_p\<close>).\<close>

definition ip_hlen :: "byte list \<Rightarrow> nat" where
  "ip_hlen bs = unat (byte_at 0 bs AND 15) * 4"

definition ip_ttl :: "byte list \<Rightarrow> nat" where "ip_ttl bs = unat (byte_at 8 bs)"
definition ip_p :: "byte list \<Rightarrow> nat" where "ip_p bs = unat (byte_at 9 bs)"

definition IPPROTO_ICMP :: nat where "IPPROTO_ICMP = 1"
definition IPPROTO_UDP :: nat where "IPPROTO_UDP = 17"
definition ICMP_ECHOREPLY :: nat where "ICMP_ECHOREPLY = 0"
definition ICMP_ECHO :: byte where "ICMP_ECHO = 8"
definition IPPROTO_IPV6 :: int where "IPPROTO_IPV6 = 41"
definition IPPROTO_ICMPV6 :: int where "IPPROTO_ICMPV6 = 58"
definition ICMP6_ECHO_REQUEST :: byte where "ICMP6_ECHO_REQUEST = 128"
definition ICMP6_ECHO_REPLY :: nat where "ICMP6_ECHO_REPLY = 129"
definition ICMP6_FILTER :: int where "ICMP6_FILTER = 1"
definition IPV6_HOPLIMIT :: int where "IPV6_HOPLIMIT = 52"

record ping =
  p_sockfd :: int
  p_pid :: u16
  p_nsent :: int
  p_verbose :: bool
  p_datalen :: nat
  p_sasend :: sockaddr
  p_salen :: nat

text \<open>\<open>send_v4\<close>: the header with type \<open>ICMP_ECHO\<close>, code 0, a zero checksum, identifier and
  sequence number; then the pattern, overwritten at its start by the time.\<close>

definition echo_data :: "nat \<Rightarrow> int \<times> int \<Rightarrow> byte list" where
  "echo_data datalen tv = timeval_bytes tv @ replicate (datalen - 16) 0xa5"

definition echo_packet :: "u16 \<Rightarrow> u16 \<Rightarrow> byte list \<Rightarrow> byte list" where
  "echo_packet pid seqno payload =
     (let icmp = (\<lambda>ck. [ICMP_ECHO, 0] @ bytes16 ck @ bytes16 pid @ bytes16 seqno @ payload)
      in icmp (in_cksum (icmp 0)))"

definition send_v4 :: "ping \<Rightarrow> (world, ping) prog" where
  "send_v4 p = andThen Gettimeofday (\<lambda>tv.
     seq (Sendto (p_sockfd p)
           (take (8 + p_datalen p)
             (echo_packet (p_pid p) (word_of_int (p_nsent p)) (echo_data (p_datalen p) tv)))
           0 (p_sasend p))
       (ret (p\<lparr>p_nsent := p_nsent p + 1\<rparr>)))"

text \<open>\<open>proc_v4\<close>: \<open>ptr\<close> is the whole receive buffer, \<open>len\<close> the length of the datagram in it. The
  round-trip time is printed in milliseconds with three decimals, that is, in microseconds.\<close>

definition proc_v4 :: "ping \<Rightarrow> byte list \<Rightarrow> nat \<Rightarrow> int \<times> int \<Rightarrow> sockaddr \<Rightarrow> (world, unit) prog" where
  "proc_v4 p ptr len tvrecv sarecv =
     (let hlen1 = ip_hlen ptr; icmp = drop hlen1 ptr; icmplen = int len - int hlen1
      in if ip_p ptr \<noteq> IPPROTO_ICMP then ret ()
         else if icmplen < 8 then ret ()
         else if unat (byte_at 0 icmp) = ICMP_ECHOREPLY then
           (if half_at 4 icmp \<noteq> p_pid p then ret ()
            else if icmplen < 16 then ret ()
            else
              let rtt = micros (tv_sub tvrecv (timeval_at 8 icmp))
              in seq (Sock_ntop_host False (\<lambda>_. []) sarecv (p_salen p))
                (print ''%d bytes from %s: seq=%u, ttl=%d, rtt=%.3f ms''
                  [icmplen, uint (half_at 6 icmp), int (ip_ttl ptr), rtt]))
         else only_if (p_verbose p)
           (seq (Sock_ntop_host False (\<lambda>_. []) sarecv (p_salen p))
             (print ''%d bytes from %s : type=%d, code=%d''
               [icmplen, uint (byte_at 0 icmp), uint (byte_at 1 icmp)])))"

section \<open>The packets of IPv6\<close>

text \<open>The bodies under \<open>#ifdef IPV6\<close>. They do not compile as they are: \<open>proc_v6\<close> has a stray \<open>d\<close>
  after a statement, and \<open>ICMP6_ECHOREPLY\<close> is not the name of the constant, \<open>ICMP6_ECHO_REPLY\<close>; the
  model reads them without the one and with the other. \<open>icmp6_filter\<close> is the value the macros
  \<open>ICMP6_FILTER_SETBLOCKALL\<close> and \<open>ICMP6_FILTER_SETPASS\<close> leave: a bit for each of 256 types, set for
  those that are blocked.\<close>

definition filter_pass :: "nat \<Rightarrow> u32 list \<Rightarrow> u32 list" where
  "filter_pass type filt = filt[type div 32 := filt ! (type div 32) AND NOT (push_bit (type mod 32) 1)]"

definition icmp6_filter :: "nat list \<Rightarrow> u32 list" where
  "icmp6_filter types = fold filter_pass types (replicate 8 (- 1))"

text \<open>The options are set at level \<open>IPPROTO_IPV6\<close>; a misspelt \<open>#ifdef\<close> leaves \<open>IPV6_HOPLIMIT\<close> as the
  second. Failures are ignored.\<close>

definition init_v6 :: "ping \<Rightarrow> (world, unit) prog" where
  "init_v6 p =
     seq (only_if (\<not> p_verbose p)
       (seq (sys (C_setsockopt (p_sockfd p) IPPROTO_IPV6 ICMP6_FILTER (map uint (icmp6_filter [ICMP6_ECHO_REPLY]))))
         (ret ())))
    (seq (sys (C_setsockopt (p_sockfd p) IPPROTO_IPV6 IPV6_HOPLIMIT [1])) (ret ()))"

text \<open>The control messages of a response, as level, type and first word of the data; the hop limit is
  that of the first message of that type.\<close>

fun cmsgs :: "int list \<Rightarrow> (int \<times> int \<times> int) list" where
  "cmsgs (level # type # word # rest) = (level, type, word) # cmsgs rest"
| "cmsgs _ = []"

fun hop_limit :: "(int \<times> int \<times> int) list \<Rightarrow> int" where
  "hop_limit [] = -1"
| "hop_limit ((level, type, word) # rest) =
     (if level = IPPROTO_IPV6 \<and> type = IPV6_HOPLIMIT then word else hop_limit rest)"

definition proc_v6 ::
  "(byte list \<Rightarrow> string) \<Rightarrow> ping \<Rightarrow> byte list \<Rightarrow> nat \<Rightarrow> (int \<times> int \<times> int) list \<Rightarrow> int \<times> int \<Rightarrow> sockaddr \<Rightarrow>
     (world, unit) prog" where
  "proc_v6 ntop6 p ptr len msg tvrecv sarecv =
     (if len < 8 then ret ()
      else if unat (byte_at 0 ptr) = ICMP6_ECHO_REPLY then
        (if half_at 4 ptr \<noteq> p_pid p then ret ()
         else if len < 16 then ret ()
         else
           let rtt = micros (tv_sub tvrecv (timeval_at 8 ptr)); hlim = hop_limit msg
           in seq (Sock_ntop_host True ntop6 sarecv (p_salen p))
             (seq (print ''%d bytes from %s: seq=%u, hlim='' [int len, uint (half_at 6 ptr)])
             (seq (if hlim = -1 then print ''???'' [] else print ''%d'' [hlim])
               (print '', rtt=%.3f ms'' [rtt]))))
      else only_if (p_verbose p)
        (seq (Sock_ntop_host True ntop6 sarecv (p_salen p))
          (print ''%d bytes from %s : type=%d, code=%d''
            [int len, uint (byte_at 0 ptr), uint (byte_at 1 ptr)])))"

text \<open>The kernel computes the checksum; its field keeps the zero of the static buffer.\<close>

definition echo6_packet :: "u16 \<Rightarrow> u16 \<Rightarrow> byte list \<Rightarrow> byte list" where
  "echo6_packet pid seqno payload = [ICMP6_ECHO_REQUEST, 0, 0, 0] @ bytes16 pid @ bytes16 seqno @ payload"

definition send_v6 :: "ping \<Rightarrow> (world, ping) prog" where
  "send_v6 p = andThen Gettimeofday (\<lambda>tv.
     seq (Sendto (p_sockfd p)
           (take (8 + p_datalen p)
             (echo6_packet (p_pid p) (word_of_int (p_nsent p)) (echo_data (p_datalen p) tv)))
           0 (p_sasend p))
       (ret (p\<lparr>p_nsent := p_nsent p + 1\<rparr>)))"

section \<open>The protocols and the loop\<close>

record proto =
  fproc :: "ping \<Rightarrow> byte list \<Rightarrow> nat \<Rightarrow> (int \<times> int \<times> int) list \<Rightarrow> int \<times> int \<Rightarrow> sockaddr \<Rightarrow> (world, unit) prog"
  fsend :: "ping \<Rightarrow> (world, ping) prog"
  finit :: "(ping \<Rightarrow> (world, unit) prog) option"
  icmpproto :: int

definition proto_v4 :: proto where
  "proto_v4 = \<lparr>fproc = \<lambda>p ptr len msg. proc_v4 p ptr len, fsend = send_v4, finit = None,
     icmpproto = int IPPROTO_ICMP\<rparr>"

definition proto_v6 :: "(byte list \<Rightarrow> string) \<Rightarrow> proto" where
  "proto_v6 ntop6 = \<lparr>fproc = proc_v6 ntop6, fsend = send_v6, finit = Some init_v6, icmpproto = IPPROTO_ICMPV6\<rparr>"

definition sig_alrm :: "proto \<Rightarrow> ping \<Rightarrow> (world, ping) prog" where
  "sig_alrm pr p = andThen (fsend pr p) (\<lambda>p. seq (sys (C_alarm 1)) (ret p))"

text \<open>The receiving loop: the state, the receive buffer and the address of the last sender.\<close>

definition readloop_round ::
  "proto \<Rightarrow> ping \<times> byte list \<times> sockaddr \<Rightarrow> (world, (ping \<times> byte list \<times> sockaddr) + unit) prog" where
  "readloop_round pr = (\<lambda>(p, recvbuf, sarecv).
     andThen (sys (C_recvmsg (p_sockfd p) BUFFSIZE 0)) (\<lambda>r. andThen get_errno (\<lambda>errno.
       if r_val r < 0 then
         (if errno = EINTR then andThen (sig_alrm pr p) (\<lambda>p. again (p, recvbuf, sarecv))
          else err_sys ''recvmsg error'')
       else
         let bs = got BUFFSIZE r; recvbuf = bs @ drop (length bs) recvbuf
         in andThen Gettimeofday (\<lambda>tval.
           seq (fproc pr p recvbuf (length bs) (cmsgs (r_aux r)) tval (r_addr r))
             (again (p, recvbuf, r_addr r))))))"

definition readloop :: "proto \<Rightarrow> ping \<Rightarrow> byte list \<Rightarrow> (world, unit) prog" where
  "readloop pr p recvbuf =
     andThen (Socket (sa_family (p_sasend p)) SOCK_RAW (icmpproto pr)) (\<lambda>sockfd.
     let p = p\<lparr>p_sockfd := sockfd\<rparr>
     in seq (sys (C_lib ''setuid'' [] []))
       (seq (case finit pr of None \<Rightarrow> ret () | Some init \<Rightarrow> init p)
       (seq (sys (C_setsockopt sockfd SOL_SOCKET 8 [60 * 1024]))
       (andThen (sig_alrm pr p) (\<lambda>p.
         loop (readloop_round pr) (p, recvbuf, Sother 0))))))"

text \<open>\<open>main\<close>: \<open>getopt\<close> returns the option letters (\<open>v\<close> is 118, an unknown one gives 63) and -1 at
  the end; its second value is \<open>optind\<close>.\<close>

definition ping_option :: "bool \<Rightarrow> (world, bool + bool \<times> int) prog" where
  "ping_option verbose = andThen (sys (C_lib ''getopt'' [] (lit ''v''))) (\<lambda>r.
     if r_val r = -1 then leave (verbose, aux r 0)
     else if r_val r = 118 then again True
     else if r_val r = 63 then err_quit ''unrecognized option:%c''
     else again verbose)"

fun v4_mapped :: "sockaddr \<Rightarrow> bool" where
  "v4_mapped (Sin6 p a) \<longleftrightarrow> take 12 a = replicate 10 0 @ [255, 255]"
| "v4_mapped _ \<longleftrightarrow> False"

definition choose_proto :: "bool \<Rightarrow> (byte list \<Rightarrow> string) \<Rightarrow> ai \<Rightarrow> (world, proto) prog" where
  "choose_proto ipv6 ntop6 ai =
     (if fst ai = AF_INET then ret proto_v4
      else if ipv6 \<and> fst ai = AF_INET6 then
        (if v4_mapped (ai_addr ai) then err_quit ''connot ping IPv4-mapped IPv6 address''
         else ret (proto_v6 ntop6))
      else err_quit ''unknown address family %d'')"

definition ping_main :: "bool \<Rightarrow> (byte list \<Rightarrow> string) \<Rightarrow> byte list list \<Rightarrow> byte list \<Rightarrow> (world, unit) prog" where
  "ping_main ipv6 ntop6 argv recvbuf =
     andThen (loop ping_option False) (\<lambda>(verbose, optind).
     if optind \<noteq> int (length argv) - 1 then err_quit ''usage: ping [-v] <hostname>''
     else andThen (sys_int (C_lib ''getpid'' [] [])) (\<lambda>getpid.
     seq (Signal SIGALRM 1)
     (andThen (Host_serv (Some (argv ! nat optind)) None 0 0) (\<lambda>ais. case ais of
         [] \<Rightarrow> halt (Undef ''ai'')
       | ai # _ \<Rightarrow>
         seq (Sock_ntop_host ipv6 ntop6 (ai_addr ai) (sa_len (ai_addr ai)))
        (seq (print ''PING %s (%s) : %d data bytes'' [56])
        (andThen (choose_proto ipv6 ntop6 ai) (\<lambda>pr.
           seq (Calloc 1 (int (sa_len (ai_addr ai))))
             (readloop pr \<lparr>p_sockfd = 0, p_pid = word_of_int (getpid AND 0xffff), p_nsent = 0,
                p_verbose = verbose, p_datalen = 56, p_sasend = ai_addr ai,
                p_salen = sa_len (ai_addr ai)\<rparr> recvbuf))))))))"

text \<open>What the loop needs of a protocol.\<close>

locale ping_proto =
  fixes pr :: proto
  assumes fsend_lawful: "lawful (fsend pr p)"
    and fproc_lawful: "lawful (fproc pr p ptr len msg tv sa)"
begin

lemma sig_alrm_lawful [lawful_intros]: "lawful (sig_alrm pr p)"
  unfolding sig_alrm_def by (auto intro!: lawful_intros fsend_lawful)

lemma round_lawful: "lawful (readloop_round pr x)"
  unfolding readloop_round_def Let_def by (cases x) (auto intro!: lawful_intros fproc_lawful)

lemma round_consuming: "consuming (readloop_round pr)"
proof
  show "eats repeats (readloop_round pr x)" for x
    unfolding readloop_round_def Let_def
    by (cases x) (auto intro!: eats_intros eats_first lawful_intros fproc_lawful)
qed

end

lemma lawful_send [lawful_intros]: "lawful (send_v4 p)" "lawful (send_v6 p)"
  unfolding send_v4_def send_v6_def by (auto intro!: lawful_intros)

lemma lawful_proc [lawful_intros]:
  "lawful (proc_v4 p ptr len tv sa)" "lawful (proc_v6 ntop6 p ptr len msg tv sa)"
  unfolding proc_v4_def proc_v6_def Let_def by (auto intro!: lawful_intros)

lemma lawful_ping_option [lawful_intros]: "lawful (ping_option v)"
  unfolding ping_option_def by (auto intro!: lawful_intros)

interpretation ping4: ping_proto proto_v4
  by unfold_locales (simp_all add: proto_v4_def lawful_intros)

interpretation ping6: ping_proto "proto_v6 ntop6" for ntop6
  by unfold_locales (simp_all add: proto_v6_def lawful_intros)

interpretation readloop4: consuming "readloop_round proto_v4"
  by (rule ping4.round_consuming)

interpretation readloop6: consuming "readloop_round (proto_v6 ntop6)" for ntop6
  by (rule ping6.round_consuming)

interpretation ping_option_c: consuming ping_option
  by unfold_locales (auto simp: ping_option_def intro!: eats_intros eats_first lawful_intros)

section \<open>Requests and replies\<close>

text \<open>Every echo request \<open>send_v4\<close> composes carries a correct checksum, whatever the
  identifier, the sequence number and the data.\<close>

theorem echo_packet_verifies:
  assumes "length payload \<le> 1492"
  shows "in_cksum (echo_packet pid seqno payload) = 0 \<and> half_at 4 (echo_packet pid seqno payload) = pid \<and>
    half_at 6 (echo_packet pid seqno payload) = seqno"
proof -
  have ck: "in_cksum ([ICMP_ECHO, 0] @ bytes16 (in_cksum ([ICMP_ECHO, 0] @ [0, 0] @
      (bytes16 pid @ bytes16 seqno @ payload))) @ (bytes16 pid @ bytes16 seqno @ payload)) = 0"
    by (rule in_cksum_zero) (use assms in simp_all)
  have "bytes16 0 = [0, 0]" by (simp add: bytes16_def)
  with ck have "in_cksum (echo_packet pid seqno payload) = 0"
    by (simp add: echo_packet_def Let_def)
  moreover have "half_at 4 (echo_packet pid seqno payload) = pid"
    "half_at 6 (echo_packet pid seqno payload) = seqno"
    by (simp_all add: echo_packet_def Let_def half_at_def byte_at_def bytes16_def)
  ultimately show ?thesis by simp
qed

theorem echo_packet_verifies_witness:
  "in_cksum (echo_packet 4711 1 (echo_data 56 (100, 5))) = 0"
  using echo_packet_verifies [of "echo_data 56 (100, 5)" 4711 1] by (simp add: echo_data_def)

text \<open>An echo reply: an IP header with options or not, and the request's fields and data sent back
  with type 0 and another checksum.\<close>

definition echo_reply :: "byte list \<Rightarrow> u16 \<Rightarrow> u16 \<Rightarrow> u16 \<Rightarrow> byte list \<Rightarrow> byte list" where
  "echo_reply ip ck pid seqno payload = ip @ [0, 0] @ bytes16 ck @ bytes16 pid @ bytes16 seqno @ payload"

definition ip_header :: "byte list \<Rightarrow> bool" where
  "ip_header ip \<longleftrightarrow> 20 \<le> length ip \<and> ip_hlen ip = length ip \<and> ip_p ip = IPPROTO_ICMP"

lemma byte_at_append: "i < length xs \<Longrightarrow> byte_at i (xs @ ys) = byte_at i xs"
  by (simp add: byte_at_def nth_append)

text \<open>(C17) \<open>proc_v4\<close> prints one line for a reply to one of our requests, with the number of bytes,
  the sequence number, the time to live and the time since the request was sent, to the
  microsecond, whatever follows the datagram in the receive buffer; a reply with another
  identifier it ignores.\<close>

theorem proc_v4_reports_reply:
  assumes "ip_header ip" and "time_ok tvsend" and "time_ok tvrecv" and "16 \<le> p_datalen p"
    and pkt: "pkt = echo_reply ip ck pid seqno (echo_data (p_datalen p) tvsend)"
  shows "proc_v4 p (pkt @ stale) (length pkt) tvrecv (Sin port a) w =
    (if pid = p_pid p then
       (Inr (), w\<lparr>trace := trace w @ [Print ''%d bytes from %s: seq=%u, ttl=%d, rtt=%.3f ms''
          [8 + int (p_datalen p), uint seqno, int (ip_ttl ip), micros tvrecv - micros tvsend]]\<rparr>)
     else (Inr (), w))"
proof -
  let ?buf = "pkt @ stale"
  let ?icmp = "[0, 0] @ bytes16 ck @ bytes16 pid @ bytes16 seqno @ echo_data (p_datalen p) tvsend @ stale"
  have ip: "20 \<le> length ip" "ip_hlen ip = length ip" "ip_p ip = IPPROTO_ICMP"
    using assms(1) by (simp_all add: ip_header_def)
  have buf: "?buf = ip @ ?icmp"
    by (simp add: pkt echo_reply_def)
  have fields: "ip_hlen ?buf = length ip" "ip_p ?buf = IPPROTO_ICMP" "ip_ttl ?buf = ip_ttl ip"
  proof -
    have "byte_at i ?buf = byte_at i ip" if "i < 20" for i
      unfolding buf using ip(1) that by (intro byte_at_append) simp
    then show "ip_hlen ?buf = length ip" "ip_p ?buf = IPPROTO_ICMP" "ip_ttl ?buf = ip_ttl ip"
      using ip(2,3) by (simp_all add: ip_hlen_def ip_p_def ip_ttl_def)
  qed
  have "timeval_at (length ([0, 0] @ bytes16 ck @ bytes16 pid @ bytes16 seqno))
      (([0, 0] @ bytes16 ck @ bytes16 pid @ bytes16 seqno) @ timeval_bytes tvsend @
       replicate (p_datalen p - 16) 0xa5 @ stale) = tvsend"
    by (rule timeval_roundtrip) (rule assms(2))
  then have tv: "timeval_at 8 ?icmp = tvsend"
    by (simp add: echo_data_def)
  have rtt: "micros (tv_sub tvrecv tvsend) = micros tvrecv - micros tvsend"
    using assms(2,3) by (cases tvrecv, cases tvsend) (auto simp: time_ok_def tv_sub_def micros_def Let_def)
  have drop: "drop (length ip) ?buf = ?icmp" unfolding buf by simp
  have len: "int (length pkt) - int (length ip) = 8 + int (p_datalen p)"
    using assms(4) by (simp add: pkt echo_reply_def echo_data_def)
  have h: "byte_at 0 ?icmp = 0" "half_at 4 ?icmp = pid" "half_at 6 ?icmp = seqno"
    by (simp_all add: half_at_def byte_at_def bytes16_def)
  show ?thesis
    unfolding proc_v4_def Let_def fields drop len h tv rtt
    using assms(4) by (simp add: ICMP_ECHOREPLY_def andThen_apply Sock_ntop_host_def)
qed

theorem proc_v4_reports_reply_witness:
  "\<exists>w'. proc_v4 \<lparr>p_sockfd = 3, p_pid = 7, p_nsent = 1, p_verbose = False, p_datalen = 56,
        p_sasend = Sin 0 1, p_salen = 16\<rparr>
      (echo_reply ([69, 0, 0, 0, 0, 0, 0, 0, 64, 1, 0, 0, 0, 0, 0, 0, 0, 0, 0, 0]) 0 7 1 (echo_data 56 (10, 500)) @ [9])
      84 (10, 900) (Sin 0 1) (start []) = (Inr (), w') \<and>
     trace w' = [Print ''%d bytes from %s: seq=%u, ttl=%d, rtt=%.3f ms'' [64, 1, 64, 400]]"
proof -
  let ?ip = "[69, 0, 0, 0, 0, 0, 0, 0, 64, 1, 0, 0, 0, 0, 0, 0, 0, 0, 0, 0] :: byte list"
  have ip: "ip_header ?ip"
    by (simp add: ip_header_def ip_hlen_def ip_p_def byte_at_def IPPROTO_ICMP_def)
  have ttl: "ip_ttl ?ip = 64"
    by (simp add: ip_ttl_def byte_at_def)
  have len: "length (echo_reply ?ip 0 7 1 (echo_data 56 (10, 500))) = 84"
    by (simp add: echo_reply_def echo_data_def)
  show ?thesis
    using proc_v4_reports_reply [OF ip, of "(10, 500)" "(10, 900)" "\<lparr>p_sockfd = 3, p_pid = 7, p_nsent = 1,
        p_verbose = False, p_datalen = 56, p_sasend = Sin 0 1, p_salen = 16\<rparr>" _ 0 7 1 "[9]" 0 1 "start []",
        OF _ _ _ refl]
    unfolding ttl by (simp add: len [simplified] time_ok_def micros_def)
qed

section \<open>Requests and replies of IPv6\<close>

text \<open>The kernel lets a type through when its bit is clear.\<close>

definition filter_blocks :: "u32 list \<Rightarrow> nat \<Rightarrow> bool" where
  "filter_blocks filt type \<longleftrightarrow> bit (filt ! (type div 32)) (type mod 32)"

lemma length_filter_pass [simp]: "length (filter_pass t filt) = length filt"
  by (simp add: filter_pass_def)

lemma filter_blocks_pass:
  assumes "type < 256" and "length filt = 8"
  shows "filter_blocks (filter_pass t filt) type \<longleftrightarrow> filter_blocks filt type \<and> type \<noteq> t"
proof (cases "type div 32 = t div 32")
  case True
  then have "type \<noteq> t \<longleftrightarrow> type mod 32 \<noteq> t mod 32"
    by (metis div_mult_mod_eq)
  moreover have "t div 32 < length filt" using assms True by auto
  ultimately show ?thesis
    by (auto simp: filter_blocks_def filter_pass_def True bit_simps)
next
  case False
  then show ?thesis by (auto simp: filter_blocks_def filter_pass_def)
qed

text \<open>The filter that \<open>init_v6\<close> installs, and that of the IPv6 \<open>traceroute\<close>, block every type but
  those it is made for.\<close>

lemma icmp6_filter_blocks:
  assumes "type < 256"
  shows "filter_blocks (icmp6_filter types) type \<longleftrightarrow> type \<notin> set types"
proof -
  have "filter_blocks (fold filter_pass ts filt) type \<longleftrightarrow> filter_blocks filt type \<and> type \<notin> set ts"
    if "length filt = 8" for ts filt
    using that
    by (induction ts arbitrary: filt) (auto simp: filter_blocks_pass [OF assms])
  moreover have "filter_blocks (replicate 8 (- 1)) type"
    using assms by (simp add: filter_blocks_def)
  ultimately show ?thesis
    by (simp add: icmp6_filter_def)
qed

lemma timeval_at_8: "time_ok tv \<Longrightarrow> length pre = 8 \<Longrightarrow> timeval_at 8 (pre @ timeval_bytes tv @ post) = tv"
  using timeval_roundtrip [of tv pre post] by simp

definition echo6_reply :: "u16 \<Rightarrow> u16 \<Rightarrow> u16 \<Rightarrow> byte list \<Rightarrow> byte list" where
  "echo6_reply ck pid seqno payload = [129, 0] @ bytes16 ck @ bytes16 pid @ bytes16 seqno @ payload"

text \<open>\<open>proc_v6\<close> prints the line of a reply to one of our requests, with the hop limit of the first
  control message that has it and \<open>???\<close> when none has, and the time since the request was sent.\<close>

theorem proc_v6_reports_reply:
  assumes "time_ok tvsend" and "time_ok tvrecv" and "16 \<le> p_datalen p"
    and pkt: "pkt = echo6_reply ck pid seqno (echo_data (p_datalen p) tvsend)"
  shows "proc_v6 ntop6 p (pkt @ stale) (length pkt) msg tvrecv (Sin6 port a) w =
    (if pid = p_pid p then
       (Inr (), w\<lparr>trace := trace w @
         [Print ''%d bytes from %s: seq=%u, hlim='' [8 + int (p_datalen p), uint seqno],
          if hop_limit msg = -1 then Print ''???'' [] else Print ''%d'' [hop_limit msg],
          Print '', rtt=%.3f ms'' [micros tvrecv - micros tvsend]]\<rparr>)
     else (Inr (), w))"
proof -
  let ?hd = "[129, 0] @ bytes16 ck @ bytes16 pid @ bytes16 seqno"
  have buf: "pkt @ stale = ?hd @ timeval_bytes tvsend @ replicate (p_datalen p - 16) 0xa5 @ stale"
    by (simp add: pkt echo6_reply_def echo_data_def)
  have tv: "timeval_at 8 (pkt @ stale) = tvsend"
    unfolding buf using assms(1) by (intro timeval_at_8) simp_all
  have h: "unat (byte_at 0 (pkt @ stale)) = ICMP6_ECHO_REPLY" "half_at 4 (pkt @ stale) = pid" "half_at 6 (pkt @ stale) = seqno"
    unfolding buf by (simp_all add: half_at_def byte_at_def bytes16_def ICMP6_ECHO_REPLY_def)
  have len: "length pkt = 8 + p_datalen p"
    using assms(3) by (simp add: pkt echo6_reply_def echo_data_def)
  have rtt: "micros (tv_sub tvrecv tvsend) = micros tvrecv - micros tvsend"
    using assms(1,2) by (cases tvrecv, cases tvsend) (auto simp: time_ok_def tv_sub_def micros_def Let_def)
  show ?thesis
    unfolding proc_v6_def Let_def tv h len rtt
    using assms(3) by (simp add: andThen_apply Sock_ntop_host_def)
qed

theorem proc_v6_reports_reply_witness:
  "\<exists>w'. proc_v6 (\<lambda>_. []) \<lparr>p_sockfd = 3, p_pid = 7, p_nsent = 1, p_verbose = False, p_datalen = 16,
        p_sasend = Sin6 0 (replicate 16 0), p_salen = 28\<rparr>
      (echo6_reply 0 7 1 (echo_data 16 (10, 500)) @ [9]) 24 [(41, 50, 3), (41, 52, 64), (41, 52, 1)] (10, 900)
      (Sin6 0 (replicate 16 0)) (start []) = (Inr (), w') \<and>
     trace w' = [Print ''%d bytes from %s: seq=%u, hlim='' [24, 1], Print ''%d'' [64], Print '', rtt=%.3f ms'' [400]]"
  using proc_v6_reports_reply [of "(10, 500)" "(10, 900)" "\<lparr>p_sockfd = 3, p_pid = 7, p_nsent = 1,
      p_verbose = False, p_datalen = 16, p_sasend = Sin6 0 (replicate 16 0), p_salen = 28\<rparr>" _ 0 7 1 "\<lambda>_. []" "[9]"
      "[(41, 50, 3), (41, 52, 64), (41, 52, 1)]" 0 "replicate 16 0" "start []", OF _ _ _ refl]
  by (simp add: echo6_reply_def echo_data_def time_ok_def micros_def IPPROTO_IPV6_def IPV6_HOPLIMIT_def)

end
