(* ===== verification/Traceroute.thy ===== *)
theory Traceroute
  imports Ping
begin

text \<open>
  \<open>traceroute/main.cpp\<close> and \<open>traceroute/trace.h\<close>: probes sent with a growing time to live, and the
  ICMP errors they provoke. \<open>recv_v4\<close> and \<open>recv_v6\<close> wait for the error that quotes the probe they were
  called for. \<open>struct proto\<close> is a record of the functions of a protocol; the locale \<open>trace_proto\<close> is what
  the loop over the probes needs of them, and both protocols meet it. \<open>main\<close> has the macro \<open>IPV6\<close> as a
  parameter: without it, as the program is built, only \<open>proto_v4\<close> exists. \<open>alarm\<close> bounds the wait: the handler sets \<open>gotalarm\<close>,
  while \<open>recvfrom\<close> is blocked, which is then answered with \<open>EINTR\<close>, or after it has returned
  (\<open>alarm_after\<close>); an alarm between the test of \<open>gotalarm\<close> and \<open>recvfrom\<close>, after which nothing ends the
  wait, is not modelled. The receive buffer is a global array that keeps what earlier
  datagrams left; the local variables \<open>hip\<close> and \<open>hlen2\<close> have no value before they are
  assigned, and reading them then is undefined.
\<close>

definition ICMP_TIMXCEED :: nat where "ICMP_TIMXCEED = 11"
definition ICMP_TIMXCEED_INTRANS :: nat where "ICMP_TIMXCEED_INTRANS = 0"
definition ICMP_UNREACH :: nat where "ICMP_UNREACH = 3"
definition ICMP_UNREACH_PORT :: nat where "ICMP_UNREACH_PORT = 3"
definition RBUF :: nat where "RBUF = 1500"

definition icmpcode_v4 :: "int \<Rightarrow> string" where
  "icmpcode_v4 code =
     (if code = 0 then ''network unreachable''
      else if code = 1 then ''host unreachable''
      else if code = 2 then ''protocol unreachable''
      else if code = 3 then ''port unreachable''
      else if code = 4 then ''fragmentation required but DF bit set''
      else if code = 5 then ''source route failed''
      else if code = 6 then ''destination network unknown''
      else if code = 7 then ''destination host unknown''
      else if code = 8 then ''source host isolated (obsolete)''
      else if code = 9 then ''destination network administratively prohibited''
      else if code = 10 then ''destination host administratively prohibited''
      else if code = 11 then ''network unreachable for TOS''
      else if code = 12 then ''host unreachable for TOS''
      else if code = 13 then ''communication administratively prohibited by filtering''
      else if code = 14 then ''host recedence violation''
      else if code = 15 then ''precedence cutoff in effect''
      else ''[unknown code '' @ dec_int code @ '']'')"

record tracer =
  t_sendfd :: int
  t_recvfd :: int
  t_sport :: u16
  t_dport :: u16
  t_verbose :: bool
  t_recvbuf :: "byte list"
  t_sarecv :: sockaddr
  t_salast :: sockaddr
  t_sasend :: sockaddr
  t_salen :: nat

text \<open>The datagram quoted at offset \<open>quoted\<close> (an IP header of \<open>hlen2\<close> bytes, then the ports) is
  the probe with number \<open>seq\<close>.\<close>

definition quotes_probe :: "tracer \<Rightarrow> int \<Rightarrow> byte list \<Rightarrow> nat \<Rightarrow> nat \<Rightarrow> bool" where
  "quotes_probe t seqno buf hip udp \<longleftrightarrow>
     ip_p (drop hip buf) = IPPROTO_UDP \<and>
     half_at 0 (drop udp buf) = htons (t_sport t) \<and>
     half_at 2 (drop udp buf) = htons (t_dport t + word_of_int seqno)"

text \<open>One datagram in the buffer: \<open>Inl (h, msg)\<close> goes on to the next with the variables \<open>hip\<close> and
  \<open>hlen2\<close> as they are now, \<open>msg\<close> telling whether the \<open>verbose\<close> line at the end of the loop body
  is reached; \<open>Inr ret\<close> leaves the loop.\<close>

definition classify ::
  "tracer \<Rightarrow> int \<Rightarrow> byte list \<Rightarrow> nat \<Rightarrow> (nat \<times> nat) option \<Rightarrow>
     stop + ((nat \<times> nat) option \<times> bool + int)" where
  "classify t seqno buf n h =
     (let hlen1 = ip_hlen buf; icmp = drop hlen1 buf; icmplen = int n - int hlen1;
          type = unat (byte_at 0 icmp); code = unat (byte_at 1 icmp)
      in if icmplen < 8 then Inr (Inl (h, False))
         else if type = ICMP_TIMXCEED \<and> code = ICMP_TIMXCEED_INTRANS then
           (if icmplen < 8 + 20 then Inr (Inl (h, False))
            else
              let hip = hlen1 + 8; hlen2 = ip_hlen (drop hip buf); h = Some (hip, hlen2)
              in if icmplen < 8 + int hlen2 + 4 then Inr (Inl (h, False))
                 else if quotes_probe t seqno buf hip (hlen1 + 8 + hlen2) then Inr (Inr (-2))
                 else Inr (Inl (h, True)))
         else if type = ICMP_UNREACH then
           (case h of
              None \<Rightarrow> Inl (Undef ''hlen2'')
            | Some (hip, hlen2) \<Rightarrow>
                if icmplen < 8 + int hlen2 + 4 then Inr (Inl (h, False))
                else if quotes_probe t seqno buf hip (hlen1 + 8 + hlen2) then
                  Inr (Inr (if code = ICMP_UNREACH_PORT then -1 else int code))
                else Inr (Inl (h, True)))
         else Inr (Inl (h, True)))"

text \<open>The loop: \<open>gotalarm\<close>, the tracer (its buffer and the sender's address change), \<open>hip\<close> and
  \<open>hlen2\<close>.\<close>

definition recv_round ::
  "int \<Rightarrow> bool \<times> tracer \<times> (nat \<times> nat) option \<Rightarrow>
     (world, (bool \<times> tracer \<times> (nat \<times> nat) option) + int \<times> tracer) prog" where
  "recv_round seqno = (\<lambda>(gotalarm, t, h).
     if gotalarm then leave (-3, t)
     else andThen (sys (C_recvfrom (t_recvfd t) RBUF 0)) (\<lambda>r. andThen get_errno (\<lambda>errno.
       if r_val r < 0 then
         (if errno = EINTR then again (True, t, h) else err_sys ''recvfrom error'')
       else
         let bs = got RBUF r;
             t = t\<lparr>t_recvbuf := bs @ drop (length bs) (t_recvbuf t), t_sarecv := r_addr r\<rparr>;
             icmp = drop (ip_hlen (t_recvbuf t)) (t_recvbuf t)
         in case classify t seqno (t_recvbuf t) (length bs) h of
              Inl e \<Rightarrow> halt e
            | Inr (Inr code) \<Rightarrow> leave (code, t)
            | Inr (Inl (h, msg)) \<Rightarrow>
                seq (only_if (msg \<and> t_verbose t)
                    (seq (Sock_ntop_host False (\<lambda>_. []) (t_sarecv t) (t_salen t))
                      (print '' (from %s:type=%d, code= %d)''
                        [uint (byte_at 0 icmp), uint (byte_at 1 icmp)])))
                  (again (alarm_after r, t, h)))))"

definition recv_v4 :: "int \<Rightarrow> tracer \<Rightarrow> (world, int \<times> (int \<times> int) option \<times> tracer) prog" where
  "recv_v4 seqno t =
     seq (sys (C_alarm 3))
     (andThen (loop (recv_round seqno) (False, t, None)) (\<lambda>(code, t).
       if code = -3 then ret (-3, None, t)
       else seq (sys (C_alarm 0)) (andThen Gettimeofday (\<lambda>tv. ret (code, Some tv, t)))))"

section \<open>The errors of IPv6\<close>

text \<open>The bodies under \<open>#ifdef IPV6\<close>. Two names in them do not exist, and the model reads
  \<open>ICMP_TIME_EXCEED_TRANSIT\<close> as \<open>ICMP6_TIME_EXCEED_TRANSIT\<close> and \<open>icmp6 > icmp6_code\<close> as
  \<open>icmp6->icmp6_code\<close>. The braces are as they are: the test for \<open>ICMP6_DST_UNREACH\<close> stands inside the
  branch of \<open>ICMP6_TIME_EXCEEDED\<close>. A raw ICMPv6 socket gives no IPv6 header; the quoted one has 40 bytes.\<close>

definition ICMP6_TIME_EXCEEDED :: nat where "ICMP6_TIME_EXCEEDED = 3"
definition ICMP6_TIME_EXCEED_TRANSIT :: nat where "ICMP6_TIME_EXCEED_TRANSIT = 0"
definition ICMP6_DST_UNREACH :: nat where "ICMP6_DST_UNREACH = 1"
definition ICMP6_DST_UNREACH_NOPORT :: nat where "ICMP6_DST_UNREACH_NOPORT = 4"
definition IPV6_UNICAST_HOPS :: int where "IPV6_UNICAST_HOPS = 16"

definition icmpcode_v6 :: "int \<Rightarrow> string" where
  "icmpcode_v6 code =
     (if code = 0 then ''no route to host''
      else if code = 1 then ''adminsitratively prohibited''
      else if code = 2 then ''not a neighbor''
      else if code = 3 then ''address unreachable''
      else if code = 4 then ''port unreachable''
      else ''[unknown code '' @ dec_int code @ '']'')"

definition quotes6 :: "tracer \<Rightarrow> int \<Rightarrow> byte list \<Rightarrow> bool" where
  "quotes6 t seqno buf \<longleftrightarrow>
     unat (byte_at (8 + 6) buf) = IPPROTO_UDP \<and>
     half_at (8 + 40) buf = htons (t_sport t) \<and>
     half_at (8 + 40 + 2) buf = htons (t_dport t + word_of_int seqno)"

text \<open>\<open>Inl msg\<close> goes on to the next datagram; \<open>Inr (ret, timed)\<close> leaves the loop, and when \<open>timed\<close> is
  false also the function, without the time.\<close>

definition classify6 :: "tracer \<Rightarrow> int \<Rightarrow> byte list \<Rightarrow> nat \<Rightarrow> bool + int \<times> bool" where
  "classify6 t seqno buf n =
     (let type = unat (byte_at 0 buf); code = unat (byte_at 1 buf)
      in if n < 8 then Inl False
         else if type = ICMP6_TIME_EXCEEDED \<and> code = ICMP6_TIME_EXCEED_TRANSIT then
           (if n < 8 + 40 + 4 then Inl False
            else if quotes6 t seqno buf then Inr (-2, True)
            else if type = ICMP6_DST_UNREACH then
              (if n < 8 + 40 + 4 then Inl False
               else if quotes6 t seqno buf then
                 (if code = ICMP6_DST_UNREACH_NOPORT then Inr (-1, False) else Inr (int code, True))
               else Inl False)
            else Inl True)
         else Inl False)"

definition recv6_round ::
  "(byte list \<Rightarrow> string) \<Rightarrow> int \<Rightarrow> bool \<times> tracer \<Rightarrow> (world, (bool \<times> tracer) + (int \<times> bool) \<times> tracer) prog" where
  "recv6_round ntop6 seqno = (\<lambda>(gotalarm, t).
     if gotalarm then leave ((-3, False), t)
     else andThen (sys (C_recvfrom (t_recvfd t) RBUF 0)) (\<lambda>r. andThen get_errno (\<lambda>errno.
       if r_val r < 0 then
         (if errno = EINTR then again (True, t) else err_sys ''recvfrom error'')
       else
         let bs = got RBUF r;
             t = t\<lparr>t_recvbuf := bs @ drop (length bs) (t_recvbuf t), t_sarecv := r_addr r\<rparr>
         in case classify6 t seqno (t_recvbuf t) (length bs) of
              Inr res \<Rightarrow> leave (res, t)
            | Inl msg \<Rightarrow>
                seq (only_if (msg \<and> t_verbose t)
                    (seq (Sock_ntop_host True ntop6 (t_sarecv t) (t_salen t))
                      (print '' (from %s:type=%d, code= %d)''
                        [uint (byte_at 0 (t_recvbuf t)), uint (byte_at 1 (t_recvbuf t))])))
                  (again (alarm_after r, t)))))"

definition recv_v6 ::
  "(byte list \<Rightarrow> string) \<Rightarrow> int \<Rightarrow> tracer \<Rightarrow> (world, int \<times> (int \<times> int) option \<times> tracer) prog" where
  "recv_v6 ntop6 seqno t =
     seq (sys (C_alarm 3))
     (andThen (loop (recv6_round ntop6 seqno) (False, t)) (\<lambda>((code, timed), t).
       if \<not> timed then ret (code, None, t)
       else seq (sys (C_alarm 0)) (andThen Gettimeofday (\<lambda>tv. ret (code, Some tv, t)))))"

section \<open>The protocols and the probes\<close>

definition IPPROTO_IP :: int where "IPPROTO_IP = 0"
definition IP_TTL :: int where "IP_TTL = 2"
definition nprobes :: nat where "nprobes = 3"

record tproto =
  tp_icmpcode :: "int \<Rightarrow> string"
  tp_recv :: "int \<Rightarrow> tracer \<Rightarrow> (world, int \<times> (int \<times> int) option \<times> tracer) prog"
  tp_icmpproto :: int
  tp_ttllevel :: int
  tp_ttloptname :: int

definition tproto_v4 :: tproto where
  "tproto_v4 = \<lparr>tp_icmpcode = icmpcode_v4, tp_recv = recv_v4, tp_icmpproto = int IPPROTO_ICMP,
     tp_ttllevel = IPPROTO_IP, tp_ttloptname = IP_TTL\<rparr>"

definition tproto_v6 :: "(byte list \<Rightarrow> string) \<Rightarrow> tproto" where
  "tproto_v6 ntop6 = \<lparr>tp_icmpcode = icmpcode_v6, tp_recv = recv_v6 ntop6, tp_icmpproto = IPPROTO_ICMPV6,
     tp_ttllevel = IPPROTO_IPV6, tp_ttloptname = IPV6_UNICAST_HOPS\<rparr>"

text \<open>One probe: \<open>struct rec\<close> is two 16-bit numbers, padding and the time. The state is the tracer,
  \<open>seq\<close>, \<open>done\<close> and \<open>tvrecv\<close>, which has no value before the first error is received; \<open>tv_sub\<close>
  leaves the difference in it.\<close>

type_synonym probing = "tracer \<times> int \<times> int \<times> (int \<times> int) option"

definition probe_bytes :: "int \<Rightarrow> int \<Rightarrow> int \<times> int \<Rightarrow> byte list" where
  "probe_bytes seqno ttl tv =
     bytes16 (word_of_int seqno) @ bytes16 (word_of_int ttl) @ [0, 0, 0, 0] @ timeval_bytes tv"

definition show_hop ::
  "bool \<Rightarrow> (byte list \<Rightarrow> string) \<Rightarrow> (int \<Rightarrow> string) \<Rightarrow> int \<Rightarrow> int \<times> int \<Rightarrow> tracer \<Rightarrow> (world, tracer) prog" where
  "show_hop ipv6 ntop6 icmpcode code elapsed t =
     andThen
       (if sock_cmp_addr ipv6 (t_sarecv t) (t_salast t) \<noteq> 0 then
          andThen (sys_int (C_lib ''getnameinfo'' [] [])) (\<lambda>n.
            seq (Sock_ntop_host ipv6 ntop6 (t_sarecv t) (t_salen t))
           (seq (print (if n = 0 then '' %s (%s) '' else '' %s'') [])
             (ret (t\<lparr>t_salast := t_sarecv t\<rparr>))))
        else ret t) (\<lambda>t.
     seq (print ''    %3.f ms'' [micros elapsed])
    (seq (only_if (0 \<le> code) (print ('' (ICMP '' @ icmpcode code @ '')'') []))
      (ret t)))"

definition probe :: "bool \<Rightarrow> (byte list \<Rightarrow> string) \<Rightarrow> tproto \<Rightarrow> int \<Rightarrow> probing \<Rightarrow> (world, probing) prog" where
  "probe ipv6 ntop6 pr ttl = (\<lambda>(t, seqno, finished, tvrecv).
     let seqno = seqno + 1
     in andThen Gettimeofday (\<lambda>tvsend.
       let t = t\<lparr>t_sasend := sock_set_port ipv6 (t_sasend t)
              (uint (htons (t_dport t + word_of_int seqno)))\<rparr>
       in seq (Sendto (t_sendfd t) (probe_bytes seqno ttl tvsend) 0 (t_sasend t))
         (andThen (tp_recv pr seqno t) (\<lambda>(code, tv, t).
          let tvrecv = (case tv of None \<Rightarrow> tvrecv | Some now \<Rightarrow> Some now)
          in if code = -3 then seq (print '' *'' []) (ret (t, seqno, finished, tvrecv))
             else case tvrecv of
               None \<Rightarrow> halt (Undef ''tvrecv'')
             | Some now \<Rightarrow>
                 let elapsed = tv_sub now tvsend
                 in andThen (show_hop ipv6 ntop6 (tp_icmpcode pr) code elapsed t) (\<lambda>t.
                   ret (t, seqno, if code = -1 then finished + 1 else finished, Some elapsed))))))"

fun probes ::
  "bool \<Rightarrow> (byte list \<Rightarrow> string) \<Rightarrow> tproto \<Rightarrow> nat \<Rightarrow> int \<Rightarrow> probing \<Rightarrow> (world, probing) prog" where
  "probes ipv6 ntop6 pr 0 ttl s = ret s"
| "probes ipv6 ntop6 pr (Suc k) ttl s = andThen (probe ipv6 ntop6 pr ttl s) (\<lambda>s. probes ipv6 ntop6 pr k ttl s)"

text \<open>The loop over the time to live, with \<open>k = max_ttl - ttl + 1\<close> rounds left.\<close>

fun hops :: "bool \<Rightarrow> (byte list \<Rightarrow> string) \<Rightarrow> tproto \<Rightarrow> nat \<Rightarrow> int \<Rightarrow> probing \<Rightarrow> (world, unit) prog" where
  "hops ipv6 ntop6 pr 0 ttl s = ret ()"
| "hops ipv6 ntop6 pr (Suc k) ttl (t, seqno, finished, tvrecv) =
     (if finished \<noteq> 0 then ret ()
      else seq (Setsockopt (t_sendfd t) (tp_ttllevel pr) (tp_ttloptname pr) [ttl])
       (seq (print ''%2d '' [ttl])
       (andThen (probes ipv6 ntop6 pr nprobes ttl (t\<lparr>t_salast := Sother 0\<rparr>, seqno, finished, tvrecv)) (\<lambda>s.
         seq (print [CHR 0x0A] []) (hops ipv6 ntop6 pr k (ttl + 1) s)))))"

definition wild_addr :: "int \<Rightarrow> sockaddr" where
  "wild_addr family = (if family = AF_INET6 then Sin6 0 (replicate 16 0) else Sin 0 0)"

definition traceloop :: "bool \<Rightarrow> (byte list \<Rightarrow> string) \<Rightarrow> tproto \<Rightarrow> nat \<Rightarrow> tracer \<Rightarrow> (world, unit) prog" where
  "traceloop ipv6 ntop6 pr max_ttl t =
     andThen (Socket (sa_family (t_sasend t)) SOCK_RAW (tp_icmpproto pr)) (\<lambda>recvfd.
     seq (sys (C_lib ''setuid'' [] []))
     (seq (only_if (ipv6 \<and> sa_family (t_sasend t) = AF_INET6 \<and> \<not> t_verbose t)
       (seq (sys (C_setsockopt recvfd IPPROTO_IPV6 ICMP6_FILTER
           (map uint (icmp6_filter [ICMP6_TIME_EXCEEDED, ICMP6_DST_UNREACH]))))
         (ret ())))
     (andThen (Socket (sa_family (t_sasend t)) SOCK_DGRAM 0) (\<lambda>sendfd.
     andThen (sys_int (C_lib ''getpid'' [] [])) (\<lambda>getpid.
     let sport = word_of_int (getpid AND 0xffff) OR 0x8000;
         sabind = sock_set_port ipv6 (wild_addr (sa_family (t_sasend t))) (uint (htons sport))
     in seq (Bind sendfd sabind)
       (hops ipv6 ntop6 pr max_ttl 1
         (t\<lparr>t_recvfd := recvfd, t_sendfd := sendfd, t_sport := sport\<rparr>, 0, 0, None)))))))"

text \<open>\<open>main\<close>: options \<open>m\<close> (109, with its argument) and \<open>v\<close> (118). There is no \<open>break\<close> after the case
  of \<open>m\<close>, so that \<open>-m\<close> counts as \<open>-v\<close> too.\<close>

definition trace_option :: "int \<times> bool \<Rightarrow> (world, int \<times> bool + int \<times> bool \<times> int) prog" where
  "trace_option = (\<lambda>(max_ttl, verbose). andThen (sys (C_lib ''getopt'' [] (lit ''m:v''))) (\<lambda>r.
     if r_val r = -1 then leave (max_ttl, verbose, aux r 0)
     else if r_val r = 109 then
       (let max_ttl = atoi (r_data r)
        in if max_ttl \<le> 1 then err_quit ''invalid -m value'' else again (max_ttl, True))
     else if r_val r = 118 then again (max_ttl, True)
     else if r_val r = 63 then err_quit ''unrecognized option : %c''
     else again (max_ttl, verbose)))"

definition choose_tproto :: "bool \<Rightarrow> (byte list \<Rightarrow> string) \<Rightarrow> ai \<Rightarrow> (world, tproto) prog" where
  "choose_tproto ipv6 ntop6 ai =
     (if fst ai = AF_INET then ret tproto_v4
      else if ipv6 \<and> fst ai = AF_INET6 then
        (if v4_mapped (ai_addr ai) then err_quit ''can not traceroute IPV4-MAPPED ipV6 ADDRESS''
         else ret (tproto_v6 ntop6))
      else err_quit ''unknown address family %d'')"

definition trace_main :: "bool \<Rightarrow> (byte list \<Rightarrow> string) \<Rightarrow> byte list list \<Rightarrow> (world, unit) prog" where
  "trace_main ipv6 ntop6 argv =
     andThen (loop trace_option (30, False)) (\<lambda>(max_ttl, verbose, optind).
     if optind \<noteq> int (length argv) - 1 then err_quit ''usage:traceroute [ -m <maxttl> -v] <hostname>''
     else seq (sys (C_lib ''getpid'' [] []))
     (seq (Signal SIGALRM 1)
     (andThen (Host_serv (Some (argv ! nat optind)) None 0 0) (\<lambda>ais. case ais of
         [] \<Rightarrow> halt (Undef ''ai'')
       | ai # _ \<Rightarrow>
         seq (Sock_ntop_host ipv6 ntop6 (ai_addr ai) (sa_len (ai_addr ai)))
        (seq (print ''traceroute to %s(%s):%d hops max, %d data bytes'' [max_ttl, 24])
        (andThen (choose_tproto ipv6 ntop6 ai) (\<lambda>pr.
           seq (Calloc 1 (int (sa_len (ai_addr ai))))
          (seq (Calloc 1 (int (sa_len (ai_addr ai))))
          (seq (Calloc 1 (int (sa_len (ai_addr ai))))
          (seq (traceloop ipv6 ntop6 pr (nat max_ttl)
                 \<lparr>t_sendfd = 0, t_recvfd = 0, t_sport = 0, t_dport = 32768 + 666, t_verbose = verbose,
                   t_recvbuf = replicate RBUF 0, t_sarecv = Sother 0, t_salast = Sother 0,
                   t_sasend = ai_addr ai, t_salen = sa_len (ai_addr ai)\<rparr>)
            (halt (Exit 0 []))))))))))))"

lemma round_eats:
  "eats repeats (recv_round seqno x)" "eats repeats (recv6_round ntop6 seqno y)" "eats repeats (trace_option z)"
  unfolding recv_round_def recv6_round_def trace_option_def Let_def
  by (cases x, cases y, cases z; auto intro!: eats_intros eats_first lawful_intros split: sum.split)+

interpretation recv_c: consuming "recv_round seqno" for seqno
  by unfold_locales (rule round_eats)

interpretation recv6_c: consuming "recv6_round ntop6 seqno" for ntop6 seqno
  by unfold_locales (rule round_eats)

interpretation trace_option_c: consuming trace_option
  by unfold_locales (rule round_eats)

lemma lawful_trace_rounds [lawful_intros]:
  "lawful (recv_round seqno x)" "lawful (recv6_round ntop6 seqno y)" "lawful (trace_option z)"
  unfolding recv_round_def recv6_round_def trace_option_def Let_def
  by (cases x, cases y, cases z; auto intro!: lawful_intros split: sum.split)+

lemma lawful_recv [lawful_intros]: "lawful (recv_v4 seqno t)" "lawful (recv_v6 ntop6 seqno t)"
  unfolding recv_v4_def recv_v6_def
  by (auto intro!: lawful_intros recv_c.loop_lawful recv6_c.loop_lawful)

section \<open>What a reply means\<close>

lemma unat_and_15: "unat (b AND 15 :: byte) = unat b mod 16"
proof -
  have "b AND 15 = take_bit 4 b" by (simp add: take_bit_eq_mask mask_eq_exp_minus_1)
  then have "unat (b AND 15) = take_bit 4 (unat b)" by (simp add: unsigned_take_bit_eq)
  then show ?thesis by (simp add: take_bit_eq_mod)
qed

lemma unat_le16: "unat (le16 a b) = unat a + 256 * unat b"
proof -
  define x where "x = le16 a b"
  then have "a = ucast x" "b = ucast (drop_bit 8 x)"
    using bytes16_le16 [of a b] by (simp_all add: bytes16_def)
  moreover have "unat x < 65536"
    using unsigned_less [of x] by simp
  then have "unat x div 256 < 256" by (simp add: div_less_iff_less_mult)
  ultimately have "unat a = unat x mod 256" "unat b = unat x div 256"
    by (simp_all add: unsigned_ucast_eq unsigned_drop_bit_eq take_bit_eq_mod drop_bit_eq_div unat_div)
  then show ?thesis
    unfolding x_def [symmetric] by presburger
qed

text \<open>An ICMP error read off the datagram that brought it, byte by byte: the length of the IP header at
  offset \<open>i\<close> and a port in network byte order.\<close>

definition header_len :: "byte list \<Rightarrow> nat \<Rightarrow> nat" where
  "header_len bs i = 4 * (unat (bs ! i) mod 16)"

definition port_at :: "byte list \<Rightarrow> nat \<Rightarrow> nat" where
  "port_at bs i = 256 * unat (bs ! i) + unat (bs ! (i + 1))"

definition probe_ports :: "tracer \<Rightarrow> int \<Rightarrow> byte list \<Rightarrow> nat \<Rightarrow> bool" where
  "probe_ports t seqno bs i \<longleftrightarrow> i + 4 \<le> length bs \<and> port_at bs i = unat (t_sport t) \<and>
     port_at bs (i + 2) = unat (t_dport t + word_of_int seqno)"

text \<open>A time-exceeded error that quotes at least an IP header; where it quotes it; and one about the probe
  \<open>seqno\<close>: it quotes a UDP packet with the ports of this probe.\<close>

definition time_exceeded :: "byte list \<Rightarrow> bool" where
  "time_exceeded bs \<longleftrightarrow> header_len bs 0 + 28 \<le> length bs \<and> bs ! header_len bs 0 = 11 \<and> bs ! (header_len bs 0 + 1) = 0"

definition quote_at :: "byte list \<Rightarrow> nat" where
  "quote_at bs = header_len bs 0 + 8"

definition exceeded_for :: "tracer \<Rightarrow> int \<Rightarrow> byte list \<Rightarrow> bool" where
  "exceeded_for t seqno bs \<longleftrightarrow> time_exceeded bs \<and> bs ! (quote_at bs + 9) = 17 \<and>
     probe_ports t seqno bs (quote_at bs + header_len bs (quote_at bs))"

text \<open>A destination-unreachable error about the probe, when the quoted IP header is taken to start at \<open>H\<close> and
  to be \<open>L\<close> bytes long: the protocol is looked up at \<open>H\<close>, which may lie beyond the datagram, the
  ports \<open>L\<close> bytes behind the start of what this datagram quotes.\<close>

definition unreachable_for :: "tracer \<Rightarrow> int \<Rightarrow> nat \<Rightarrow> nat \<Rightarrow> byte list \<Rightarrow> bool" where
  "unreachable_for t seqno H L bs \<longleftrightarrow> header_len bs 0 + 8 \<le> length bs \<and> bs ! header_len bs 0 = 3 \<and>
     (H + 9 < length bs \<longrightarrow> bs ! (H + 9) = 17) \<and> probe_ports t seqno bs (quote_at bs + L)"

definition unreachable_code :: "byte list \<Rightarrow> int" where
  "unreachable_code bs = (if bs ! (header_len bs 0 + 1) = 3 then -1 else uint (bs ! (header_len bs 0 + 1)))"

lemma byte_at_drop: "byte_at k (drop i xs) = byte_at (i + k) xs"
  by (auto simp: byte_at_def)

lemma byte_at_received: "i < length bs \<Longrightarrow> byte_at i (bs @ rest) = bs ! i"
  by (simp add: byte_at_def nth_append)

lemmas byte_in = byte_at_drop byte_at_received

lemma ip_hlen_at: "i < length bs \<Longrightarrow> ip_hlen (drop i (bs @ rest)) = header_len bs i"
  by (simp add: ip_hlen_def header_len_def unat_and_15 byte_in del: drop_append)

lemma ip_p_at: "i + 9 < length bs \<Longrightarrow> ip_p (drop i (bs @ rest)) = unat (bs ! (i + 9))"
  by (simp add: ip_p_def byte_in del: drop_append)

lemma half_at_port:
  assumes "i + k + 2 \<le> length bs"
  shows "half_at k (drop i (bs @ rest)) = htons p \<longleftrightarrow> port_at bs (i + k) = unat p"
proof -
  have "half_at k (drop i (bs @ rest)) = le16 (bs ! (i + k)) (bs ! (i + k + 1))"
    using assms by (simp add: half_at_def byte_in del: drop_append)
  also have "\<dots> = htons p \<longleftrightarrow> le16 (bs ! (i + k + 1)) (bs ! (i + k)) = p"
    by (metis htons_le16 htons_htons)
  also have "\<dots> \<longleftrightarrow> port_at bs (i + k) = unat p"
    by (simp add: unat_le16 port_at_def word_unat_eq_iff add.commute)
  finally show ?thesis .
qed

lemma quotes_probe_iff:
  assumes "udp + 4 \<le> length bs"
  shows "quotes_probe t seqno (bs @ rest) hip udp \<longleftrightarrow>
    ip_p (drop hip (bs @ rest)) = 17 \<and> probe_ports t seqno bs udp"
  using half_at_port [of udp 0 bs rest] half_at_port [of udp 2 bs rest] assms
  by (simp add: quotes_probe_def probe_ports_def IPPROTO_UDP_def del: drop_append)

lemma unat_byte_eq: "unat (b :: byte) = 11 \<longleftrightarrow> b = 11" "unat (b :: byte) = 3 \<longleftrightarrow> b = 3"
  "unat (b :: byte) = 17 \<longleftrightarrow> b = 17"
  by (simp_all add: word_unat_eq_iff)

text \<open>What one datagram \<open>bs\<close> does: \<open>h\<close> are the offsets that an earlier one left.\<close>

lemma classify_short:
  assumes "length bs < header_len bs 0 + 8"
  shows "classify t seqno (bs @ rest) (length bs) h = Inr (Inl (h, False))"
  using assms ip_hlen_at [of 0 bs rest] by (cases bs) (simp_all add: classify_def Let_def)

lemma classify_at:
  assumes "header_len bs 0 + 8 \<le> length bs"
  shows "classify t seqno (bs @ rest) (length bs) h =
    (if bs ! header_len bs 0 = 11 \<and> bs ! (header_len bs 0 + 1) = 0 then
       (if length bs < quote_at bs + 20 then Inr (Inl (h, False))
        else if exceeded_for t seqno bs then Inr (Inr (-2))
        else Inr (Inl (Some (quote_at bs, header_len bs (quote_at bs)),
          quote_at bs + header_len bs (quote_at bs) + 4 \<le> length bs)))
     else if bs ! header_len bs 0 = 3 then
       (case h of
          None \<Rightarrow> Inl (Undef ''hlen2'')
        | Some (H, L) \<Rightarrow>
            if ip_p (drop H (bs @ rest)) = 17 \<and> probe_ports t seqno bs (quote_at bs + L) then Inr (Inr (unreachable_code bs))
            else Inr (Inl (h, quote_at bs + L + 4 \<le> length bs)))
     else Inr (Inl (h, True)))"
proof -
  let ?h = "header_len bs 0" and ?q = "header_len bs 0 + 8"
  have len: "ip_hlen (bs @ rest) = ?h"
    using ip_hlen_at [of 0 bs rest] assms by (cases bs) simp_all
  have type: "byte_at 0 (drop ?h (bs @ rest)) = bs ! ?h" "byte_at 1 (drop ?h (bs @ rest)) = bs ! (?h + 1)"
    using assms by (simp_all add: byte_in del: drop_append)
  have quote: "ip_hlen (drop ?q (bs @ rest)) = header_len bs ?q" "ip_p (drop ?q (bs @ rest)) = 17 \<longleftrightarrow> bs ! (?q + 9) = 17"
    if "?q + 20 \<le> length bs"
    using that by (simp_all add: ip_hlen_at ip_p_at unat_byte_eq del: drop_append)
  have small: "int (length bs) - int ?h < 8 + 20 \<longleftrightarrow> length bs < ?q + 20"
    "int (length bs) - int ?h < 8 + int L + 4 \<longleftrightarrow> \<not> ?q + L + 4 \<le> length bs" "\<not> int (length bs) - int ?h < 8" for L
    using assms by auto
  have num: "unat (bs ! ?h) = ICMP_TIMXCEED \<longleftrightarrow> bs ! ?h = 11" "unat (bs ! (?h + 1)) = ICMP_TIMXCEED_INTRANS \<longleftrightarrow> bs ! (?h + 1) = 0"
    "unat (bs ! ?h) = ICMP_UNREACH \<longleftrightarrow> bs ! ?h = 3" "unat (bs ! (?h + 1)) = ICMP_UNREACH_PORT \<longleftrightarrow> bs ! (?h + 1) = 3"
    by (simp_all add: ICMP_TIMXCEED_def ICMP_TIMXCEED_INTRANS_def ICMP_UNREACH_def ICMP_UNREACH_PORT_def unat_byte_eq unat_eq_0)
  have exc: "exceeded_for t seqno bs \<longleftrightarrow> bs ! (?q + 9) = 17 \<and> probe_ports t seqno bs (?q + header_len bs ?q)"
    if "bs ! ?h = 11" "bs ! (?h + 1) = 0" "\<not> length bs < ?q + 20"
    using that by (auto simp: exceeded_for_def time_exceeded_def quote_at_def)
  have far: "\<not> ?q + L + 4 \<le> length bs \<Longrightarrow> \<not> probe_ports t seqno bs (?q + L)" for L
    by (simp add: probe_ports_def)
  show ?thesis
    unfolding classify_def Let_def len type small num quote_at_def [of bs] if_False
    using quote exc far
    by (auto simp: quotes_probe_iff unreachable_code_def small split: option.split simp del: drop_append)
qed

text \<open>The responses to \<open>recvfrom\<close> in a trace, and those during or after which the alarm went off.\<close>

definition recvs :: "int \<Rightarrow> event list \<Rightarrow> resp list" where
  "recvs fd tr = concat (map (\<lambda>ev. case ev of Did c r \<Rightarrow> if c = C_recvfrom fd RBUF 0 then [r] else [] | _ \<Rightarrow> []) tr)"

lemma recvs_simps [simp]:
  "recvs fd [] = []" "recvs fd (tr @ tr') = recvs fd tr @ recvs fd tr'"
  "recvs fd (Did c r # tr) = (if c = C_recvfrom fd RBUF 0 then r # recvs fd tr else recvs fd tr)"
  "recvs fd (Print m args # tr) = recvs fd tr"
  by (simp_all add: recvs_def)

definition alarmed :: "resp \<Rightarrow> bool" where
  "alarmed r \<longleftrightarrow> r_val r < 0 \<and> r_errno r = EINTR \<or> alarm_after r"

text \<open>What the datagram of the last response \<open>r\<close> makes \<open>recv_v4\<close> return, when \<open>rs\<close> are the responses before it.\<close>

definition matched :: "tracer \<Rightarrow> int \<Rightarrow> resp list \<Rightarrow> resp \<Rightarrow> int \<Rightarrow> bool" where
  "matched t seqno rs r code \<longleftrightarrow> 0 \<le> r_val r \<and>
     (if exceeded_for t seqno (got RBUF r) then code = -2
      else code = unreachable_code (got RBUF r) \<and>
        (\<exists>q\<in>set rs. time_exceeded (got RBUF q) \<and>
           unreachable_for t seqno (quote_at (got RBUF q)) (header_len (got RBUF q) (quote_at (got RBUF q))) (got RBUF r)))"

text \<open>The loop has seen the responses \<open>rs\<close>: none of them was about the probe, at most the last brought the
  alarm, and the offsets are those of a time-exceeded error among them.\<close>

definition seen :: "tracer \<Rightarrow> int \<Rightarrow> resp list \<Rightarrow> bool \<times> tracer \<times> (nat \<times> nat) option \<Rightarrow> bool" where
  "seen t seqno rs = (\<lambda>(g, u, h). t_recvfd u = t_recvfd t \<and> t_sport u = t_sport t \<and> t_dport u = t_dport t \<and>
     (\<forall>r\<in>set rs. \<not> exceeded_for t seqno (got RBUF r)) \<and> (\<forall>r\<in>set (butlast rs). \<not> alarmed r) \<and>
     (g \<longleftrightarrow> rs \<noteq> [] \<and> alarmed (last rs)) \<and>
     (\<forall>H L. h = Some (H, L) \<longrightarrow> (\<exists>q\<in>set rs. time_exceeded (got RBUF q) \<and> H = quote_at (got RBUF q) \<and>
        L = header_len (got RBUF q) (quote_at (got RBUF q)))))"

lemma not_seen_before: "\<not> g \<Longrightarrow> seen t seqno rs (g, u, h) \<Longrightarrow> r \<in> set rs \<Longrightarrow> \<not> alarmed r"
  by (cases rs rule: rev_cases) (auto simp: seen_def)

lemma exceeded_for_ports:
  "t_sport u = t_sport t \<Longrightarrow> t_dport u = t_dport t \<Longrightarrow> exceeded_for u seqno bs = exceeded_for t seqno bs"
  "t_sport u = t_sport t \<Longrightarrow> t_dport u = t_dport t \<Longrightarrow> probe_ports u seqno bs i = probe_ports t seqno bs i"
  by (simp_all add: exceeded_for_def probe_ports_def)

lemma time_exceeded_iff:
  "time_exceeded bs \<longleftrightarrow> \<not> length bs < quote_at bs + 20 \<and> bs ! header_len bs 0 = 11 \<and> bs ! (header_len bs 0 + 1) = 0"
  by (auto simp: time_exceeded_def quote_at_def)

lemma exceeded_for_time: "exceeded_for t seqno bs \<Longrightarrow> time_exceeded bs"
  by (simp add: exceeded_for_def)

lemma classify_goes_on:
  assumes "classify u seqno (bs @ rest) (length bs) h = Inr (Inl (h', msg))"
  shows "\<not> exceeded_for u seqno bs \<and> (h' = h \<or> time_exceeded bs \<and> h' = Some (quote_at bs, header_len bs (quote_at bs)))"
proof (cases "header_len bs 0 + 8 \<le> length bs")
  case True
  show ?thesis
  proof (cases "time_exceeded bs")
    case t: True
    with assms show ?thesis
      unfolding classify_at [OF True] by (cases "exceeded_for u seqno bs") (simp_all add: time_exceeded_iff)
  next
    case False
    with assms exceeded_for_time [of u seqno bs] show ?thesis
      unfolding classify_at [OF True] time_exceeded_iff by (cases h) (auto split: if_split_asm)
  qed
next
  case False
  with assms classify_short [of bs u seqno rest h] show ?thesis
    by (auto simp: quote_at_def dest!: exceeded_for_time simp: time_exceeded_iff)
qed

lemma classify_leaves:
  assumes "classify u seqno (bs @ rest) (length bs) h = Inr (Inr code)"
  shows "exceeded_for u seqno bs \<and> code = -2 \<or> \<not> exceeded_for u seqno bs \<and> code = unreachable_code bs \<and>
    (\<exists>H L. h = Some (H, L) \<and> unreachable_for u seqno H L bs)"
proof (cases "header_len bs 0 + 8 \<le> length bs")
  case True
  show ?thesis
  proof (cases "bs ! header_len bs 0 = 11 \<and> bs ! (header_len bs 0 + 1) = 0")
    case t: True
    with assms show ?thesis
      unfolding classify_at [OF True] by (auto split: if_split_asm)
  next
    case False
    with assms obtain H L where h: "h = Some (H, L)" "bs ! header_len bs 0 = 3" "ip_p (drop H (bs @ rest)) = 17"
        "probe_ports u seqno bs (quote_at bs + L)" "code = unreachable_code bs"
      unfolding classify_at [OF True] by (auto split: if_split_asm option.split_asm simp del: drop_append)
    moreover from h(3) have "H + 9 < length bs \<longrightarrow> bs ! (H + 9) = 17"
      by (auto simp: ip_p_at unat_byte_eq simp del: drop_append)
    ultimately have "unreachable_for u seqno H L bs" using True by (simp add: unreachable_for_def)
    with h False exceeded_for_time [of u seqno bs] show ?thesis by (auto simp: time_exceeded_iff)
  qed
next
  case False
  with assms classify_short [of bs u seqno rest h] show ?thesis by simp
qed

text \<open>After the responses \<open>old @ rs @ [r]\<close> the loop is left with \<open>code\<close>.\<close>

definition left_with :: "tracer \<Rightarrow> int \<Rightarrow> resp list \<Rightarrow> int \<times> tracer \<Rightarrow> world \<Rightarrow> bool" where
  "left_with t seqno old = (\<lambda>(code, u) v. t_sport u = t_sport t \<and> t_dport u = t_dport t \<and>
     (\<exists>rs r. recvs (t_recvfd t) (trace v) = old @ rs @ [r] \<and> (\<forall>q\<in>set rs. \<not> alarmed q \<and> \<not> exceeded_for t seqno (got RBUF q)) \<and>
        (if code = -3 then alarmed r \<and> \<not> exceeded_for t seqno (got RBUF r) else matched t seqno rs r code)))"

lemma unreachable_code_bounds: "-1 \<le> unreachable_code bs" "unreachable_code bs \<le> 255"
proof -
  have "-1 \<le> uint b" for b :: byte by (rule order_trans [of _ 0]) simp_all
  moreover have "uint b \<le> 255" for b :: byte using uint_bounded [of b] by simp
  ultimately show "-1 \<le> unreachable_code bs" "unreachable_code bs \<le> 255"
    by (simp_all add: unreachable_code_def)
qed

lemma seen_alarm:
  assumes "seen t seqno rs (True, u, h)" and "recvs (t_recvfd t) (trace w) = old @ rs"
  shows "left_with t seqno old (-3, u) w"
  using assms by (cases rs rule: rev_cases) (auto simp: seen_def left_with_def)

lemma seen_next:
  assumes "seen t seqno rs (False, u, h)" and "0 \<le> r_val r" and "buf = got RBUF r @ rest"
    and "classify (u\<lparr>t_recvbuf := buf, t_sarecv := sa\<rparr>) seqno buf (length (got RBUF r)) h = Inr (Inl (h', msg))"
  shows "seen t seqno (rs @ [r]) (alarm_after r, u\<lparr>t_recvbuf := buf, t_sarecv := sa\<rparr>, h')"
proof -
  let ?u = "u\<lparr>t_recvbuf := buf, t_sarecv := sa\<rparr>"
  have u: "t_sport ?u = t_sport t" "t_dport ?u = t_dport t" using assms(1) by (simp_all add: seen_def)
  from classify_goes_on [OF assms(4) [unfolded assms(3)]] exceeded_for_ports(1) [OF u]
  have "\<not> exceeded_for t seqno (got RBUF r)"
    and "h' = h \<or> time_exceeded (got RBUF r) \<and> h' = Some (quote_at (got RBUF r), header_len (got RBUF r) (quote_at (got RBUF r)))"
    unfolding assms(3) by auto
  moreover have "\<forall>q\<in>set rs. \<not> alarmed q" using not_seen_before [OF _ assms(1)] by blast
  ultimately show ?thesis using assms(1,2) by (auto simp: seen_def alarmed_def)
qed

lemma seen_match:
  assumes "seen t seqno rs (False, u, h)" and "0 \<le> r_val r" and "buf = got RBUF r @ rest"
    and "classify (u\<lparr>t_recvbuf := buf, t_sarecv := sa\<rparr>) seqno buf (length (got RBUF r)) h = Inr (Inr code)"
    and "recvs (t_recvfd t) (trace w) = old @ rs @ [r]"
  shows "left_with t seqno old (code, u\<lparr>t_recvbuf := buf, t_sarecv := sa\<rparr>) w"
proof -
  let ?u = "u\<lparr>t_recvbuf := buf, t_sarecv := sa\<rparr>" and ?bs = "got RBUF r"
  have u: "t_sport ?u = t_sport t" "t_dport ?u = t_dport t" using assms(1) by (simp_all add: seen_def)
  from classify_leaves [OF assms(4) [unfolded assms(3)]] exceeded_for_ports [OF u]
  have "exceeded_for t seqno ?bs \<and> code = -2 \<or> \<not> exceeded_for t seqno ?bs \<and> code = unreachable_code ?bs \<and>
      (\<exists>H L. h = Some (H, L) \<and> unreachable_for t seqno H L ?bs)"
    unfolding assms(3) by (simp add: unreachable_for_def)
  with assms(1,2) have m: "matched t seqno rs r code" by (force simp: matched_def seen_def)
  then have "code \<noteq> -3" using unreachable_code_bounds(1) [of ?bs] by (auto simp: matched_def split: if_split_asm)
  moreover have "\<forall>q\<in>set rs. \<not> alarmed q" using not_seen_before [OF _ assms(1)] by blast
  ultimately show ?thesis using m assms(1,5) u by (auto simp: left_with_def seen_def)
qed

lemma recv_round_wp:
  assumes "seen t seqno rs (g, u, h)" and "recvs (t_recvfd t) (trace w) = old @ rs"
  shows "wp (recv_round seqno (g, u, h))
    (\<lambda>z v. case z of Inl s \<Rightarrow> \<exists>rs. recvs (t_recvfd t) (trace v) = old @ rs \<and> seen t seqno rs s
       | Inr a \<Rightarrow> left_with t seqno old a v) (\<lambda>_ _. True) w"
proof (cases g)
  case True
  with seen_alarm assms show ?thesis unfolding recv_round_def by (auto intro!: wp_intros)
next
  case False
  with assms have s: "seen t seqno rs (False, u, h)" by simp
  have fd: "t_recvfd u = t_recvfd t" using s by (simp add: seen_def)
  have eintr: "seen t seqno (rs @ [r]) (True, u, h)" if "r_val r < 0" "r_errno r = EINTR" for r
    using s that not_seen_before [OF _ s]
    by (auto simp: seen_def alarmed_def exceeded_for_def time_exceeded_def got_def)
  show ?thesis
    unfolding recv_round_def Let_def using False assms(2) fd
    by (auto intro!: wp_intros eintr seen_next [OF s] seen_match [OF s] split: sum.split)
qed

lemma recv_v4_wp:
  "wp (recv_v4 seqno t) (\<lambda>(code, tv, u) v. (\<exists>v'. left_with t seqno (recvs (t_recvfd t) (trace w)) (code, u) v' \<and>
     (if code = -3 then tv = None \<and> trace v = trace v'
      else \<exists>ra rt. trace v = trace v' @ [Did (C_alarm 0) ra, Did C_gettimeofday rt] \<and> tv = Some (time_of rt)))) (\<lambda>_ _. True) w"
proof -
  let ?old = "recvs (t_recvfd t) (trace w)"
  have lp: "wp (loop (recv_round seqno) (False, t, None)) (left_with t seqno ?old) (\<lambda>_ _. True) v"
    if "recvs (t_recvfd t) (trace v) = ?old" for v
    by (rule recv_c.loop_wp [where I = "\<lambda>s v. \<exists>rs. recvs (t_recvfd t) (trace v) = ?old @ rs \<and> seen t seqno rs s"])
      (use that in \<open>auto simp: seen_def intro!: recv_round_wp\<close>)
  show ?thesis
    unfolding recv_v4_def Gettimeofday_def
    by (intro wp_intros wp_mono [OF lp]) auto
qed

text \<open>(C18) Whatever \<open>recv_v4\<close> returns is decided by the datagrams it receives, read off byte by byte. It returns
  -3, without a time, when the alarm has gone off and the last datagram, if one came, is not a time-exceeded
  error about the probe. It returns -2 when the last datagram is such an error: it has room for both IP
  headers and the ports, its type is 11 and its code 0, the quoted packet is UDP, and it goes from our
  port to the port of this probe. It returns -1 or another code of an ICMP error when the last
  datagram is a destination-unreachable error with that code (-1 for port unreachable) with the ports of
  this probe. For this kind of error, though, the place of the protocol byte and the length of the
  quoted header are those of an earlier time-exceeded error of the same call, whichever probe that was
  about. The datagrams before the last did not match, and no alarm had gone off. Unless it returns -3,
  the alarm is cancelled last and the time is taken.\<close>

theorem recv_v4_matches_probe:
  assumes "recv_v4 seqno t w = (Inr (code, tv, t'), w')"
  shows "\<exists>rs r. recvs (t_recvfd t) (trace w') = recvs (t_recvfd t) (trace w) @ rs @ [r] \<and>
    (\<forall>q\<in>set rs. \<not> alarmed q \<and> \<not> exceeded_for t seqno (got RBUF q)) \<and>
    (if code = -3 then tv = None \<and> alarmed r \<and> \<not> exceeded_for t seqno (got RBUF r)
     else 0 \<le> r_val r \<and>
       (if exceeded_for t seqno (got RBUF r) then code = -2
        else code = unreachable_code (got RBUF r) \<and>
          (\<exists>q\<in>set rs. time_exceeded (got RBUF q) \<and>
             unreachable_for t seqno (quote_at (got RBUF q)) (header_len (got RBUF q) (quote_at (got RBUF q))) (got RBUF r))) \<and>
       (\<exists>tr ra rt. trace w' = tr @ [Did (C_alarm 0) ra, Did C_gettimeofday rt] \<and> tv = Some (time_of rt))) \<and>
    t_sport t' = t_sport t \<and> t_dport t' = t_dport t"
proof -
  from wp_returns [OF recv_v4_wp assms] obtain v where
    left: "left_with t seqno (recvs (t_recvfd t) (trace w)) (code, t') v"
    and last: "if code = -3 then tv = None \<and> trace w' = trace v
      else \<exists>ra rt. trace w' = trace v @ [Did (C_alarm 0) ra, Did C_gettimeofday rt] \<and> tv = Some (time_of rt)"
    by auto
  from last have "recvs (t_recvfd t) (trace w') = recvs (t_recvfd t) (trace v)" by (auto split: if_split_asm)
  moreover from left obtain rs r where "recvs (t_recvfd t) (trace v) = recvs (t_recvfd t) (trace w) @ rs @ [r]"
    and "\<forall>q\<in>set rs. \<not> alarmed q \<and> \<not> exceeded_for t seqno (got RBUF q)" and "t_sport t' = t_sport t" "t_dport t' = t_dport t"
    and "if code = -3 then alarmed r \<and> \<not> exceeded_for t seqno (got RBUF r) else matched t seqno rs r code"
    unfolding left_with_def prod.case by blast
  ultimately show ?thesis
    using last by (intro exI [of _ rs] exI [of _ r]) (cases "code = -3"; simp add: matched_def; blast?)
qed

lemma recv_round_data:
  assumes "resps w = r # rs" and "0 \<le> r_val r"
    and "u = t\<lparr>t_recvbuf := got RBUF r @ drop (length (got RBUF r)) (t_recvbuf t), t_sarecv := r_addr r\<rparr>"
  shows "classify u seqno (t_recvbuf u) (length (got RBUF r)) h = Inl e \<Longrightarrow>
      recv_round seqno (False, t, h) w = (Inl e, took (C_recvfrom (t_recvfd t) RBUF 0) r w)"
    and "classify u seqno (t_recvbuf u) (length (got RBUF r)) h = Inr (Inr code) \<Longrightarrow>
      recv_round seqno (False, t, h) w = (Inr (Inr (code, u)), took (C_recvfrom (t_recvfd t) RBUF 0) r w)"
  using assms by (simp_all add: recv_round_def andThen_apply sys_apply Let_def)

definition trace_example :: tracer where
  "trace_example = \<lparr>t_sendfd = 4, t_recvfd = 3, t_sport = 0x8001, t_dport = 33434, t_verbose = False,
     t_recvbuf = replicate RBUF 0, t_sarecv = Sother 0, t_salast = Sother 0,
     t_sasend = Sin 0 1, t_salen = 16\<rparr>"

definition exceeded_example :: "byte list" where
  "exceeded_example =
     [69, 0, 0, 0, 0, 0, 0, 0, 64, 1, 0, 0, 0, 0, 0, 0, 0, 0, 0, 0] @
     [11, 0, 0, 0, 0, 0, 0, 0] @
     [69, 0, 0, 0, 0, 0, 0, 0, 64, 17, 0, 0, 0, 0, 0, 0, 0, 0, 0, 0] @
     [128, 1, 130, 155]"

lemma trace_example_classify:
  "classify (trace_example\<lparr>t_recvbuf := exceeded_example @ rest, t_sarecv := sa\<rparr>) 1
     (exceeded_example @ rest) 52 None = Inr (Inr (-2))"
proof -
  have bytes: "(32769 :: byte) = 1" "(33435 :: byte) = 155" by simp_all
  have ports: "htons 0x8001 = le16 128 1" "htons 33435 = le16 130 155"
    by (simp_all add: htons_def bytes)
  show ?thesis
    by (simp add: classify_def Let_def quotes_probe_def ip_hlen_def ip_p_def half_at_def byte_at_def
        exceeded_example_def trace_example_def ports ICMP_TIMXCEED_def ICMP_TIMXCEED_INTRANS_def
        IPPROTO_UDP_def)
qed

theorem recv_v4_matches_probe_witness:
  "\<exists>t' w'. recv_v4 1 trace_example (start [ok 0, gives exceeded_example, ok 0, ok 0]) =
     (Inr (-2, Some (0, 0), t'), w') \<and> exceeded_for trace_example 1 (got RBUF (gives exceeded_example)) \<and>
     recvs 3 (trace w') = [gives exceeded_example]"
proof -
  let ?w = "start [ok 0, gives exceeded_example, ok 0, ok 0]"
  let ?t = "trace_example\<lparr>t_recvbuf := exceeded_example @ drop 52 (replicate RBUF 0),
    t_sarecv := r_addr (gives exceeded_example)\<rparr>"
  have got: "got RBUF (gives exceeded_example) = exceeded_example" "length exceeded_example = 52"
    by (simp_all add: got_def resp_defs RBUF_def exceeded_example_def)
  have buf: "t_recvbuf trace_example = replicate RBUF 0"
    by (simp add: trace_example_def)
  have rd: "\<not> r_val (gives exceeded_example) < 0" by (simp add: resp_defs)
  have cl: "classify ?t 1 (t_recvbuf ?t) 52 None = Inr (Inr (-2))"
    using trace_example_classify by simp
  have round: "recv_round 1 (False, trace_example, None) (took (C_alarm 3) (ok 0) ?w) =
      (Inr (Inr (-2, ?t)), took (C_recvfrom 3 RBUF 0) (gives exceeded_example) (took (C_alarm 3) (ok 0) ?w))"
    using recv_round_data(2) [of "took (C_alarm 3) (ok 0) ?w" "gives exceeded_example" "[ok 0, ok 0]" ?t trace_example 1 None "-2"]
      cl rd got buf by (simp add: trace_example_def)
  have "\<exists>w'. recv_v4 1 trace_example ?w = (Inr (-2, Some (0, 0), ?t), w') \<and> recvs 3 (trace w') = [gives exceeded_example]"
    by (simp add: recv_v4_def andThen_apply sys_apply
        recv_c.loop_unfold [of 1 "(False, trace_example, None)" "took (C_alarm 3) (ok 0) ?w"]
        round Gettimeofday_def time_of_def aux_def) (simp add: resp_defs)
  then obtain w' where run: "recv_v4 1 trace_example ?w = (Inr (-2, Some (0, 0), ?t), w')"
    and one: "recvs 3 (trace w') = [gives exceeded_example]" by blast
  have fd: "t_recvfd trace_example = 3" by (simp add: trace_example_def)
  have "exceeded_for trace_example 1 (got RBUF (gives exceeded_example))"
    using recv_v4_matches_probe [OF run] one unfolding fd by (auto split: if_split_asm)
  with run one show ?thesis by blast
qed

text \<open>A destination-unreachable error as the first datagram after a probe, which is how a host
  one hop away answers, makes \<open>recv_v4\<close> read \<open>hlen2\<close> and \<open>hip\<close> before they have a value: only the
  branch for time-exceeded errors assigns them.\<close>

theorem recv_v4_unreach_first_undefined:
  assumes "resps w = r1 # r2 # rs" and "0 \<le> r_val r2"
    and "buf = got RBUF r2 @ drop (length (got RBUF r2)) (t_recvbuf t)"
    and "ip_hlen buf + 8 \<le> length (got RBUF r2)"
    and "unat (byte_at 0 (drop (ip_hlen buf) buf)) = ICMP_UNREACH"
  shows "fst (recv_v4 seqno t w) = Inl (Undef ''hlen2'')"
proof -
  let ?t = "t\<lparr>t_recvbuf := buf, t_sarecv := r_addr r2\<rparr>"
  have "classify ?t seqno buf (length (got RBUF r2)) None = Inl (Undef ''hlen2'')"
    using assms(4,5) by (simp add: classify_def Let_def ICMP_UNREACH_def ICMP_TIMXCEED_def)
  then have "recv_round seqno (False, t, None) (took (C_alarm 3) r1 w) =
      (Inl (Undef ''hlen2''), took (C_recvfrom (t_recvfd t) RBUF 0) r2 (took (C_alarm 3) r1 w))"
    using recv_round_data(1) [of "took (C_alarm 3) r1 w" r2 rs ?t t seqno None] assms(1-3) by simp
  then show ?thesis
    using assms(1)
    by (simp add: recv_v4_def andThen_apply sys_apply
        recv_c.loop_unfold [of seqno "(False, t, None)" "took (C_alarm 3) r1 w"])
qed

definition unreach_example :: "byte list" where
  "unreach_example = [69, 0, 0, 0, 0, 0, 0, 0, 64, 1, 0, 0, 0, 0, 0, 0, 0, 0, 0, 0] @ [3, 3, 0, 0, 0, 0, 0, 0]"

theorem recv_v4_unreach_first_undefined_witness:
  "fst (recv_v4 1 trace_example (start [ok 0, gives unreach_example])) = Inl (Undef ''hlen2'')"
proof (rule recv_v4_unreach_first_undefined [OF _ _ refl])
  have got: "got RBUF (gives unreach_example) = unreach_example"
    by (simp add: got_def resp_defs RBUF_def unreach_example_def)
  show "resps (start [ok 0, gives unreach_example]) = ok 0 # gives unreach_example # []" by simp
  show "0 \<le> r_val (gives unreach_example)" by (simp add: resp_defs)
  show "ip_hlen (got RBUF (gives unreach_example) @
      drop (length (got RBUF (gives unreach_example))) (t_recvbuf trace_example)) + 8 \<le>
    length (got RBUF (gives unreach_example))"
    unfolding got by (simp add: unreach_example_def ip_hlen_def byte_at_def)
  show "unat (byte_at 0 (drop (ip_hlen (got RBUF (gives unreach_example) @
      drop (length (got RBUF (gives unreach_example))) (t_recvbuf trace_example)))
      (got RBUF (gives unreach_example) @
      drop (length (got RBUF (gives unreach_example))) (t_recvbuf trace_example)))) = ICMP_UNREACH"
    unfolding got by (simp add: unreach_example_def ip_hlen_def byte_at_def ICMP_UNREACH_def)
qed

section \<open>The number of probes\<close>

definition datagrams :: "world \<Rightarrow> nat" where
  "datagrams w = length (filter (\<lambda>ev. \<exists>fd bs fl sa r. ev = Did (C_sendto fd bs fl sa) r) (trace w))"

lemma datagrams_simps [simp]:
  "datagrams (took c r w) = datagrams w + (case c of C_sendto _ _ _ _ \<Rightarrow> 1 | _ \<Rightarrow> 0)"
  "datagrams (w\<lparr>trace := trace w @ [Print s xs]\<rparr>) = datagrams w"
  "datagrams (w\<lparr>trace := trace w @ [Stderr s e]\<rparr>) = datagrams w"
  "datagrams (w\<lparr>trace := trace w @ [Syslog l s e]\<rparr>) = datagrams w"
  by (auto simp: datagrams_def split: call.splits)

lemma preserves_datagrams_sys [preserves_intros]:
  "(\<And>fd bs fl sa. c \<noteq> C_sendto fd bs fl sa) \<Longrightarrow> preserves datagrams (sys c)"
  "preserves datagrams (err_sys m)" "preserves datagrams (print s xs)"
  by (auto simp: preserves_def err_doit_apply sys_apply split: list.splits call.splits)

lemma preserves_datagrams [preserves_intros]:
  "preserves datagrams Gettimeofday" "preserves datagrams (sys_int (C_lib nm is bs))"
  "preserves datagrams (Setsockopt fd l opt v)" "preserves datagrams (Sock_ntop_host b f sa n)"
  "preserves datagrams (Socket fam ty pr)" "preserves datagrams (Bind fd sa)"
  unfolding Gettimeofday_def Setsockopt_def Socket_def Bind_def sys_int_def Sock_ntop_host_def
  by (auto intro!: preserves_intros)

lemma preserves_recv: "preserves datagrams (recv_v4 seqno t)" "preserves datagrams (recv_v6 ntop6 seqno t)"
proof -
  have "preserves datagrams (recv_round seqno x)" "preserves datagrams (recv6_round ntop6 seqno y)" for x y
    unfolding recv_round_def recv6_round_def Let_def
    by (cases x, cases y; auto intro!: preserves_intros split: sum.split)+
  then show "preserves datagrams (recv_v4 seqno t)" "preserves datagrams (recv_v6 ntop6 seqno t)"
    unfolding recv_v4_def recv_v6_def
    by (auto intro!: preserves_intros recv_c.loop_preserves recv6_c.loop_preserves)
qed

text \<open>What the loop over the probes needs of a protocol: waiting for an error sends nothing.\<close>

locale trace_proto =
  fixes pr :: tproto
  assumes recv_preserves: "preserves datagrams (tp_recv pr seqno t)"
begin

lemma adds_probe: "adds datagrams 1 (probe ipv6 ntop6 pr ttl s)"
proof -
  have "adds datagrams 1 (sys (C_sendto fd bs fl sa))" for fd bs fl sa
    by (auto simp: adds_def sys_apply split: list.splits)
  then have send: "adds datagrams 1 (Sendto fd bs fl sa)" for fd bs fl sa
    unfolding Sendto_def by (intro adds_then_preserves preserves_intros)
  obtain t seqno f tv where s: "s = (t, seqno, f, tv)" by (cases s)
  show ?thesis
    unfolding probe_def show_hop_def Let_def s prod.case
    by (rule preserves_then_adds, rule preserves_datagrams, rule adds_then_preserves, rule send)
      (auto intro!: preserves_intros recv_preserves split: option.split)
qed

lemma adds_probes: "adds datagrams k (probes ipv6 ntop6 pr k ttl s)"
proof (induction k arbitrary: s)
  case 0
  show ?case by (simp add: adds_preserves preserves_ret)
next
  case (Suc k)
  show ?case
    using adds_andThen [OF adds_probe Suc.IH] by simp
qed

lemma adds_hops: "adds datagrams (nprobes * k) (hops ipv6 ntop6 pr k ttl s)"
proof (induction k arbitrary: ttl s)
  case 0
  show ?case by (simp add: adds_preserves preserves_ret)
next
  case (Suc k)
  obtain t seqno f tv where s: "s = (t, seqno, f, tv)" by (cases s)
  have "adds datagrams (nprobes + nprobes * k)
    (andThen (probes ipv6 ntop6 pr nprobes ttl (t\<lparr>t_salast := Sother 0\<rparr>, seqno, f, tv)) (\<lambda>s.
      seq (print [CHR 0x0A] []) (hops ipv6 ntop6 pr k (ttl + 1) s)))"
    by (intro adds_andThen adds_probes preserves_then_adds Suc.IH preserves_intros)
  then show ?case
    by (auto simp: s intro!: preserves_then_adds preserves_intros
        intro: adds_mono [OF adds_preserves [OF preserves_ret(1)]])
qed

lemma probe_bound: "datagrams (snd (traceloop ipv6 ntop6 pr max_ttl t w)) \<le> datagrams w + 3 * max_ttl"
proof -
  have "adds datagrams (nprobes * max_ttl) (traceloop ipv6 ntop6 pr max_ttl t)"
    unfolding traceloop_def Let_def
    by (intro preserves_then_adds adds_hops preserves_intros) simp_all
  then show ?thesis
    by (simp add: adds_def nprobes_def)
qed

end

interpretation trace4: trace_proto tproto_v4
  by unfold_locales (simp add: tproto_v4_def preserves_recv)

interpretation trace6: trace_proto "tproto_v6 ntop6" for ntop6
  by unfold_locales (simp add: tproto_v6_def preserves_recv)

text \<open>\<open>traceloop\<close> sends at most three probes for each time to live up to the maximum, whatever
  the network answers and however the run ends.\<close>

theorem traceloop_probe_bound:
  "datagrams (snd (traceloop ipv6 ntop6 tproto_v4 max_ttl t w)) \<le> datagrams w + 3 * max_ttl"
  by (rule trace4.probe_bound)

section \<open>The IPv6 traceroute never arrives\<close>

lemma classify6_result: "classify6 t seqno buf n = Inr res \<Longrightarrow> res = (-2, True)"
  by (auto simp: classify6_def Let_def ICMP6_TIME_EXCEEDED_def ICMP6_DST_UNREACH_def split: if_splits)

lemma recv_v6_wp:
  "wp (recv_v6 ntop6 seqno t) (\<lambda>(code, tv, u) v. (code = -3 \<or> code = -2) \<and> datagrams v = datagrams w) (\<lambda>_ _. True) w"
proof -
  let ?Q = "\<lambda>((code, timed), u) v. code = -3 \<or> code = -2"
  have lp: "wp (loop (recv6_round ntop6 seqno) (False, t)) ?Q (\<lambda>_ _. True) v" for v
  proof (rule recv6_c.loop_wp [where I = "\<lambda>_ _. True"])
    show "wp (recv6_round ntop6 seqno x) (\<lambda>z v. case z of Inl _ \<Rightarrow> True
        | Inr a \<Rightarrow> ?Q a v) (\<lambda>_ _. True) v" for x v
      unfolding recv6_round_def Let_def
      by (cases x) (auto intro!: wp_intros dest: classify6_result split: sum.split)
  qed simp
  have "wp (recv_v6 ntop6 seqno t) (\<lambda>(code, tv, u) v. code = -3 \<or> code = -2) (\<lambda>_ _. True) w"
    unfolding recv_v6_def by (auto intro!: wp_intros wp_mono [OF lp])
  then show ?thesis
    using preservesD [OF preserves_recv(2)] by (auto simp: wp_def split: prod.splits sum.splits)
qed

lemma probe6_wp:
  "wp (probe True ntop6 (tproto_v6 ntop6) ttl (t, sq, f, tv))
    (\<lambda>(t, sq, f', tv) v. f' = f \<and> datagrams v = datagrams w + 1) (\<lambda>_ _. True) w"
  unfolding probe_def show_hop_def Let_def tproto_v6_def sys_int_def
  by (auto intro!: wp_intros wp_mono [OF recv_v6_wp] simp: datagrams_def)

lemma probes6_wp:
  "wp (probes True ntop6 (tproto_v6 ntop6) k ttl (t, sq, f, tv))
    (\<lambda>(t, sq, f', tv) v. f' = f \<and> datagrams v = datagrams w + k) (\<lambda>_ _. True) w"
proof (induction k arbitrary: t sq tv w)
  case 0
  show ?case by (simp add: wp_def)
next
  case (Suc k)
  show ?case
    by (auto intro!: wp_intros wp_mono [OF probe6_wp] wp_mono [OF Suc.IH])
qed

lemma hops6_wp:
  "wp (hops True ntop6 (tproto_v6 ntop6) k ttl (t, sq, 0, tv))
    (\<lambda>_ v. datagrams v = datagrams w + nprobes * k) (\<lambda>_ _. True) w"
proof (induction k arbitrary: ttl t sq tv w)
  case 0
  show ?case by (simp add: wp_def)
next
  case (Suc k)
  show ?case
    by (auto intro!: wp_intros wp_mono [OF probes6_wp] wp_mono [OF Suc.IH] simp: datagrams_def)
qed

text \<open>With \<open>IPV6\<close>, a run of \<open>traceloop\<close> that returns has sent three probes for every time to live up
  to the maximum, whatever the network answers: \<open>recv_v6\<close> never reports that the destination is
  reached, because its test for that error can not be reached.\<close>

theorem traceroute6_never_arrives:
  assumes "traceloop True ntop6 (tproto_v6 ntop6) max_ttl t w = (Inr (), w')"
  shows "datagrams w' = datagrams w + 3 * max_ttl"
proof -
  have "wp (traceloop True ntop6 (tproto_v6 ntop6) max_ttl t) (\<lambda>_ v. datagrams v = datagrams w + nprobes * max_ttl)
      (\<lambda>_ _. True) w"
    unfolding traceloop_def Let_def sys_int_def
    by (auto intro!: wp_intros wp_mono [OF hops6_wp])
  from wp_returns [OF this assms] show ?thesis by (simp add: nprobes_def)
qed

text \<open>The destination answers the first probe with the error a host sends that has been reached.\<close>

definition noport_example :: "byte list" where
  "noport_example = [1, 4, 0, 0, 0, 0, 0, 0] @ replicate 6 0 @ [17, 64] @ replicate 32 0 @ [128, 1, 130, 155]"

definition trace6_example :: "resp list" where
  "trace6_example = [ok 3, ok 0, ok 0, ok 4, ok 1, ok 0, ok 0] @
     concat (replicate 3 [ok 0, ok 24, ok 0, gives noport_example, fails EINTR])"

definition probe_example :: "resp list" where
  "probe_example = [ok 0, ok 24, ok 0, gives noport_example, fails EINTR]"

lemma probe_example_ignored:
  assumes "resps v = probe_example @ rs"
  shows "\<exists>s v'. probe True ntop6 (tproto_v6 ntop6) ttl (t, sq, f, tv) v = (Inr s, v') \<and> resps v' = rs"
proof -
  have got: "got RBUF (gives noport_example) = noport_example"
    by (simp add: got_def RBUF_def noport_example_def)
  have cl: "classify6 u sq' (noport_example @ rest) n = Inl False" for u sq' rest n
    by (simp add: classify6_def noport_example_def byte_at_def ICMP6_TIME_EXCEEDED_def)
  have "length (probe_bytes sq' ttl' now) = 24" for sq' ttl' now
    by (simp add: probe_bytes_def)
  then show ?thesis
    using assms
    by (simp add: probe_def probe_example_def tproto_v6_def recv_v6_def recv6_round_def [THEN fun_cong] recv6_c.loop_unfold got cl
        Gettimeofday_def Sendto_def put_len_def probe_bytes_def andThen_apply sys_apply only_if_def Let_def)
qed

lemma probes_example_ignored:
  "resps v = concat (replicate k probe_example) @ rs \<Longrightarrow>
     \<exists>s v'. probes True ntop6 (tproto_v6 ntop6) k ttl s0 v = (Inr s, v') \<and> resps v' = rs"
proof (induction k arbitrary: s0 v)
  case (Suc k)
  obtain t sq f tv where s0: "s0 = (t, sq, f, tv)" by (cases s0)
  from Suc.prems obtain s v' where "probe True ntop6 (tproto_v6 ntop6) ttl s0 v = (Inr s, v')"
    and "resps v' = concat (replicate k probe_example) @ rs"
    using probe_example_ignored [of v "concat (replicate k probe_example) @ rs"] unfolding s0 by fastforce
  with Suc.IH [of v' s] show ?case by (auto simp: andThen_apply)
qed auto

lemma hops_example_ignored:
  assumes "resps v = ok 0 # concat (replicate 3 probe_example)"
  shows "fst (hops True ntop6 (tproto_v6 ntop6) (Suc 0) ttl (t, sq, 0, tv) v) = Inr ()"
proof -
  let ?v = "took (C_setsockopt (t_sendfd t) IPPROTO_IPV6 IPV6_UNICAST_HOPS [ttl]) (ok 0) v"
  have "resps (?v\<lparr>trace := trace ?v @ [Print ''%2d '' [ttl]]\<rparr>) = concat (replicate 3 probe_example) @ []"
    using assms by simp
  from probes_example_ignored [OF this] obtain s v' where
    "probes True ntop6 (tproto_v6 ntop6) nprobes ttl (t\<lparr>t_salast := Sother 0\<rparr>, sq, 0, tv)
       (?v\<lparr>trace := trace ?v @ [Print ''%2d '' [ttl]]\<rparr>) = (Inr s, v')"
    unfolding nprobes_def by blast
  with assms show ?thesis
    by (simp add: Setsockopt_def andThen_apply sys_apply) (simp add: tproto_v6_def andThen_apply)
qed

theorem traceroute6_never_arrives_witness:
  "datagrams (snd (traceloop True (\<lambda>_. []) (tproto_v6 (\<lambda>_. [])) 1
     (trace_example\<lparr>t_sasend := Sin6 0 (replicate 16 0)\<rparr>)
     (start ([ok 3, ok 0, ok 0, ok 4, ok 1, ok 0, ok 0] @ concat (replicate 3 probe_example))))) = 3"
proof -
  let ?w = "start ([ok 3, ok 0, ok 0, ok 4, ok 1, ok 0, ok 0] @ concat (replicate 3 probe_example))"
  let ?run = "traceloop True (\<lambda>_. []) (tproto_v6 (\<lambda>_. [])) 1 (trace_example\<lparr>t_sasend := Sin6 0 (replicate 16 0)\<rparr>) ?w"
  have "fst ?run = Inr ()"
    by (simp add: traceloop_def trace_example_def Socket_def Bind_def only_if_def sys_int_def andThen_apply sys_apply
        Let_def hops_example_ignored del: hops.simps)
  then show ?thesis
    using traceroute6_never_arrives [of "\<lambda>_. []" 1 _ ?w "snd ?run"] by (simp add: prod_eq_iff datagrams_def)
qed

end
