(* ===== verification/Connections.thy ===== *)
theory Connections
  imports Connect
begin

text \<open>
  What the concurrent servers share: the connections accepted and not closed, read off the
  trace; what the kernel promises of \<open>accept\<close>, that it returns a descriptor that is not in use;
  and the tables of descriptors, arrays with -1 in the free entries, that the \<open>select\<close> and
  the \<open>poll\<close> server keep. The locale \<open>slots\<close> is the table's interface: the laws of its
  operations give the bookkeeping both servers rely on.
\<close>

section \<open>Connections in a trace\<close>

fun ev_conns :: "event \<Rightarrow> int set \<Rightarrow> int set" where
  "ev_conns (Did (C_accept l) r) S = (if 0 \<le> r_val r then insert (r_val r) S else S)"
| "ev_conns (Did (C_close fd) r) S = (if r_val r \<noteq> -1 then S - {fd} else S)"
| "ev_conns _ S = S"

definition conns :: "event list \<Rightarrow> int set" where
  "conns tr = fold ev_conns tr {}"

text \<open>\<open>along P tr\<close>: every event of the trace satisfies \<open>P\<close> of the connections there were before it.\<close>

fun along_from :: "(int set \<Rightarrow> event \<Rightarrow> bool) \<Rightarrow> int set \<Rightarrow> event list \<Rightarrow> bool" where
  "along_from P S [] \<longleftrightarrow> True"
| "along_from P S (ev # tr) \<longleftrightarrow> P S ev \<and> along_from P (ev_conns ev S) tr"

definition along :: "(int set \<Rightarrow> event \<Rightarrow> bool) \<Rightarrow> event list \<Rightarrow> bool" where
  "along P tr \<longleftrightarrow> along_from P {} tr"

text \<open>\<open>accept\<close> never returns a descriptor of \<open>L\<close> nor one that is a connection already.\<close>

fun ev_fresh :: "int set \<Rightarrow> int set \<Rightarrow> event \<Rightarrow> bool" where
  "ev_fresh L S (Did (C_accept l) r) \<longleftrightarrow> (0 \<le> r_val r \<longrightarrow> r_val r \<notin> L \<union> S)"
| "ev_fresh L S _ \<longleftrightarrow> True"

abbreviation fresh_accepts :: "int set \<Rightarrow> event list \<Rightarrow> bool" where
  "fresh_accepts L \<equiv> along (ev_fresh L)"

lemma conns_Nil [simp]: "conns [] = {}"
  by (simp add: conns_def)

lemma conns_snoc [simp]: "conns (tr @ [ev]) = ev_conns ev (conns tr)"
  by (simp add: conns_def)

lemma along_Nil [simp]: "along P []"
  by (simp add: along_def)

lemma along_from_append:
  "along_from P S (tr @ tr') \<longleftrightarrow> along_from P S tr \<and> along_from P (fold ev_conns tr S) tr'"
  by (induction tr arbitrary: S) auto

lemma along_snoc [simp]: "along P (tr @ [ev]) \<longleftrightarrow> along P tr \<and> P (conns tr) ev"
  by (simp add: along_def conns_def along_from_append)

lemma along_prefix: "along P (tr @ tr') \<Longrightarrow> along P tr"
  by (simp add: along_def along_from_append)

lemma along_append:
  "along P (tr @ tr') \<longleftrightarrow> along P tr \<and> along_from P (conns tr) tr'"
  by (simp add: along_def along_from_append conns_def)

lemma conns_fold: "conns (tr @ tr') = fold ev_conns tr' (conns tr)"
  by (simp add: conns_def)

text \<open>Calls that are neither \<open>accept\<close> nor \<open>close\<close> leave the connections alone; log lines are not
  observed.\<close>

definition no_conn :: "event \<Rightarrow> bool" where
  "no_conn ev \<longleftrightarrow> (\<forall>S. ev_conns ev S = S)"

lemma conns_append: "\<forall>ev\<in>set tr'. no_conn ev \<Longrightarrow> conns (tr @ tr') = conns tr"
  by (induction tr' arbitrary: tr) (auto simp: conns_def no_conn_def fold_append)

lemma along_from_quiet:
  "\<forall>ev\<in>set tr. no_conn ev \<and> P S ev \<Longrightarrow> along_from P S tr"
  by (induction tr) (auto simp: no_conn_def)

lemma is_log_views [simp]:
  assumes "is_log ev"
  shows "ev_received fd ev = []" "ev_sent fd ev = []" "ev_conns ev S = S" "ev_fresh L S ev"
  using assms by (cases ev; simp)+

lemma no_conn_writes: "writes_of fd ev \<or> is_log ev \<Longrightarrow> no_conn ev \<and> ev_fresh L S ev"
  by (cases "is_log ev") (auto simp: writes_of_def no_conn_def)

lemma no_conn_refused: "refused fd ev \<or> is_log ev \<Longrightarrow> no_conn ev \<and> ev_fresh L S ev"
  by (cases "is_log ev") (auto simp: refused_def no_conn_def)

lemma quiet_refused:
  "\<forall>ev\<in>set tr. refused l ev \<or> is_log ev \<Longrightarrow> received fd tr = [] \<and> sent fd tr = []"
  by (induction tr) (auto simp: refused_def)

lemma received_writes_log: "\<forall>ev\<in>set tr. writes_of fd ev \<or> is_log ev \<Longrightarrow> received fd' tr = []"
  by (induction tr) (auto simp: writes_of_def)

lemma sent_writes_log:
  "\<forall>ev\<in>set tr. writes_of fd ev \<or> is_log ev \<Longrightarrow> fd' \<noteq> fd \<Longrightarrow> sent fd' tr = []"
  by (induction tr) (auto simp: writes_of_def)

section \<open>Echoing\<close>

text \<open>What was received from a descriptor has been sent back to it; and, weaker, what was sent back
  is a beginning of it.\<close>

definition echoed :: "event list \<Rightarrow> bool" where
  "echoed tr \<longleftrightarrow> (\<forall>fd. sent fd tr = received fd tr)"

definition echoing :: "event list \<Rightarrow> bool" where
  "echoing tr \<longleftrightarrow> (\<forall>fd. \<exists>rest. received fd tr = sent fd tr @ rest)"

lemma echoed_Nil [simp]: "echoed []"
  by (simp add: echoed_def)

lemma echoed_quiet:
  "echoed tr \<Longrightarrow> \<forall>fd. received fd tr' = [] \<and> sent fd tr' = [] \<Longrightarrow> echoed (tr @ tr')"
  by (simp add: echoed_def)

lemma echoed_echoing: "echoed tr \<Longrightarrow> echoing tr"
  by (simp add: echoed_def echoing_def)

lemma echoing_quiet:
  "echoed tr \<Longrightarrow> \<forall>fd. received fd tr' = [] \<and> sent fd tr' = [] \<Longrightarrow> echoing (tr @ tr')"
  by (intro echoed_echoing echoed_quiet)

text \<open>A \<open>read\<close> followed by \<open>write\<close>s of what it returned.\<close>

lemma echoed_relay:
  assumes "echoed tr" and "\<forall>ev\<in>set tr'. writes_of fd ev" and "sent fd tr' = got n r"
  shows "echoed (tr @ Did (C_read fd n) r # tr')"
  using assms by (auto simp: echoed_def sent_writes_other)

lemma echoing_relay:
  assumes "echoed tr" and "\<forall>ev\<in>set tr'. writes_of fd ev \<or> is_log ev" and "sent fd tr' = take k (got n r)"
  shows "echoing (tr @ Did (C_read fd n) r # tr')"
  unfolding echoing_def
proof
  fix fd'
  show "\<exists>rest. received fd' (tr @ Did (C_read fd n) r # tr') = sent fd' (tr @ Did (C_read fd n) r # tr') @ rest"
  proof (cases "fd' = fd")
    case True
    with assms have "received fd' (tr @ Did (C_read fd n) r # tr') =
        sent fd' (tr @ Did (C_read fd n) r # tr') @ drop k (got n r)"
      by (simp add: echoed_def received_writes_log)
    then show ?thesis by blast
  next
    case False
    with assms show ?thesis
      by (simp add: echoed_def received_writes_log sent_writes_log)
  qed
qed

section \<open>Tables of descriptors\<close>

fun first_free :: "int list \<Rightarrow> nat option" where
  "first_free [] = None"
| "first_free (c # cs) = (if c < 0 then Some 0 else map_option Suc (first_free cs))"

definition live :: "int list \<Rightarrow> int set" where
  "live cs = {c \<in> set cs. 0 \<le> c}"

text \<open>No descriptor is in two entries.\<close>

definition no_dups :: "int list \<Rightarrow> bool" where
  "no_dups cs \<longleftrightarrow> (\<forall>i<length cs. \<forall>j<length cs. 0 \<le> cs ! i \<longrightarrow> cs ! i = cs ! j \<longrightarrow> i = j)"

lemma first_free_Some: "first_free cs = Some i \<Longrightarrow> i < length cs \<and> cs ! i < 0"
  by (induction cs arbitrary: i) (auto split: if_splits)

lemma first_free_None: "first_free cs = None \<longleftrightarrow> (\<forall>c\<in>set cs. 0 \<le> c)"
  by (induction cs) auto

lemma live_put: "i < length cs \<Longrightarrow> cs ! i < 0 \<Longrightarrow> 0 \<le> fd \<Longrightarrow> live (cs[i := fd]) = insert fd (live cs)"
proof -
  assume i: "i < length cs" "cs ! i < 0" and fd: "0 \<le> fd"
  have "c \<in> set (cs[i := fd])" if c: "c \<in> set cs" "0 \<le> c" for c
  proof -
    obtain k where "k < length cs" "cs ! k = c" using c by (auto simp: in_set_conv_nth)
    moreover have "k \<noteq> i" using c i calculation by auto
    ultimately show ?thesis by (metis length_list_update nth_list_update_neq nth_mem)
  qed
  then show ?thesis
    using i fd by (auto simp: live_def set_update_memI dest: set_update_subset_insert [THEN subsetD])
qed

lemma no_dups_put:
  assumes "no_dups cs" and "fd \<notin> live cs" and "i < length cs"
  shows "no_dups (cs[i := fd])"
  unfolding no_dups_def
proof (intro allI impI)
  fix k j
  assume k: "k < length (cs[i := fd])" and j: "j < length (cs[i := fd])"
    and le: "0 \<le> cs[i := fd] ! k" and eq: "cs[i := fd] ! k = cs[i := fd] ! j"
  have "cs ! m \<noteq> fd" if "m < length cs" "0 \<le> cs ! m" for m
    using that assms(2) by (auto simp: live_def)
  with assms(1,3) k j le eq show "k = j"
    unfolding no_dups_def by (metis length_list_update nth_list_update)
qed

lemma no_dups_drop: "no_dups cs \<Longrightarrow> no_dups (cs[i := -1])"
  unfolding no_dups_def by (cases "i < length cs") (auto simp: nth_list_update split: if_splits)

lemma live_drop:
  assumes "no_dups cs" and "i < length cs" and "0 \<le> cs ! i"
  shows "live (cs[i := -1]) = live cs - {cs ! i}"
proof (intro set_eqI iffI)
  fix c
  assume c: "c \<in> live (cs[i := -1])"
  then obtain k where k: "k < length cs" "cs[i := -1] ! k = c" "0 \<le> c"
    by (auto simp: live_def in_set_conv_nth)
  then have "k \<noteq> i" "cs ! k = c" using assms(2) by (auto simp: nth_list_update split: if_splits)
  with k assms show "c \<in> live cs - {cs ! i}"
    unfolding no_dups_def live_def by auto
next
  fix c
  assume "c \<in> live cs - {cs ! i}"
  then obtain k where k: "k < length cs" "cs ! k = c" "0 \<le> c" "k \<noteq> i"
    by (auto simp: live_def in_set_conv_nth)
  then have "cs[i := -1] ! k = c" by simp
  with k show "c \<in> live (cs[i := -1])"
    unfolding live_def by (metis (mono_tags, lifting) length_list_update mem_Collect_eq nth_mem)
qed

lemma card_live_full:
  assumes "no_dups cs" and "first_free cs = None"
  shows "card (live cs) = length cs"
proof -
  have "distinct cs"
    using assms by (auto simp: no_dups_def first_free_None distinct_conv_nth)
  moreover have "live cs = set cs"
    using assms(2) by (auto simp: live_def first_free_None)
  ultimately show ?thesis by (simp add: distinct_card)
qed

text \<open>The interface: a state with such a table, and the operations that fill and free an entry.
  \<open>holds s C\<close> says that the table contains exactly the descriptors \<open>C\<close>, each once.\<close>

locale slots =
  fixes tab :: "'s \<Rightarrow> int list" and put :: "nat \<Rightarrow> int \<Rightarrow> 's \<Rightarrow> 's" and free :: "nat \<Rightarrow> 's \<Rightarrow> 's"
  assumes tab_put: "tab (put i fd s) = (tab s)[i := fd]"
    and tab_free: "tab (free i s) = (tab s)[i := -1]"
begin

definition holds :: "'s \<Rightarrow> int set \<Rightarrow> bool" where
  "holds s C \<longleftrightarrow> no_dups (tab s) \<and> live (tab s) = C"

lemma holds_put:
  assumes "holds s C" and "first_free (tab s) = Some i" and "0 \<le> fd" and "fd \<notin> C"
  shows "holds (put i fd s) (insert fd C)"
  using assms first_free_Some [OF assms(2)]
  by (auto simp: holds_def tab_put live_put no_dups_put)

lemma holds_free:
  assumes "holds s C" and "i < length (tab s)" and "0 \<le> tab s ! i"
  shows "holds (free i s) (C - {tab s ! i})"
  using assms by (auto simp: holds_def tab_free live_drop no_dups_drop)

lemma holds_nth: "holds s C \<Longrightarrow> i < length (tab s) \<Longrightarrow> 0 \<le> tab s ! i \<Longrightarrow> tab s ! i \<in> C"
  by (auto simp: holds_def live_def)

text \<open>A table with room for every descriptor below \<open>n\<close> but one is never full.\<close>

lemma room:
  assumes "holds s C" and "insert l C \<subseteq> {0..<int n}" and "l \<notin> C" and "n \<le> length (tab s)"
  shows "\<exists>i. first_free (tab s) = Some i"
proof (rule ccontr)
  assume "\<nexists>i. first_free (tab s) = Some i"
  then have "first_free (tab s) = None" by (meson not_None_eq)
  moreover have "no_dups (tab s)" "live (tab s) = C"
    using assms(1) unfolding holds_def by blast+
  ultimately have "card C = length (tab s)" using card_live_full by blast
  moreover have "finite C"
    using finite_subset [OF assms(2) finite_atLeastLessThan_int] by simp
  then have "card (insert l C) = Suc (card C)" using assms(3) by (rule card_insert_disjoint)
  moreover have "card (insert l C) \<le> card {0..<int n}"
    using assms(2) by (intro card_mono) simp_all
  moreover have "card {0..<int n} = n" by simp
  ultimately show False using assms(4) by linarith
qed

end

end
