(* ===== verification/Datagram_Echo.thy ===== *)
theory Datagram_Echo
  imports Connect
begin

text \<open>
  The datagram echo service and its clients: \<open>dg_cli.cpp\<close>, \<open>dg_echo.cpp\<close>, the programs of
  \<open>udpEcho1\<close> and \<open>udpEcho2\<close>, and the clients of \<open>advio\<close> that do not wait for ever for a reply
  (\<open>SO_RCVTIMEO\<close>, \<open>alarm\<close>, \<open>select\<close>). \<open>each_line\<close> is the loop over the lines of standard input
  that all the clients have, \<open>forever\<close> the loop of the servers. On the IPv4 sockets of these
  programs an address is always 16 bytes long, so that its length is not a separate variable.
\<close>

section \<open>Loops the programs share\<close>

definition each_line_round :: "(byte list \<Rightarrow> (world, unit) prog) \<Rightarrow> unit \<Rightarrow> (world, unit + unit) prog" where
  "each_line_round body _ = andThen (Fgets MAXLINE) (\<lambda>sendline.
     case sendline of None \<Rightarrow> leave () | Some l \<Rightarrow> seq (body (cstr l)) (again ()))"

definition each_line :: "(byte list \<Rightarrow> (world, unit) prog) \<Rightarrow> (world, unit) prog" where
  "each_line body = loop (each_line_round body) ()"

definition forever :: "('b \<Rightarrow> (world, 'b) prog) \<Rightarrow> 'b \<Rightarrow> (world, 'a) prog" where
  "forever body x = loop (\<lambda>x. andThen (body x) (\<lambda>y. again y)) x"

lemma consuming_each_line:
  assumes "\<And>l. lawful (body l)"
  shows "consuming (each_line_round body)"
  by unfold_locales
    (auto simp: each_line_round_def intro!: eats_intros eats_first lawful_intros assms)

lemma consuming_forever:
  assumes "\<And>x. eats always (body x)"
  shows "consuming (\<lambda>x. andThen (body x) (\<lambda>y. again y))"
  by unfold_locales (intro eats_first assms lawful_intros)

lemma lawful_each_line [lawful_intros]:
  assumes "\<And>l. lawful (body l)"
  shows "lawful (each_line body)"
  unfolding each_line_def
  by (rule consuming.loop_lawful [OF consuming_each_line [OF assms]])
    (auto simp: each_line_round_def intro!: lawful_intros assms)

lemma lawful_forever:
  assumes "\<And>x. lawful (body x)" and "\<And>x. eats always (body x)"
  shows "lawful (forever body x)"
  unfolding forever_def
  by (rule consuming.loop_lawful [OF consuming_forever [OF assms(2)]]) (intro lawful_intros assms(1))

lemma forever_unfold:
  assumes "\<And>x. eats always (body x)"
  shows "forever body x w = (case body x w of
      (Inl e, w') \<Rightarrow> (Inl e, w')
    | (Inr y, w') \<Rightarrow> forever body y w')"
  unfolding forever_def
  by (subst consuming.loop_unfold [OF consuming_forever [OF assms]])
    (auto simp: andThen_apply split: prod.split sum.split)

text \<open>A loop that never returns keeps its invariant.\<close>

lemma forever_wp:
  assumes "\<And>x. eats always (body x)" and "I x w"
    and "\<And>x w. I x w \<Longrightarrow> wp (body x) I E w"
  shows "wp (forever body x) Q E w"
  unfolding forever_def
  by (rule consuming.loop_wp [OF consuming_forever [OF assms(1)], where I = I, OF assms(2)])
    (intro wp_andThen wp_mono [OF assms(3)], assumption, auto intro: wp_ret)

section \<open>The functions\<close>

definition dg_cli :: "int \<Rightarrow> sockaddr \<Rightarrow> (world, unit) prog" where
  "dg_cli sockfd servaddr = each_line (\<lambda>sendline.
     seq (Sendto sockfd sendline 0 servaddr)
       (andThen (Recvfrom sockfd MAXLINE 0) (\<lambda>(recvline, _). Fputs recvline)))"

definition dg_echo_round :: "int \<Rightarrow> unit \<Rightarrow> (world, unit) prog" where
  "dg_echo_round sockfd _ = andThen (Recvfrom sockfd MAXLINE 0) (\<lambda>(mesg, cliaddr).
     Sendto sockfd mesg 0 cliaddr)"

definition dg_echo :: "int \<Rightarrow> (world, unit) prog" where
  "dg_echo sockfd = forever (dg_echo_round sockfd) ()"

text \<open>\<open>udpEcho2\<close>: replies that do not come from the server are ignored; and the client on a
  connected socket.\<close>

definition dg_cli_verify :: "int \<Rightarrow> sockaddr \<Rightarrow> (world, unit) prog" where
  "dg_cli_verify sockfd servaddr = seq (Malloc (int (sa_len servaddr))) (each_line (\<lambda>sendline.
     seq (Sendto sockfd sendline 0 servaddr)
       (andThen (Recvfrom sockfd MAXLINE 0) (\<lambda>(recvline, reply_addr).
         if sa_len reply_addr \<noteq> sa_len servaddr \<or> servaddr \<noteq> reply_addr then
           seq (Sock_ntop False (\<lambda>_. []) reply_addr (sa_len reply_addr)) (print ''reply from (ignored)'' [])
         else Fputs recvline))))"

definition dg_cli_connect :: "int \<Rightarrow> sockaddr \<Rightarrow> (world, unit) prog" where
  "dg_cli_connect sockfd servaddr = seq (Connect sockfd servaddr) (each_line (\<lambda>sendline.
     seq (Write sockfd sendline) (andThen (Read sockfd MAXLINE) (\<lambda>recvline. Fputs recvline))))"

text \<open>\<open>advio\<close>: a receive timeout of five seconds on the socket, an alarm, and \<open>select\<close>.\<close>

definition SO_RCVTIMEO :: int where "SO_RCVTIMEO = 20"

definition dg_cli_rcvtimeo :: "int \<Rightarrow> sockaddr \<Rightarrow> (world, unit) prog" where
  "dg_cli_rcvtimeo sockfd servaddr =
     seq (Setsockopt sockfd SOL_SOCKET SO_RCVTIMEO [5, 0]) (each_line (\<lambda>sendline.
       seq (Sendto sockfd sendline 0 servaddr)
         (andThen (sys_recvfrom sockfd MAXLINE 0) (\<lambda>(n, recvline, _). andThen get_errno (\<lambda>errno.
           if n < 0 then
             (if errno = EWOULDBLOCK then complain ''socket timeout'' else err_sys ''recvfrom error'')
           else Fputs recvline)))))"

definition dg_cli_alarm :: "int \<Rightarrow> int \<Rightarrow> sockaddr \<Rightarrow> (world, unit) prog" where
  "dg_cli_alarm sig_alrm sockfd servaddr =
     seq (Signal SIGALRM sig_alrm) (each_line (\<lambda>sendline.
       seq (Sendto sockfd sendline 0 servaddr)
      (seq (sys (C_alarm 5))
         (andThen (sys_recvfrom sockfd MAXLINE 0) (\<lambda>(n, recvline, _). andThen get_errno (\<lambda>errno.
           if n < 0 then
             (if errno = EINTR then complain ''socker timeout'' else err_sys ''recvfrom error'')
           else seq (sys (C_alarm 0)) (Fputs recvline)))))))"

definition dg_cli_select :: "int \<Rightarrow> sockaddr \<Rightarrow> (world, unit) prog" where
  "dg_cli_select sockfd servaddr = each_line (\<lambda>sendline.
     seq (Sendto sockfd sendline 0 servaddr)
       (andThen (Readable_timeo sockfd 5) (\<lambda>n.
         if n = 0 then complain ''socket timeout''
         else andThen (Recvfrom sockfd MAXLINE 0) (\<lambda>(recvline, _). Fputs recvline))))"

section \<open>The main functions\<close>

definition udp_client_main :: "(int \<Rightarrow> sockaddr \<Rightarrow> (world, unit) prog) \<Rightarrow> (world, int) prog" where
  "udp_client_main cli =
     andThen (Inet_pton AF_INET (lit ''127.0.0.1'')) (\<lambda>addr.
     andThen (Socket AF_INET SOCK_DGRAM 0) (\<lambda>sockfd.
     seq (cli sockfd (Sin (htons 1234) (addr4 addr))) (ret 0)))"

definition udpEcho1_client_main :: "(world, int) prog" where
  "udpEcho1_client_main = udp_client_main dg_cli"

definition udpEcho2_client_main :: "(world, int) prog" where
  "udpEcho2_client_main = udp_client_main dg_cli_verify"

definition rcvtimeo_client_main :: "(world, int) prog" where
  "rcvtimeo_client_main = udp_client_main dg_cli_rcvtimeo"

definition alarm_client_main :: "(world, int) prog" where
  "alarm_client_main = udp_client_main (dg_cli_alarm 1)"

definition select_client_main :: "(world, int) prog" where
  "select_client_main = udp_client_main dg_cli_select"

definition udp_server_main :: "(world, int) prog" where
  "udp_server_main =
     andThen (Socket AF_INET SOCK_DGRAM 0) (\<lambda>sockfd.
     seq (Bind sockfd (Sin (htons 1234) (htonl INADDR_ANY)))
    (seq (dg_echo sockfd) (ret 0)))"

text \<open>The server of \<open>udpEcho2\<close> is that of \<open>udpEcho1\<close> again.\<close>

definition udpEcho2_server_main :: "(world, int) prog" where
  "udpEcho2_server_main = udp_server_main"

lemma eats_dg_echo_round: "eats P (dg_echo_round sockfd x)"
  unfolding dg_echo_round_def by (intro eats_first eats_intros lawful_intros)

lemma lawful_dg [lawful_intros]:
  "lawful (dg_cli fd sa)" "lawful (dg_echo_round fd x)" "lawful (dg_echo fd)"
  "lawful (dg_cli_verify fd sa)" "lawful (dg_cli_connect fd sa)" "lawful (dg_cli_rcvtimeo fd sa)"
  "lawful (dg_cli_alarm h fd sa)" "lawful (dg_cli_select fd sa)"
proof -
  show "lawful (dg_cli fd sa)"
    unfolding dg_cli_def by (intro lawful_intros)
  show round: "lawful (dg_echo_round fd x)" for fd x
    unfolding dg_echo_round_def by (intro lawful_intros)
  show "lawful (dg_echo fd)"
    unfolding dg_echo_def by (intro lawful_forever eats_dg_echo_round round)
  show "lawful (dg_cli_verify fd sa)" "lawful (dg_cli_connect fd sa)" "lawful (dg_cli_rcvtimeo fd sa)"
    "lawful (dg_cli_alarm h fd sa)" "lawful (dg_cli_select fd sa)"
    unfolding dg_cli_verify_def dg_cli_connect_def dg_cli_rcvtimeo_def dg_cli_alarm_def dg_cli_select_def
    by (intro lawful_intros)+
qed

section \<open>What the server echoes\<close>

fun ev_came :: "int \<Rightarrow> event \<Rightarrow> (byte list \<times> sockaddr) list" where
  "ev_came fd (Did (C_recvfrom fd' n fl) r) = (if fd' = fd \<and> 0 \<le> r_val r then [(got n r, r_addr r)] else [])"
| "ev_came fd _ = []"

fun ev_went :: "int \<Rightarrow> event \<Rightarrow> (byte list \<times> sockaddr) list" where
  "ev_went fd (Did (C_sendto fd' bs fl sa) r) = (if fd' = fd \<and> put_len bs r = int (length bs) then [(bs, sa)] else [])"
| "ev_went fd _ = []"

definition came :: "int \<Rightarrow> world \<Rightarrow> (byte list \<times> sockaddr) list" where
  "came fd w = concat (map (ev_came fd) (trace w))"

definition went :: "int \<Rightarrow> world \<Rightarrow> (byte list \<times> sockaddr) list" where
  "went fd w = concat (map (ev_went fd) (trace w))"

lemma came_went_took [simp]:
  "came fd (took c r w) = came fd w @ ev_came fd (Did c r)"
  "went fd (took c r w) = went fd w @ ev_went fd (Did c r)"
  by (simp_all add: came_def went_def)

lemma came_went_err:
  "came fd (snd (err_doit f l m w)) = came fd w" "went fd (snd (err_doit f l m w)) = went fd w"
  by (simp_all add: err_doit_apply came_def went_def)

interpretation dg_echo_loop: consuming "\<lambda>x. andThen (dg_echo_round fd x) (\<lambda>y. again y)" for fd
  by (rule consuming_forever) (rule eats_dg_echo_round)

text \<open>One round: it receives a datagram and sends it back, or stops in between.\<close>

lemma dg_echo_round_effect:
  assumes "dg_echo_round fd x w = (res, w')" and "came fd w = went fd w"
  shows "(\<forall>u. res = Inr u \<longrightarrow> came fd w' = went fd w') \<and>
    (\<forall>e. res = Inl e \<longrightarrow> (\<exists>d. came fd w' = went fd w' @ d \<and> length d \<le> 1) \<and>
       (e = Blocked \<or> e = Exit 1 ''recvfrom error'' \<or> e = Exit 1 ''sendto error''))"
proof (cases "resps w")
  case Nil
  with assms show ?thesis
    by (auto simp: dg_echo_round_def Recvfrom_def andThen_apply sys_apply)
next
  case (Cons r rs)
  let ?v = "took (C_recvfrom fd MAXLINE 0) r w"
  show ?thesis
  proof (cases "r_val r < 0")
    case True
    with Cons assms have "res = Inl (Exit 1 ''recvfrom error'')"
      and "w' = snd (err_doit True LOG_ERR ''recvfrom error'' ?v)"
      by (auto simp: dg_echo_round_def Recvfrom_def andThen_apply sys_apply)
    with True assms(2) show ?thesis
      by (simp add: came_went_err)
  next
    case False
    let ?bs = "got MAXLINE r"
    from False Cons assms(1) have s: "Sendto fd ?bs 0 (r_addr r) ?v = (res, w')"
      by (simp add: dg_echo_round_def Recvfrom_def andThen_apply sys_apply)
    show ?thesis
    proof (cases rs)
      case Nil
      with s Cons False assms(2) show ?thesis
        by (auto simp: Sendto_def andThen_apply sys_apply)
    next
      case (Cons q qs)
      let ?u = "took (C_sendto fd ?bs 0 (r_addr r)) q ?v"
      have "if put_len ?bs q = int (length ?bs) then res = Inr () \<and> w' = ?u
        else res = Inl (Exit 1 ''sendto error'') \<and> w' = snd (err_doit True LOG_ERR ''sendto error'' ?u)"
        using s Cons \<open>resps w = r # rs\<close>
        by (auto simp: Sendto_def andThen_apply sys_apply split: if_splits)
      with False assms(2) show ?thesis
        by (auto simp: came_went_err split: if_splits)
    qed
  qed
qed

lemma dg_echo_run:
  assumes "dg_echo fd w = (res, w')" and "came fd w = went fd w"
  shows "(\<exists>d. came fd w' = went fd w' @ d \<and> length d \<le> 1) \<and>
    (\<exists>e. res = Inl e \<and> (e = Blocked \<or> e = Exit 1 ''recvfrom error'' \<or> e = Exit 1 ''sendto error''))"
proof -
  let ?Q = "\<lambda>res v. (\<exists>d. came fd v = went fd v @ d \<and> length d \<le> 1) \<and>
    (\<exists>e. res = (Inl e :: stop + unit) \<and> (e = Blocked \<or> e = Exit 1 ''recvfrom error'' \<or> e = Exit 1 ''sendto error''))"
  show ?thesis
  proof (rule dg_echo_loop.loop_rule [where I = "\<lambda>_ v. came fd v = went fd v" and Q = ?Q,
        OF assms(1) [unfolded dg_echo_def forever_def]])
    show "came fd w = went fd w" by (rule assms(2))
  next
    fix x v y v'
    assume "came fd v = went fd v"
      and "andThen (dg_echo_round fd x) (\<lambda>y. again y) v = (Inr (Inl y), v')"
    then show "came fd v' = went fd v'"
      using dg_echo_round_effect [of fd x v] by (auto simp: andThen_eq_Inr_iff)
  next
    fix x v v' and a :: unit
    assume "andThen (dg_echo_round fd x) (\<lambda>y. again y) v = (Inr (Inr a), v')"
    then show "?Q (Inr a) v'"
      by (auto simp: andThen_eq_Inr_iff)
  next
    fix x v e v'
    assume "came fd v = went fd v" and "andThen (dg_echo_round fd x) (\<lambda>y. again y) v = (Inl e, v')"
    then show "?Q (Inl e) v'"
      using dg_echo_round_effect [of fd x v] by (auto simp: andThen_eq_Inl_iff)
  qed
qed

text \<open>(C6) \<open>dg_echo\<close> sends every datagram back unchanged to the address it came from, in order: in
  every outcome the datagrams sent are those received, but for the last one when sending it
  failed or has not finished; and the server never returns.\<close>

theorem dg_echo_faithful:
  assumes "dg_echo fd w = (res, w')" and "came fd w = went fd w"
  shows "(\<exists>d. came fd w' = went fd w' @ d \<and> length d \<le> 1) \<and>
    (\<exists>e. res = Inl e \<and> (e = Blocked \<or> e = Exit 1 ''recvfrom error'' \<or> e = Exit 1 ''sendto error''))"
  using dg_echo_run [OF assms] .

theorem dg_echo_faithful_witness:
  "\<exists>w' d. dg_echo 3 (start [no_resp\<lparr>r_data := [104, 105], r_addr := Sin 9 1\<rparr>, ok 2]) = (Inl Blocked, w') \<and>
     came 3 w' = went 3 w' @ d \<and> went 3 w' = [([104, 105], Sin 9 1)]"
proof -
  let ?r = "no_resp\<lparr>r_data := [104, 105], r_addr := Sin 9 1\<rparr>"
  let ?w = "start [?r, ok 2]"
  let ?v = "took (C_sendto 3 [104, 105] 0 (Sin 9 1)) (ok 2) (took (C_recvfrom 3 MAXLINE 0) ?r ?w)"
  have got: "got MAXLINE ?r = [104, 105]" by (simp add: got_def no_resp_def MAXLINE_def)
  have "dg_echo_round 3 () ?w = (Inr (), ?v)"
    by (simp add: dg_echo_round_def Recvfrom_def Sendto_def andThen_apply sys_apply got_len_def put_len_def
        got no_resp_def) (simp add: resp_defs got [unfolded no_resp_def, simplified])
  then have "dg_echo 3 ?w = dg_echo 3 ?v"
    unfolding dg_echo_def forever_def
    by (intro trans [OF dg_echo_loop.loop_unfold]) (simp add: andThen_apply)
  moreover have "dg_echo_round 3 () ?v = (Inl Blocked, ?v)"
    by (simp add: dg_echo_round_def Recvfrom_def andThen_apply sys_apply)
  then have "dg_echo 3 ?v = (Inl Blocked, ?v)"
    unfolding dg_echo_def forever_def
    by (intro trans [OF dg_echo_loop.loop_unfold]) (simp add: andThen_apply)
  ultimately have run: "dg_echo 3 ?w = (Inl Blocked, ?v)" by simp
  have "came 3 ?w = went 3 ?w" by (simp add: came_def went_def)
  from dg_echo_faithful [OF run this] obtain d where "came 3 ?v = went 3 ?v @ d" by blast
  moreover have "went 3 ?v = [([104, 105], Sin 9 1)]"
    by (simp add: went_def put_len_def resp_defs)
  ultimately show ?thesis using run by blast
qed

end
