(* ===== verification/Tcp_Programs.thy ===== *)
theory Tcp_Programs
  imports Connections Datagram_Echo
begin

text \<open>
  The TCP programs built from the functions of \<open>Echo\<close> and \<open>Connect\<close>: the clients and the
  concurrent servers of \<open>StringEcho1\<close> to \<open>StringEcho5_poll\<close> (the \<open>select\<close> and \<open>poll\<close> servers
  have theories of their own), the time servers and clients of \<open>TimeEcho1\<close> to \<open>TimeEcho3\<close> and
  of \<open>names\<close>, the clients of \<open>nonblock\<close>, and the server for TCP and UDP of \<open>tcpudp\<close>.

  After \<open>fork\<close> a program goes on as the process that its value selects: 0 is the child. A run is
  the history of one process; \<open>exit (0)\<close> is \<open>Exit 0\<close> with no message.
\<close>

section \<open>Clients\<close>

definition WNOHANG :: int where "WNOHANG = 1"

definition exit0 :: "(world, 'a) prog" where
  "exit0 = halt (Exit 0 '''')"

text \<open>The beginning all the clients share: an error of \<open>socket\<close> or \<open>inet_pton\<close> is printed and not
  acted on, one of \<open>connect\<close> ends the program with status 0.\<close>

definition connect_client :: "(int \<Rightarrow> (world, unit) prog) \<Rightarrow> (world, int) prog" where
  "connect_client cli = andThen (sys_int (C_socket AF_INET SOCK_STREAM 0)) (\<lambda>sockfd.
     seq (only_if (sockfd < 0) (print ''socket error '' [sockfd]))
    (andThen (sys (C_lib ''inet_pton'' [AF_INET] (lit ''127.0.0.1''))) (\<lambda>r.
     seq (only_if (r_val r \<le> 0) (print ''inet_pton error for 127.0.0.1'' []))
    (andThen (sys_int (C_connect sockfd (Sin (htons 1313) (if r_val r \<le> 0 then 0 else addr4 (r_data r))))) (\<lambda>n.
       if n < 0 then seq (print ''connect error'' []) (ret 0)
       else seq (cli sockfd) (ret 0))))))"

definition StringEcho2_client_main :: "rl \<Rightarrow> (world, int) prog" where
  "StringEcho2_client_main s = connect_client (\<lambda>fd. seq (str_cli fd s) (ret ()))"

definition StringEcho3_client_main :: "rl \<Rightarrow> (world, int) prog" where
  "StringEcho3_client_main s = connect_client (\<lambda>fd. seq (str_cli_select 0 fd s) (ret ()))"

definition StringEcho4_client_main :: "(world, int) prog" where
  "StringEcho4_client_main = connect_client (str_cli_select_shutdown 0)"

definition StringEcho5_client_main :: "(world, int) prog" where
  "StringEcho5_client_main = connect_client (str_cli_select_shutdown 0)"

text \<open>\<open>nonblock/strclifork.cpp\<close>: the child copies from the socket to the standard output and then
  terminates its parent (\<open>SIGTERM\<close> is 15), the parent copies from the standard input to the
  socket and waits for the signal in \<open>pause\<close>.\<close>

definition strclifork_child_round :: "int \<Rightarrow> rl \<Rightarrow> (world, rl + rl) prog" where
  "strclifork_child_round sockfd s = andThen (Readline sockfd MAXLINE s) (\<lambda>(n, recvline, s).
     if 0 < n then seq (Fputs recvline) (again s) else leave s)"

definition strclifork :: "int \<Rightarrow> rl \<Rightarrow> (world, unit) prog" where
  "strclifork sockfd s = andThen Fork (\<lambda>pid.
     if pid = 0 then
       seq (loop (strclifork_child_round sockfd) s)
      (andThen (sys_int (C_lib ''getppid'' [] [])) (\<lambda>ppid.
         seq (sys (C_lib ''kill'' [ppid, 15] [])) exit0))
     else
       seq (each_line (\<lambda>sendline. Writen sockfd sendline))
      (seq (Shutdown sockfd SHUT_WR)
      (seq (sys (C_lib ''pause'' [] [])) (ret ()))))"

definition strclifork_main :: "rl \<Rightarrow> (world, int) prog" where
  "strclifork_main s = connect_client (\<lambda>fd. strclifork fd s)"

text \<open>The clients of the time service copy what they read to the standard output.\<close>

definition print_bytes :: "byte list \<Rightarrow> (world, unit) prog" where
  "print_bytes bs = print ''%s'' (map uint (cstr bs))"

definition TimeEcho_round :: "int \<Rightarrow> unit \<Rightarrow> (world, unit + int) prog" where
  "TimeEcho_round sockfd _ = andThen (sys_read sockfd MAXLINE) (\<lambda>(n, recvline).
     if 0 < n then seq (print_bytes recvline) (again ()) else leave n)"

definition TimeEcho1_client_main :: "(world, int) prog" where
  "TimeEcho1_client_main = seq (print ''Hello, World!'' []) (connect_client (\<lambda>sockfd.
     andThen (loop (TimeEcho_round sockfd) ()) (\<lambda>n. only_if (n < 0) (print ''read error'' []))))"

text \<open>The client of \<open>TimeEcho2\<close> is that of \<open>TimeEcho1\<close> again.\<close>

definition TimeEcho2_client_main :: "(world, int) prog" where
  "TimeEcho2_client_main = TimeEcho1_client_main"

text \<open>\<open>advio/Echo_Cli_kqueue\<close>, which builds where there is \<open>kqueue\<close>: its \<open>str_cli\<close> only finds out whether the
  standard input is a regular file. \<open>fstat\<close> stores the mode; \<open>S_IFMT\<close> is \<open>0xF000\<close> and \<open>S_IFREG\<close> is \<open>0x8000\<close>.\<close>

definition kqueue_str_cli :: "int \<Rightarrow> int \<Rightarrow> (world, unit) prog" where
  "kqueue_str_cli fp sockfd = andThen (sys (C_lib ''fstat'' [fp] [])) (\<lambda>r.
     let isfile = (r_val r = 0 \<and> aux r 0 AND 0xF000 = 0x8000) in ret ())"

definition kqueue_client_main :: "(world, int) prog" where
  "kqueue_client_main = connect_client (kqueue_str_cli 0)"

definition copy_round :: "int \<Rightarrow> unit \<Rightarrow> (world, unit + unit) prog" where
  "copy_round sockfd _ = andThen (Read sockfd MAXLINE) (\<lambda>recvline.
     if recvline = [] then leave () else seq (Fputs recvline) (again ()))"

definition tcp_connect_cli_main :: "byte list list \<Rightarrow> (world, unit) prog" where
  "tcp_connect_cli_main argv =
     (if length argv \<noteq> 3 then err_quit ''usage : daytimetcpcli <hostname/IPaddress> <service/port#>''
      else andThen (Tcp_connect (argv ! 1) (argv ! 2)) (\<lambda>sockfd.
        andThen (Getpeername sockfd) (\<lambda>ss.
        seq (Sock_ntop_host False (\<lambda>_. []) ss (sa_len ss))
       (seq (print ''connect to %s'' [])
       (seq (loop (copy_round sockfd) ()) exit0)))))"

text \<open>\<open>TimeEcho3\<close>: the addresses \<open>gethostbyname\<close> gives, or the address itself, are tried in turn.\<close>

fun try_daytime :: "u16 \<Rightarrow> u32 list \<Rightarrow> (world, int option) prog" where
  "try_daytime port [] = ret None"
| "try_daytime port (a # as) = andThen (Socket AF_INET SOCK_STREAM 0) (\<lambda>sockfd.
     seq (Sock_ntop False (\<lambda>_. []) (Sin port a) 16)
    (seq (print ''trying %s'' [])
    (andThen (sys_int (C_connect sockfd (Sin port a))) (\<lambda>n.
       if n = 0 then ret (Some sockfd)
       else seq (err_ret ''connect error;'') (seq (sys (C_close sockfd)) (try_daytime port as))))))"

definition TimeEcho3_client_main :: "byte list list \<Rightarrow> (world, int) prog" where
  "TimeEcho3_client_main argv =
     (if length argv \<noteq> 3 then err_quit ''usage: daytimetcpcli3 <hostname> <service>''
      else andThen (sys (C_lib ''gethostbyname'' [] (argv ! 1))) (\<lambda>hp.
        andThen (if r_val hp = 0 then
            andThen (sys (C_lib ''inet_aton'' [] (argv ! 1))) (\<lambda>r.
              if r_val r = 0 then err_quit ''hostname error for %s: %s'' else ret [addr4 (r_data r)])
          else ret (map (\<lambda>a. case ai_addr a of Sin p x \<Rightarrow> x | _ \<Rightarrow> 0) (r_addrs hp))) (\<lambda>as.
        andThen (sys (C_lib ''getservbyname'' [] (argv ! 2))) (\<lambda>sp.
          if r_val sp = 0 then err_quit ''getservbyname error for %s''
          else andThen (try_daytime (word_of_int (aux sp 0)) as) (\<lambda>z. case z of
              None \<Rightarrow> err_quit ''unable to connect''
            | Some sockfd \<Rightarrow> seq (loop (copy_round sockfd) ()) (ret 0))))))"

section \<open>Concurrent servers\<close>

text \<open>The handlers of \<open>SIGCHLD\<close>: \<open>StringEcho1\<close> waits for one child, the others for every child
  that has terminated.\<close>

definition sig_chld_wait :: "(world, unit) prog" where
  "sig_chld_wait = andThen (sys_int (C_lib ''wait'' [] [])) (\<lambda>pid. print ''child terminated'' [pid])"

definition sig_chld_round :: "unit \<Rightarrow> (world, unit + unit) prog" where
  "sig_chld_round _ = andThen (sys_int (C_lib ''waitpid'' [-1, WNOHANG] [])) (\<lambda>pid.
     if 0 < pid then seq (print ''child terminated'' [pid]) (again ()) else leave ())"

definition sig_chld :: "(world, unit) prog" where
  "sig_chld = loop sig_chld_round ()"

text \<open>\<open>StringEcho1\<close>, \<open>StringEcho2\<close>, \<open>StringEcho3\<close>: the parent itself serves the connection before it
  forks.\<close>

definition echo_server_round :: "int \<Rightarrow> unit \<Rightarrow> (world, unit) prog" where
  "echo_server_round listenfd _ = andThen (sys_int (C_accept listenfd)) (\<lambda>connfd. andThen get_errno (\<lambda>errno.
     if connfd < 0 then (if errno = EINTR then ret () else err_sys ''accept error'')
     else seq (str_echo connfd)
      (andThen (sys_int (C_lib ''fork'' [] [])) (\<lambda>childpid.
         if childpid < 0 then err_sys ''fork failed''
         else if childpid = 0 then
           seq (sys (C_close listenfd)) (seq (str_echo connfd) exit0)
         else seq (sys (C_close connfd)) (ret ())))))"

definition StringEcho_server_main :: "int \<Rightarrow> (world, int) prog" where
  "StringEcho_server_main handler = andThen (sys_int (C_socket AF_INET SOCK_STREAM 0)) (\<lambda>listenfd.
     seq (Bind listenfd (Sin (htons 1313) (htonl INADDR_ANY)))
    (seq (sys (C_listen listenfd 100))
    (seq (Signal SIGCHLD handler)
         (forever (echo_server_round listenfd) ()))))"

definition StringEcho1_server_main :: "(world, int) prog" where
  "StringEcho1_server_main = StringEcho_server_main 1"

definition StringEcho2_server_main :: "(world, int) prog" where
  "StringEcho2_server_main = StringEcho_server_main 1"

definition StringEcho3_server_main :: "(world, int) prog" where
  "StringEcho3_server_main = StringEcho_server_main 1"

text \<open>\<open>tcpudp/ServerSelect\<close>: TCP connections are served by a child, datagrams by the process itself.\<close>

definition serve_tcp :: "int \<Rightarrow> (world, unit) prog" where
  "serve_tcp listenfd = andThen (Accept listenfd) (\<lambda>(connfd, _).
     andThen Fork (\<lambda>childpid.
       if childpid = 0 then seq (Close listenfd) (seq (str_echo connfd) exit0)
       else Close connfd))"

definition tcpudp_round :: "int \<Rightarrow> int \<Rightarrow> int set \<Rightarrow> (world, int set) prog" where
  "tcpudp_round listenfd udpfd rset =
     andThen (sys_select (insert udpfd (insert listenfd rset)) {} {} None) (\<lambda>(nready, rset, _).
     andThen get_errno (\<lambda>errno.
       if nready < 0 then (if errno = EINTR then ret rset else err_sys ''select error'')
       else seq (only_if (listenfd \<in> rset) (serve_tcp listenfd))
           (seq (only_if (udpfd \<in> rset) (dg_echo_round udpfd ())) (ret rset))))"

definition tcpudp_main :: "(world, int) prog" where
  "tcpudp_main = andThen (Socket AF_INET SOCK_STREAM 0) (\<lambda>listenfd.
     seq (Setsockopt listenfd SOL_SOCKET SO_REUSEADDR [1])
    (seq (Bind listenfd (Sin (htons 1313) (htonl INADDR_ANY)))
    (seq (Listen listenfd 100)
    (andThen (Socket AF_INET SOCK_DGRAM 0) (\<lambda>udpfd.
     seq (Bind udpfd (Sin (htons 1313) (htonl INADDR_ANY)))
    (seq (Signal SIGCHLD 1)
         (forever (tcpudp_round listenfd udpfd) {})))))))"

section \<open>Time servers\<close>

text \<open>The 24 characters \<open>ctime\<close> starts with, and the end of the line.\<close>

definition time_line :: "byte list \<Rightarrow> (world, byte list) prog" where
  "time_line eol = seq (sys (C_lib ''time'' [] []))
     (andThen (sys (C_lib ''ctime'' [] [])) (\<lambda>r. ret (take 24 (cstr (r_data r)) @ eol)))"

definition daytime_round :: "int \<Rightarrow> unit \<Rightarrow> (world, unit) prog" where
  "daytime_round listenfd _ = andThen (Accept listenfd) (\<lambda>(connfd, cliaddr).
     seq (Sock_ntop False (\<lambda>_. []) cliaddr (sa_len cliaddr))
    (seq (print ''connect from %s'' [])
    (andThen (time_line [13, NEWLINE]) (\<lambda>buff.
     seq (Write connfd buff) (Close connfd)))))"

definition tcp_listen_srv1_main :: "byte list list \<Rightarrow> (world, int) prog" where
  "tcp_listen_srv1_main argv =
     (if length argv \<noteq> 2 then err_quit ''usage: tcp listen server1 <service or port#>''
      else andThen (Tcp_listen None (argv ! 1)) (\<lambda>(listenfd, _). forever (daytime_round listenfd) ()))"

definition tcp_listen_srv2_main :: "byte list list \<Rightarrow> (world, int) prog" where
  "tcp_listen_srv2_main argv =
     andThen (if length argv = 2 then Tcp_listen None (argv ! 1)
        else if length argv = 3 then Tcp_listen (Some (argv ! 1)) (argv ! 2)
        else err_quit ''usage: tcp listen server2 [<host>] <service or port#>'') (\<lambda>(listenfd, _).
     forever (daytime_round listenfd) ())"

text \<open>\<open>TimeEcho1\<close> and \<open>TimeEcho2\<close> check nothing but \<open>bind\<close>.\<close>

definition TimeEcho1_server_round :: "int \<Rightarrow> unit \<Rightarrow> (world, unit) prog" where
  "TimeEcho1_server_round listenfd _ = andThen (sys_int (C_accept listenfd)) (\<lambda>connfd.
     andThen (time_line [NEWLINE]) (\<lambda>buff.
     seq (sys_write connfd buff) (seq (sys (C_close connfd)) (ret ()))))"

definition TimeEcho2_server_round :: "int \<Rightarrow> unit \<Rightarrow> (world, unit) prog" where
  "TimeEcho2_server_round listenfd _ = andThen (sys (C_accept listenfd)) (\<lambda>r.
     seq (sys (C_lib ''inet_ntop'' [AF_INET] []))
    (seq (print ''connection from , port'' [case r_addr r of Sin p a \<Rightarrow> uint (ntohs p) | _ \<Rightarrow> 0])
    (andThen (time_line [NEWLINE]) (\<lambda>buff.
     seq (sys_write (r_val r) buff) (seq (sys (C_close (r_val r))) (ret ()))))))"

definition TimeEcho_server :: "(int \<Rightarrow> unit \<Rightarrow> (world, unit) prog) \<Rightarrow> (world, int) prog" where
  "TimeEcho_server round = seq (print ''Hello, World!'' [])
     (andThen (sys_int (C_socket AF_INET SOCK_STREAM 0)) (\<lambda>listenfd.
      andThen (sys_int (C_bind listenfd (Sin (htons 1313) (htonl INADDR_ANY)))) (\<lambda>n.
        if n = -1 then seq (complain ''bind'') (halt (Exit 1 ''''))
        else seq (sys (C_listen listenfd 100)) (forever (round listenfd) ()))))"

definition TimeEcho1_server_main :: "(world, int) prog" where
  "TimeEcho1_server_main = TimeEcho_server TimeEcho1_server_round"

definition TimeEcho2_server_main :: "(world, int) prog" where
  "TimeEcho2_server_main = TimeEcho_server TimeEcho2_server_round"

section \<open>UDP programs of names\<close>

definition udp_client_cli1_main :: "byte list list \<Rightarrow> (world, int) prog" where
  "udp_client_cli1_main argv =
     (if length argv \<noteq> 3 then err_quit ''usage: udp client cli1: <hostname/ip address> <service/port#>''
      else andThen (Udp_client (argv ! 1) (argv ! 2)) (\<lambda>(sockfd, sa, salen).
        seq (Sock_ntop_host False (\<lambda>_. []) sa salen)
       (seq (print ''send to %s'' [])
       (seq (Sendto sockfd [32] 0 sa)
       (andThen (Recvfrom sockfd MAXLINE 0) (\<lambda>(recvline, _).
          seq (Fputs recvline) (ret 0)))))))"

definition udp_server1_round :: "int \<Rightarrow> unit \<Rightarrow> (world, unit) prog" where
  "udp_server1_round sockfd _ = andThen (Recvfrom sockfd MAXLINE 0) (\<lambda>(_, cliaddr).
     seq (Sock_ntop False (\<lambda>_. []) cliaddr (sa_len cliaddr))
    (seq (print ''datagram from %s'' [])
    (andThen (time_line [13, NEWLINE]) (\<lambda>buff. Sendto sockfd buff 0 cliaddr))))"

definition udp_server1_main :: "byte list list \<Rightarrow> (world, int) prog" where
  "udp_server1_main argv =
     andThen (if length argv = 2 then Udp_server None (argv ! 1)
        else if length argv = 3 then Udp_server (Some (argv ! 1)) (argv ! 2)
        else err_quit ''usage: udp server1 [<host>] <service or port#>'') (\<lambda>(sockfd, _).
     forever (udp_server1_round sockfd) ())"

definition udp_getsockname_main :: "(world, int) prog" where
  "udp_getsockname_main = andThen (Socket AF_INET SOCK_DGRAM 0) (\<lambda>sockfd.
     andThen (Inet_pton AF_INET (lit ''www.sina.com.cn'')) (\<lambda>addr.
     seq (Connect sockfd (Sin (htons 1234) (addr4 addr)))
    (andThen (Getsockname sockfd) (\<lambda>cliaddr.
     seq (Sock_ntop False (\<lambda>_. []) cliaddr (sa_len cliaddr))
    (seq (print ''local address'' []) (ret 0))))))"

text \<open>\<open>gethostbyname\<close> returns the official name and the aliases, each ended by a null byte, the type of the
  addresses, and the addresses.\<close>

function c_strings :: "byte list \<Rightarrow> byte list list" where
  "c_strings bs = (if NUL \<in> set bs then cstr bs # c_strings (tl (dropWhile (\<lambda>b. b \<noteq> NUL) bs)) else [])"
  by pat_completeness auto

termination
proof (relation "measure length")
  fix bs :: "byte list"
  assume "NUL \<in> set bs"
  then have "dropWhile (\<lambda>b. b \<noteq> NUL) bs \<noteq> []" by (auto simp: dropWhile_eq_Nil_conv)
  then have "length (tl (dropWhile (\<lambda>b. b \<noteq> NUL) bs)) < length (dropWhile (\<lambda>b. b \<noteq> NUL) bs)" by simp
  also have "\<dots> \<le> length bs" by (rule length_dropWhile_le)
  finally show "(tl (dropWhile (\<lambda>b. b \<noteq> NUL) bs), bs) \<in> measure length" by simp
qed simp

declare c_strings.simps [simp del]

fun print_all :: "string \<Rightarrow> byte list list \<Rightarrow> (world, unit) prog" where
  "print_all fmt [] = ret ()"
| "print_all fmt (bs # bss) = seq (print fmt (map uint bs)) (print_all fmt bss)"

fun print_addresses :: "int \<Rightarrow> sockaddr list \<Rightarrow> (world, unit) prog" where
  "print_addresses ty [] = ret ()"
| "print_addresses ty (Sin p a # rest) = andThen (Inet_ntop ty (bytes32 a) False MAXLINE) (\<lambda>s.
     seq (print '' address: '' (map uint s)) (print_addresses ty rest))"
| "print_addresses ty (sa # rest) = halt (Undef ''h_addr_list'')"

definition gethostbyname_main :: "(world, int) prog" where
  "gethostbyname_main = andThen (sys (C_lib ''gethostbyname'' [] (lit ''www.baidu.com''))) (\<lambda>r.
     if r_val r = 0 then seq (err_msg ''gethostbyname error for host : %s:%s'') (ret 0)
     else case c_strings (r_data r) of
         [] \<Rightarrow> halt (Undef ''h_name'')
       | h_name # h_aliases \<Rightarrow>
           seq (print '' official hostname:'' (map uint h_name))
          (seq (print_all '' alias: '' h_aliases)
          (seq (if aux r 0 = AF_INET then print_addresses (aux r 0) (map (\<lambda>(_, _, _, sa). sa) (r_addrs r))
                else err_ret ''unknown address type'')
          (ret 0))))"

section \<open>The loops make progress\<close>

interpretation sig_chld_c: consuming sig_chld_round
  by unfold_locales (auto simp: sig_chld_round_def intro!: eats_intros eats_first lawful_intros)

interpretation copy_c: consuming "copy_round fd" for fd
  by unfold_locales (auto simp: copy_round_def intro!: eats_intros eats_first lawful_intros)

interpretation TimeEcho_c: consuming "TimeEcho_round fd" for fd
  by unfold_locales
    (auto simp: TimeEcho_round_def print_bytes_def intro!: eats_intros eats_first lawful_intros)

interpretation strclifork_child_c: consuming "strclifork_child_round fd" for fd
proof
  show "eats repeats (strclifork_child_round fd s)" for s
    unfolding strclifork_child_round_def
    by (rule eats_second) (auto intro!: eats_intros eats_first lawful_intros)
qed

section \<open>What the programs do\<close>

text \<open>(C21) The handler of \<open>StringEcho2\<close> and \<open>StringEcho3\<close> reaps every child that has terminated: it
  goes on while \<open>waitpid\<close> names one and stops at the first answer that does not, so that no
  zombie is left when several children end at once.\<close>

theorem sig_chld_reaps_all:
  assumes "resps w = map ok pids @ r # rest" and "\<forall>pid\<in>set pids. 0 < pid" and "r_val r \<le> 0"
  shows "\<exists>w'. sig_chld w = (Inr (), w') \<and> resps w' = rest \<and>
    trace w' = trace w @ concat (map (\<lambda>pid. [Did (C_lib ''waitpid'' [-1, WNOHANG] []) (ok pid),
      Print ''child terminated'' [pid]]) pids) @ [Did (C_lib ''waitpid'' [-1, WNOHANG] []) r]"
  using assms
proof (induction pids arbitrary: w)
  case Nil
  then show ?case
    by (simp add: sig_chld_def sig_chld_c.loop_unfold sig_chld_round_def sys_int_def andThen_apply sys_apply)
next
  case (Cons pid pids)
  let ?v = "took (C_lib ''waitpid'' [-1, WNOHANG] []) (ok pid) w"
  let ?u = "?v\<lparr>trace := trace ?v @ [Print ''child terminated'' [pid]]\<rparr>"
  have "sig_chld_round () w = (Inr (Inl ()), ?u)"
    using Cons.prems by (simp add: sig_chld_round_def sys_int_def andThen_apply sys_apply)
  then have "sig_chld w = sig_chld ?u"
    by (simp add: sig_chld_def sig_chld_c.loop_unfold [of "()" w])
  with Cons.IH [of ?u] Cons.prems show ?case by simp
qed

theorem sig_chld_reaps_all_witness:
  "\<exists>w'. sig_chld (start [ok 71, ok 72, ok 0]) = (Inr (), w') \<and> resps w' = []"
  using sig_chld_reaps_all [of "start [ok 71, ok 72, ok 0]" "[71, 72]" "ok 0" "[]"] by auto

text \<open>The events of an echo: \<open>read\<close>s and \<open>write\<close>s of the connection, and log lines.\<close>

definition echo_event :: "int \<Rightarrow> event \<Rightarrow> bool" where
  "echo_event fd ev \<longleftrightarrow> reads_of fd ev \<or> writes_of fd ev \<or> is_log ev"

lemma str_echo_wp:
  assumes "\<And>v tr. trace v = trace w @ tr \<Longrightarrow> \<forall>ev\<in>set tr. echo_event fd ev \<Longrightarrow> \<exists>ev\<in>set tr. read_eof fd ev \<Longrightarrow> Q () v"
    and "\<And>e v tr. trace v = trace w @ tr \<Longrightarrow> \<forall>ev\<in>set tr. echo_event fd ev \<Longrightarrow> E e v"
  shows "wp (str_echo fd) Q E w"
  unfolding str_echo_def
proof (rule str_echo_loop.loop_wp [where I = "\<lambda>_ v. \<exists>tr. trace v = trace w @ tr \<and> (\<forall>ev\<in>set tr. echo_event fd ev)"])
  show "\<exists>tr. trace w = trace w @ tr \<and> (\<forall>ev\<in>set tr. echo_event fd ev)" by simp
next
  fix x :: unit and v :: world
  assume "\<exists>tr. trace v = trace w @ tr \<and> (\<forall>ev\<in>set tr. echo_event fd ev)"
  then obtain tr where tr: "trace v = trace w @ tr" "\<forall>ev\<in>set tr. echo_event fd ev" by blast
  show "wp (str_echo_round fd x) (\<lambda>z v. case z of
      Inl y \<Rightarrow> \<exists>tr. trace v = trace w @ tr \<and> (\<forall>ev\<in>set tr. echo_event fd ev) | Inr a \<Rightarrow> Q a v) E v"
    unfolding str_echo_round_def sys_read_def
  proof (intro wp_intros)
    show "E Blocked v" by (rule assms(2) [OF tr])
  next
    fix r n buf and u :: world and tr' :: "event list"
    assume "trace u = trace (took (C_read fd MAXLINE) r v) @ tr'" "\<forall>ev\<in>set tr'. writes_of fd ev"
    with tr show "case Inl () of
        Inl y \<Rightarrow> \<exists>tr. trace u = trace w @ tr \<and> (\<forall>ev\<in>set tr. echo_event fd ev) | Inr a \<Rightarrow> Q a u"
      by (auto intro!: exI [of _ "tr @ Did (C_read fd MAXLINE) r # tr'"] simp: echo_event_def reads_of_def)
  next
    fix r n buf e k and u :: world and tr' :: "event list"
    assume "trace u = trace (took (C_read fd MAXLINE) r v) @ tr'" "\<forall>ev\<in>set tr'. writes_of fd ev \<or> is_log ev"
    with tr show "E e u"
      by (intro assms(2) [of _ "tr @ Did (C_read fd MAXLINE) r # tr'"]) (auto simp: echo_event_def reads_of_def)
  next
    fix r :: resp and ev
    assume "is_log ev"
    with tr show "E (Exit 1 ''str_echo: read error'') (took (C_read fd MAXLINE) r v
        \<lparr>trace := trace (took (C_read fd MAXLINE) r v) @ [ev]\<rparr>)"
      by (intro assms(2) [of _ "tr @ [Did (C_read fd MAXLINE) r, ev]"]) (auto simp: echo_event_def reads_of_def)
  next
    fix r n buf
    assume "(got_len MAXLINE r, got MAXLINE r) = (n, buf)" "\<not> 0 < n" "\<not> n < 0"
    then have "read_eof fd (Did (C_read fd MAXLINE) r)" by simp
    with tr show "case Inr () of
        Inl y \<Rightarrow> \<exists>tr. trace (took (C_read fd MAXLINE) r v) = trace w @ tr \<and> (\<forall>ev\<in>set tr. echo_event fd ev)
      | Inr a \<Rightarrow> Q a (took (C_read fd MAXLINE) r v)"
      by (auto intro!: assms(1) [of _ "tr @ [Did (C_read fd MAXLINE) r]"] simp: echo_event_def reads_of_def)
  qed (use tr in \<open>auto simp: echo_event_def reads_of_def\<close>)
qed

text \<open>Reading a trace from the left: a connection is accepted, then its end is read (\<open>ev_seen\<close>), and
  \<open>forks_late\<close> says that each \<open>fork\<close> comes only then.\<close>

fun ev_fork :: "event \<Rightarrow> bool" where
  "ev_fork (Did (C_lib nm is bs) r) \<longleftrightarrow> nm = ''fork''"
| "ev_fork ev \<longleftrightarrow> False"

fun ev_seen :: "event \<Rightarrow> bool \<Rightarrow> bool" where
  "ev_seen (Did (C_accept fd) r) seen \<longleftrightarrow> False"
| "ev_seen (Did (C_read fd n) r) seen \<longleftrightarrow> seen \<or> got_len n r = 0"
| "ev_seen ev seen \<longleftrightarrow> seen"

fun forks_late :: "bool \<Rightarrow> event list \<Rightarrow> bool" where
  "forks_late seen [] \<longleftrightarrow> True"
| "forks_late seen (ev # tr) \<longleftrightarrow> (ev_fork ev \<longrightarrow> seen) \<and> forks_late (ev_seen ev seen) tr"

lemma forks_late_append [simp]:
  "forks_late seen (tr @ tr') \<longleftrightarrow> forks_late seen tr \<and> forks_late (fold ev_seen tr seen) tr'"
  by (induction tr arbitrary: seen) auto

lemma echo_event_forks:
  assumes "echo_event fd ev"
  shows "\<not> ev_fork ev" "ev_seen ev seen \<longleftrightarrow> seen \<or> read_eof fd ev"
  using assms by (cases "is_log ev"; cases ev; auto simp: echo_event_def reads_of_def writes_of_def read_eof_def)+

lemma echo_events_forks:
  assumes "\<forall>ev\<in>set tr. echo_event fd ev"
  shows "forks_late seen tr" and "fold ev_seen tr seen \<longleftrightarrow> seen \<or> (\<exists>ev\<in>set tr. read_eof fd ev)"
  using assms by (induction tr arbitrary: seen) (auto simp: echo_event_forks)

lemma is_log_forks [simp]: "is_log ev \<Longrightarrow> \<not> ev_fork ev" "is_log ev \<Longrightarrow> ev_seen ev seen \<longleftrightarrow> seen"
  by (cases ev; simp)+

lemma echo_server_round_wp:
  assumes "forks_late False (trace w)"
  shows "wp (echo_server_round l x) (\<lambda>_ v. forks_late False (trace v)) (\<lambda>_ v. forks_late False (trace v)) w"
  unfolding echo_server_round_def sys_int_def exit0_def
  by (intro wp_intros str_echo_wp) (use assms in \<open>auto simp: echo_events_forks\<close>)

lemma eats_rounds:
  "eats always (echo_server_round l x)" "eats always (daytime_round l x)"
  unfolding echo_server_round_def daytime_round_def exit0_def time_line_def
  by (auto intro!: eats_first eats_intros lawful_intros)

text \<open>The servers of \<open>StringEcho1\<close>, \<open>StringEcho2\<close> and \<open>StringEcho3\<close> are not concurrent: whatever
  their clients do, the parent reads each connection to its end, echoing, before it forks for it,
  so that the child has nothing left to serve and no second client is served meanwhile.\<close>

theorem echo_server_serves_before_forking:
  assumes "StringEcho_server_main handler w = (res, w')" and "trace w = []"
  shows "forks_late False (trace w')"
proof -
  have "wp (StringEcho_server_main handler) (\<lambda>_ v. forks_late False (trace v)) (\<lambda>_ v. forks_late False (trace v)) w"
    unfolding StringEcho_server_main_def sys_int_def
    by (intro wp_intros forever_wp [where I = "\<lambda>_ v. forks_late False (trace v)"] eats_rounds
        echo_server_round_wp) (use assms(2) in simp_all)
  then show ?thesis
    using assms(1) by (simp add: wp_def split: sum.splits)
qed

lemma echo_server_round_apply: "echo_server_round l x w = andThen (sys_int (C_accept l)) (\<lambda>connfd. andThen get_errno (\<lambda>errno.
     if connfd < 0 then (if errno = EINTR then ret () else err_sys ''accept error'')
     else seq (str_echo connfd)
      (andThen (sys_int (C_lib ''fork'' [] [])) (\<lambda>childpid.
         if childpid < 0 then err_sys ''fork failed''
         else if childpid = 0 then
           seq (sys (C_close l)) (seq (str_echo connfd) exit0)
         else seq (sys (C_close connfd)) (ret ()))))) w"
  by (simp add: echo_server_round_def)

theorem echo_server_serves_before_forking_witness:
  "\<exists>w'. StringEcho_server_main 1 (start [ok 3, ok 0, ok 0, ok 0, ok 4, gives [104], ok 1, gives [], ok 0, ok 0, gives []]) =
     (Inl (Exit 0 ''''), w') \<and> forks_late False (trace w')"
proof -
  let ?w = "start [ok 3, ok 0, ok 0, ok 0, ok 4, gives [104], ok 1, gives [], ok 0, ok 0, gives []]"
  obtain w' where run: "StringEcho_server_main 1 ?w = (Inl (Exit 0 ''''), w')"
    by (simp add: StringEcho_server_main_def sys_int_def andThen_apply sys_apply Bind_def Signal_def signal_def Let_def
        forever_unfold [OF eats_rounds(1)] echo_server_round_apply str_echo_def str_echo_loop.loop_unfold
        str_echo_round_apply got_def MAXLINE_def Writen_def writen_def writen_loop.loop_unfold writen_round_apply
        writen_next_def put_len_def exit0_def)
  from echo_server_serves_before_forking [OF run] run show ?thesis by simp
qed

section \<open>The time servers\<close>

text \<open>No connection is open when the next one is accepted.\<close>

fun ev_idle :: "int set \<Rightarrow> event \<Rightarrow> bool" where
  "ev_idle C (Did (C_accept l) r) \<longleftrightarrow> C = {}"
| "ev_idle C ev \<longleftrightarrow> True"

lemma ev_idle_log [simp]: "is_log ev \<Longrightarrow> ev_idle C ev"
  by (cases ev) simp_all

lemma ev_idle_refused: "refused l ev \<or> is_log ev \<Longrightarrow> no_conn ev \<and> ev_idle {} ev"
  by (cases "is_log ev") (auto simp: refused_def no_conn_def)

definition idle :: "world \<Rightarrow> bool" where
  "idle w \<longleftrightarrow> conns (trace w) = {} \<and> along ev_idle (trace w)"

lemma idle_refused:
  assumes "idle w" and "\<forall>ev\<in>set tr. refused l ev \<or> is_log ev" and "trace v = trace w @ tr"
  shows "idle v"
  using assms ev_idle_refused along_from_quiet [of tr ev_idle "{}"] conns_append [of tr "trace w"]
  by (auto simp: idle_def along_append)

lemma daytime_round_wp:
  assumes "idle w"
  shows "wp (daytime_round l x) (\<lambda>_. idle) (\<lambda>_ v. along ev_idle (trace v)) w"
  unfolding daytime_round_def
proof (rule wp_andThen, rule wp_Accept)
  fix e tr and v :: world
  assume "trace v = trace w @ tr" "\<forall>ev\<in>set tr. refused l ev \<or> is_log ev"
  then show "along ev_idle (trace v)"
    using idle_refused [OF assms] by (simp add: idle_def)
next
  fix r tr and v :: world
  assume v: "trace v = trace w @ tr @ [Did (C_accept l) r]" and tr: "\<forall>ev\<in>set tr. refused l ev"
  define u where "u = w\<lparr>trace := trace w @ tr\<rparr>"
  have "idle u" using idle_refused [OF assms, of tr l u] tr by (simp add: u_def)
  moreover have "trace v = trace u @ [Did (C_accept l) r]" by (simp add: v u_def)
  ultimately have v: "conns (trace v) \<subseteq> {r_val r}" "along ev_idle (trace v)"
    by (auto simp: idle_def)
  then show "wp (case (r_val r, r_addr r) of (connfd, cliaddr) \<Rightarrow>
      seq (Sock_ntop False (\<lambda>_. []) cliaddr (sa_len cliaddr))
     (seq (print ''connect from %s'' [])
     (andThen (time_line [13, NEWLINE]) (\<lambda>buff.
      seq (Write connfd buff) (Close connfd))))) (\<lambda>_. idle) (\<lambda>_ v. along ev_idle (trace v)) v"
    unfolding time_line_def Sock_ntop_def
    by (intro wp_intros) (auto simp: idle_def along_append conns_fold)
qed

lemma Tcp_listen_idle:
  assumes "idle w"
  shows "wp (Tcp_listen host serv) (\<lambda>_. idle) (\<lambda>_ v. along ev_idle (trace v)) w"
proof -
  have "wp (tcp_listen_try a) (\<lambda>_. idle) (\<lambda>_ v. along ev_idle (trace v)) v" if "idle v" for a v
    using that by (cases a) (auto simp: idle_def along_append conns_fold sys_int_def intro!: wp_intros)
  then show ?thesis
    unfolding Tcp_listen_def tcp_listen_def lookup_def Listen_def Let_def
    by (intro wp_intros wp_mono [OF try_addrs_wp [where I = idle]])
      (use assms in \<open>auto simp: idle_def along_append conns_fold intro!: wp_intros\<close>)
qed

text \<open>The time server is iterative and leaks no connection: whenever it calls \<open>accept\<close>, every
  connection it accepted before has been closed, whatever the clients and the kernel do.\<close>

theorem daytime_server_closes_first:
  assumes "tcp_listen_srv1_main argv w = (res, w') \<or> tcp_listen_srv2_main argv w = (res, w')"
    and "trace w = []"
  shows "along ev_idle (trace w')"
proof -
  have loop: "wp (forever (daytime_round l) ()) (\<lambda>(_ :: int) v. along ev_idle (trace v)) (\<lambda>_ v. along ev_idle (trace v)) v"
    if "idle v" for l v
    by (rule forever_wp [where I = "\<lambda>_. idle"])
      (use that in \<open>auto intro: eats_rounds intro!: daytime_round_wp\<close>)
  have "idle w" using assms(2) by (simp add: idle_def)
  then have "wp (tcp_listen_srv1_main argv) (\<lambda>_ v. along ev_idle (trace v)) (\<lambda>_ v. along ev_idle (trace v)) w"
    "wp (tcp_listen_srv2_main argv) (\<lambda>_ v. along ev_idle (trace v)) (\<lambda>_ v. along ev_idle (trace v)) w"
    unfolding tcp_listen_srv1_main_def tcp_listen_srv2_main_def
    by (intro wp_intros wp_mono [OF Tcp_listen_idle]; auto intro!: loop wp_intros wp_mono [OF Tcp_listen_idle] simp: idle_def)+
  then show ?thesis
    using assms(1) by (auto simp: wp_def split: sum.splits)
qed

lemma daytime_round_apply: "daytime_round l x w = andThen (Accept l) (\<lambda>(connfd, cliaddr).
     seq (Sock_ntop False (\<lambda>_. []) cliaddr (sa_len cliaddr))
    (seq (print ''connect from %s'' [])
    (andThen (time_line [13, NEWLINE]) (\<lambda>buff.
     seq (Write connfd buff) (Close connfd))))) w"
  by (simp add: daytime_round_def)

theorem daytime_server_closes_first_witness:
  "\<exists>w'. tcp_listen_srv1_main [[], lit ''13''] (start [no_resp\<lparr>r_addrs := [(AF_INET, SOCK_STREAM, 0, Sin 0 0)]\<rparr>,
       ok 3, ok 0, ok 0, ok 0, ok 0, ok 4, ok 0, gives [70, 114, 105], ok 5, ok 0]) = (Inl Blocked, w') \<and>
     sent 4 (trace w') = [70, 114, 105, 13, 10] \<and> along ev_idle (trace w')"
proof -
  let ?w = "start [no_resp\<lparr>r_addrs := [(AF_INET, SOCK_STREAM, 0, Sin 0 0)]\<rparr>,
       ok 3, ok 0, ok 0, ok 0, ok 0, ok 4, ok 0, gives [70, 114, 105], ok 5, ok 0]"
  obtain w' where run: "tcp_listen_srv1_main [[], lit ''13''] ?w = (Inl Blocked, w')"
    and "sent 4 (trace w') = [70, 114, 105, 13, 10]"
    by (simp add: tcp_listen_srv1_main_def Tcp_listen_def tcp_listen_def lookup_def sys_int_def andThen_apply sys_apply
        Setsockopt_def Listen_def Let_def forever_unfold [OF eats_rounds(2)] daytime_round_apply Accept_def
        accept_w.loop_unfold accept_round_apply Sock_ntop_def ok_def gives_def time_line_def cstr_def
        Write_def Close_def put_len_def no_resp_def)
  moreover from daytime_server_closes_first [OF disjI1 [OF run]] have "along ev_idle (trace w')" by simp
  ultimately show ?thesis by blast
qed

end
