(* ===== verification/Web_Servers.thy ===== *)
theory Web_Servers
  imports Tcp_Programs
begin

text \<open>
  The servers of \<open>server/\<close> that share \<open>web_child\<close>, and their client: one process per connection
  (\<open>serv01\<close>), a pool of processes made in advance without and with a lock around \<open>accept\<close> (\<open>serv02\<close>
  with \<open>child02.cpp\<close>, \<open>serv03\<close> with \<open>child03.cpp\<close> and \<open>lock_pthread.cpp\<close>), and one thread per
  connection (\<open>serv06\<close>). The pools to which the parent hands the connections are in
  \<open>Descriptor_Pool\<close> and \<open>Thread_Pool\<close>.

  The static buffer of \<open>readline\<close> is the argument \<open>s\<close>; a child starts with its parent's. The shared
  counters \<open>cptr\<close> are written by the child they belong to only, so each is a variable of its child.
\<close>

section \<open>web\_child.cpp\<close>

definition MAXN :: int where "MAXN = 16384"

text \<open>\<open>result\<close> is an array of \<open>MAXLINE\<close> bytes that is never written. \<open>ntowrite\<close> is an \<open>int\<close>, to which
  the \<open>long\<close> of \<open>atol\<close> is converted. To send more bytes than the array has reads beyond it.\<close>

definition web_child_round :: "int \<Rightarrow> (nat \<Rightarrow> byte) \<Rightarrow> rl \<Rightarrow> (world, rl + rl) prog" where
  "web_child_round sockfd result s = andThen (Readline sockfd MAXLINE s) (\<lambda>(nread, line, s).
     if nread = 0 then leave s
     else let ntowrite = sint (word_of_int (atol line) :: u32)
       in if ntowrite \<le> 0 \<or> MAXN < ntowrite then err_quit ''client request for %d bytes''
          else if int MAXLINE < ntowrite then halt (Undef ''Writen: result'')
          else seq (Writen sockfd (map result [0..<nat ntowrite])) (again s))"

definition web_child :: "int \<Rightarrow> (nat \<Rightarrow> byte) \<Rightarrow> rl \<Rightarrow> (world, rl) prog" where
  "web_child sockfd result s = loop (web_child_round sockfd result) s"

lemma eats_Writen: "bs \<noteq> [] \<Longrightarrow> eats P (Writen fd bs)"
proof -
  assume bs: "bs \<noteq> []"
  have "eats always (writen fd bs)"
    unfolding eats_def
  proof (intro allI impI)
    fix w k and w' :: world
    assume run: "writen fd bs w = (Inr k, w')"
    obtain r rs where rs: "resps w = r # rs"
      using run bs by (cases "resps w")
        (auto simp: writen_def writen_loop.loop_unfold [of fd bs "length bs" w] writen_round_apply)
    let ?v = "took (C_write fd bs) r w"
    have "extends ?v w'"
    proof (cases "writen_next bs (length bs) r")
      case (Inl n)
      then have "loop (writen_round fd bs) n ?v = (Inr k, w')"
        using run rs bs by (simp add: writen_def writen_loop.loop_unfold [of fd bs "length bs" w] writen_round_apply)
      then show ?thesis
        using writen_loop.loop_lawful [OF writen_round_lawful] lawfulD by blast
    next
      case (Inr j)
      then show ?thesis
        using run rs bs by (simp add: writen_def writen_loop.loop_unfold [of fd bs "length bs" w] writen_round_apply)
    qed
    then show "size w' < size w"
      using extends_length [of ?v w'] rs by simp
  qed
  then show ?thesis
    unfolding Writen_def by (rule eats_first) (auto intro!: lawful_intros)
qed

lemma lawful_web_child_round [lawful_intros]: "lawful (web_child_round sockfd result s)"
  unfolding web_child_round_def Let_def by (auto intro!: lawful_intros)

interpretation web_child_loop: consuming "web_child_round sockfd result" for sockfd result
proof
  show "eats repeats (web_child_round sockfd result s)" for s
    unfolding web_child_round_def Let_def
    by (rule eats_second) (auto intro!: eats_intros eats_first eats_Writen lawful_intros)
qed

lemma lawful_web_child [lawful_intros]: "lawful (web_child sockfd result s)"
  unfolding web_child_def by (rule web_child_loop.loop_lawful) (rule lawful_web_child_round)

section \<open>Processor time\<close>

text \<open>The times are sums of two \<open>timeval\<close>s; they are printed here in microseconds, without the
  rounding of \<open>%g\<close>. \<open>RUSAGE_SELF\<close> is 0 and \<open>RUSAGE_CHILDREN\<close> is -1.\<close>

definition rusage_time :: "resp \<Rightarrow> nat \<Rightarrow> int" where
  "rusage_time r i = 1000000 * aux r i + aux r (i + 1)"

definition pr_cpu_time :: "(world, unit) prog" where
  "pr_cpu_time = andThen (sys (C_lib ''getrusage'' [0] [])) (\<lambda>my.
     if r_val my < 0 then err_sys ''getrusage error''
     else andThen (sys (C_lib ''getrusage'' [-1] [])) (\<lambda>child.
       if r_val child < 0 then err_sys ''getrusage error''
       else print ''user time=%g, sys time = %g''
         [rusage_time my 0 + rusage_time child 0, rusage_time my 2 + rusage_time child 2]))"

text \<open>The handlers of \<open>SIGINT\<close>: \<open>serv01\<close>, \<open>serv06\<close>, \<open>serv07\<close> and \<open>serv08\<close> print their times; those
  with child processes terminate them first (\<open>SIGTERM\<close> is 15), wait for all of them, and print how
  many connections each has served.\<close>

definition sig_int :: "(world, unit) prog" where
  "sig_int = seq pr_cpu_time exit0"

fun kill_all :: "int list \<Rightarrow> (world, unit) prog" where
  "kill_all [] = ret ()"
| "kill_all (pid # pids) = seq (sys (C_lib ''kill'' [pid, 15] [])) (kill_all pids)"

definition reap_round :: "unit \<Rightarrow> (world, unit + unit) prog" where
  "reap_round _ = andThen (sys_int (C_lib ''wait'' [] [])) (\<lambda>pid. if 0 < pid then again () else leave ())"

fun print_counts :: "int \<Rightarrow> int list \<Rightarrow> (world, unit) prog" where
  "print_counts i [] = ret ()"
| "print_counts i (c # cs) = seq (print ''child %d, %ld connections'' [i, c]) (print_counts (i + 1) cs)"

definition sig_int_pool :: "int list \<Rightarrow> int list \<Rightarrow> (world, unit) prog" where
  "sig_int_pool pids counts = seq (kill_all pids) (seq (loop reap_round ()) (andThen get_errno (\<lambda>errno.
     if errno \<noteq> ECHILD then err_sys ''wait error''
     else seq pr_cpu_time (seq (print_counts 0 counts) exit0))))"

section \<open>serv01: one process per connection\<close>

text \<open>The address the servers listen on: with or without a host, before \<open>k\<close> further arguments.\<close>

definition listen_args :: "nat \<Rightarrow> string \<Rightarrow> byte list list \<Rightarrow> (world, int \<times> nat) prog" where
  "listen_args k usage argv =
     (if length argv = 2 + k then Tcp_listen None (argv ! 1)
      else if length argv = 3 + k then Tcp_listen (Some (argv ! 1)) (argv ! 2)
      else err_quit usage)"

definition serv01_sig_chld :: "(world, unit) prog" where
  "serv01_sig_chld = seq (sys (C_lib ''wait'' [] [])) (ret ())"

definition SIGINT :: int where "SIGINT = 2"

definition serv01_round :: "int \<Rightarrow> (nat \<Rightarrow> byte) \<Rightarrow> rl \<Rightarrow> (world, rl) prog" where
  "serv01_round listenfd result s = andThen (sys_int (C_accept listenfd)) (\<lambda>connfd. andThen get_errno (\<lambda>errno.
     if connfd < 0 then (if errno = EINTR then ret s else err_sys ''accept errro'')
     else andThen Fork (\<lambda>childpid.
       if childpid = 0 then seq (Close listenfd) (seq (web_child connfd result s) exit0)
       else seq (Close connfd) (ret s))))"

definition serv01_main :: "byte list list \<Rightarrow> (nat \<Rightarrow> byte) \<Rightarrow> rl \<Rightarrow> (world, int) prog" where
  "serv01_main argv result s = andThen (listen_args 0 ''usage:serv01 [<host>] <port#>'' argv) (\<lambda>(listenfd, addrlen).
     seq (Malloc (int addrlen)) (seq (Signal SIGCHLD 1) (seq (Signal SIGINT 2)
       (forever (serv01_round listenfd result) s))))"

section \<open>serv02 and serv03: processes made in advance\<close>

text \<open>\<open>meter.cpp\<close> maps one \<open>long\<close> per child, shared by all processes (\<open>PROT_READ | PROT_WRITE\<close> is 3,
  \<open>MAP_ANON | MAP_SHARED\<close> is \<open>0x21\<close>).\<close>

definition meter :: "int \<Rightarrow> (world, int) prog" where
  "meter nchildren = Mmap 0 (nchildren * 8) 3 0x21 (-1) 0"

definition child02_round :: "int \<Rightarrow> (nat \<Rightarrow> byte) \<Rightarrow> rl \<times> int \<Rightarrow> (world, rl \<times> int) prog" where
  "child02_round listenfd result = (\<lambda>(s, count).
     andThen (Select {listenfd} {} {} None) (\<lambda>(_, rset, _).
       if listenfd \<notin> rset then err_quit ''listenfd readable''
       else andThen (Accept listenfd) (\<lambda>(connfd, _).
         andThen (web_child connfd result s) (\<lambda>s. seq (Close connfd) (ret (s, count + 1))))))"

definition child02_main :: "int \<Rightarrow> int \<Rightarrow> (nat \<Rightarrow> byte) \<Rightarrow> rl \<Rightarrow> (world, 'a) prog" where
  "child02_main listenfd addrlen result s = seq (Malloc addrlen)
     (andThen (sys_int (C_lib ''getpid'' [] [])) (\<lambda>pid. seq (print ''child %ld starting'' [pid])
       (forever (child02_round listenfd result) (s, 0))))"

text \<open>\<open>lock_pthread.cpp\<close>: a mutex in shared memory (\<open>sizeof (pthread_mutex_t)\<close> is 40, \<open>O_RDWR\<close> is 2,
  \<open>PTHREAD_PROCESS_SHARED\<close> is 1; the attributes are the local variable at address 0).\<close>

definition my_lock_init :: "(world, int) prog" where
  "my_lock_init = andThen (Open (lit ''/dev/zero'') 2 0) (\<lambda>fd.
     andThen (Mmap 0 40 3 1 fd 0) (\<lambda>mptr.
     seq (Close fd) (seq (Pthread_mutexattr_init 0) (seq (Pthread_mutexattr_setpshared 0 1)
    (seq (Pthread_mutex_init mptr 0) (ret mptr))))))"

definition my_lock_wait :: "int \<Rightarrow> (world, unit) prog" where
  "my_lock_wait mptr = Pthread_mutex_lock mptr"

definition my_lock_release :: "int \<Rightarrow> (world, unit) prog" where
  "my_lock_release mptr = Pthread_mutex_unlock mptr"

definition child03_round :: "int \<Rightarrow> int \<Rightarrow> (nat \<Rightarrow> byte) \<Rightarrow> rl \<times> int \<Rightarrow> (world, rl \<times> int) prog" where
  "child03_round mptr listenfd result = (\<lambda>(s, count).
     seq (my_lock_wait mptr) (andThen (Accept listenfd) (\<lambda>(connfd, _). seq (my_lock_release mptr)
       (andThen (web_child connfd result s) (\<lambda>s. seq (Close connfd) (ret (s, count + 1)))))))"

definition child03_main :: "int \<Rightarrow> int \<Rightarrow> int \<Rightarrow> (nat \<Rightarrow> byte) \<Rightarrow> rl \<Rightarrow> (world, 'a) prog" where
  "child03_main mptr listenfd addrlen result s = seq (Malloc addrlen)
     (andThen (sys_int (C_lib ''getpid'' [] [])) (\<lambda>pid. seq (print ''child %ld starting'' [pid])
       (forever (child03_round mptr listenfd result) (s, 0))))"

definition child_make :: "(world, int) prog \<Rightarrow> (world, int) prog" where
  "child_make child_main = andThen Fork (\<lambda>pid. if 0 < pid then ret pid else child_main)"

text \<open>The parent makes its children one by one.\<close>

fun make_children :: "nat \<Rightarrow> (world, int) prog \<Rightarrow> (world, int list) prog" where
  "make_children 0 child = ret []"
| "make_children (Suc n) child = andThen child (\<lambda>pid. andThen (make_children n child) (\<lambda>pids. ret (pid # pids)))"

definition pause_round :: "unit \<Rightarrow> (world, unit) prog" where
  "pause_round _ = seq (sys (C_lib ''pause'' [] [])) (ret ())"

definition serv02_main :: "byte list list \<Rightarrow> (nat \<Rightarrow> byte) \<Rightarrow> rl \<Rightarrow> (world, int) prog" where
  "serv02_main argv result s = andThen (listen_args 1 ''usage : serv02 [<host>] <port#> <children#>'' argv)
     (\<lambda>(listenfd, addrlen). let nchildren = atoi (last argv) in
       seq (Calloc nchildren 4) (seq (meter nchildren)
      (seq (make_children (nat nchildren) (child_make (child02_main listenfd (int addrlen) result s)))
      (seq (Signal SIGINT 2) (forever pause_round ())))))"

definition serv03_sig_int :: "int list \<Rightarrow> int list \<Rightarrow> (world, unit) prog" where
  "serv03_sig_int = sig_int_pool"

definition serv03_main :: "byte list list \<Rightarrow> (nat \<Rightarrow> byte) \<Rightarrow> rl \<Rightarrow> (world, int) prog" where
  "serv03_main argv result s = andThen (listen_args 1 ''usage : serv02 [<host>] <port#> <children#>'' argv)
     (\<lambda>(listenfd, addrlen). let nchildren = atoi (last argv) in
       seq (Calloc nchildren 4) (seq (meter nchildren) (andThen my_lock_init (\<lambda>mptr.
       seq (make_children (nat nchildren) (child_make (child03_main mptr listenfd (int addrlen) result s)))
      (seq (Signal SIGINT 2) (forever pause_round ()))))))"

section \<open>serv06: one thread per connection\<close>

text \<open>The thread has its own copy of \<open>connfd\<close>; \<open>accept\<close> is not checked. \<open>std::thread\<close> throws when it
  cannot start a thread.\<close>

definition serv06_thread :: "int \<Rightarrow> (nat \<Rightarrow> byte) \<Rightarrow> rl \<Rightarrow> (world, rl) prog" where
  "serv06_thread connfd result s = andThen (web_child connfd result s) (\<lambda>s. seq (Close connfd) (ret s))"

definition std_thread :: "int list \<Rightarrow> (world, unit) prog" where
  "std_thread captured = andThen (sys_int (C_lib ''std::thread'' captured [])) (\<lambda>n.
     if n \<noteq> 0 then halt (Abort ''std::system_error'') else ret ())"

definition serv06_round :: "int \<Rightarrow> unit \<Rightarrow> (world, unit) prog" where
  "serv06_round listenfd _ = andThen (sys_int (C_accept listenfd)) (\<lambda>connfd. std_thread [connfd])"

definition serv06_main :: "byte list list \<Rightarrow> (world, int) prog" where
  "serv06_main argv = andThen (listen_args 0 ''usage:serv06 [<host>] <port#>'' argv) (\<lambda>(listenfd, addrlen).
     seq (Malloc (int addrlen)) (seq (Signal SIGINT 2) (forever (serv06_round listenfd) ())))"

section \<open>The client\<close>

text \<open>Every child makes \<open>nloops\<close> requests, each on a connection of its own. \<open>reply\<close> has \<open>MAXN\<close>
  bytes.\<close>

definition decimal :: "int \<Rightarrow> byte list" where
  "decimal n = (if n < 0 then lit (''-'' @ dec (nat (- n))) else lit (dec (nat n)))"

definition web_request :: "byte list list \<Rightarrow> int \<Rightarrow> (world, unit) prog" where
  "web_request argv nbytes = andThen (Tcp_connect (argv ! 1) (argv ! 2)) (\<lambda>fd.
     seq (Write fd (decimal nbytes @ [NEWLINE]))
    (andThen (Readn fd (nat (nbytes mod 2 ^ 64))) (\<lambda>(n, reply).
       if MAXN < int (length reply) then halt (Undef ''Readn: reply'')
       else if n \<noteq> nbytes then err_quit ''server returned %d bytes'' else Close fd)))"

fun web_requests :: "byte list list \<Rightarrow> int \<Rightarrow> nat \<Rightarrow> (world, unit) prog" where
  "web_requests argv nbytes 0 = ret ()"
| "web_requests argv nbytes (Suc n) = seq (web_request argv nbytes) (web_requests argv nbytes n)"

fun web_children :: "byte list list \<Rightarrow> int \<Rightarrow> nat \<Rightarrow> int \<Rightarrow> nat \<Rightarrow> (world, unit) prog" where
  "web_children argv nbytes nloops i 0 = ret ()"
| "web_children argv nbytes nloops i (Suc n) = andThen Fork (\<lambda>pid.
     if pid = 0 then seq (web_requests argv nbytes nloops) (seq (print ''child %d done'' [i]) exit0)
     else web_children argv nbytes nloops (i + 1) n)"

definition web_client_main :: "byte list list \<Rightarrow> (world, int) prog" where
  "web_client_main argv =
     (if length argv \<noteq> 6 then err_quit ''usage:client <hostname or IPaddr> <port> <#children><#loops/child> <#bytes/request>''
      else seq (web_children argv (strtol10 (argv ! 5)) (nat (strtol10 (argv ! 4))) 0 (nat (strtol10 (argv ! 3))))
       (seq (loop reap_round ()) (andThen get_errno (\<lambda>errno.
         if errno \<noteq> ECHILD then err_sys ''wait error'' else ret 0))))"

interpretation reap: consuming reap_round
  by unfold_locales (auto simp: reap_round_def intro!: eats_intros eats_first lawful_intros)

end
