(* ===== verification/Thread_Pool.thy ===== *)
theory Thread_Pool
  imports Web_Servers
begin

text \<open>
  \<open>serv07\<close> and \<open>serv08\<close>: pools of threads. In \<open>serv07\<close> every thread accepts its own connections, one
  at a time under a mutex. In \<open>serv08\<close> the main thread accepts all connections and puts them into a
  circular array from which the threads take them; the array is guarded by a mutex, and a thread that
  finds it empty waits on a condition variable.

  The threads interleave, so the pool is a step relation: a state holds the array, the owner of the
  mutex and the program counter of every thread, and each step is what one thread does up to its next
  synchronisation. The locale \<open>bounded_fifo\<close> is what the threads rely on of the array.
\<close>

section \<open>The array of connections\<close>

definition MAXNCLI :: nat where "MAXNCLI = 32"

record ring =
  clifd :: "int list"
  iget :: nat
  iput :: nat

definition ring_next :: "nat \<Rightarrow> nat" where
  "ring_next i = (if i + 1 = MAXNCLI then 0 else i + 1)"

definition ring_empty :: "ring \<Rightarrow> bool" where
  "ring_empty r \<longleftrightarrow> iget r = iput r"

text \<open>\<open>clifd[iput++] = connfd\<close>; the main thread ends the server when the array is full after that.\<close>

definition ring_put :: "int \<Rightarrow> ring \<Rightarrow> ring" where
  "ring_put connfd r = r\<lparr>clifd := (clifd r)[iput r := connfd], iput := ring_next (iput r)\<rparr>"

definition ring_get :: "ring \<Rightarrow> int \<times> ring" where
  "ring_get r = (clifd r ! iget r, r\<lparr>iget := ring_next (iget r)\<rparr>)"

definition ring_start :: "int list \<Rightarrow> ring" where
  "ring_start array = \<lparr>clifd = array, iget = 0, iput = 0\<rparr>"

definition ring_ok :: "ring \<Rightarrow> bool" where
  "ring_ok r \<longleftrightarrow> length (clifd r) = MAXNCLI \<and> iget r < MAXNCLI \<and> iput r < MAXNCLI"

text \<open>What the array stands for: the queue of connections from \<open>iget\<close> to \<open>iput\<close>, around the end.\<close>

definition ring_length :: "ring \<Rightarrow> nat" where
  "ring_length r = (if iget r \<le> iput r then iput r - iget r else MAXNCLI + iput r - iget r)"

definition ring_queue :: "ring \<Rightarrow> int list" where
  "ring_queue r = map (\<lambda>k. clifd r ! ((iget r + k) mod MAXNCLI)) [0..<ring_length r]"

text \<open>The interface: a queue of bounded length.\<close>

locale bounded_fifo =
  fixes ok :: "'r \<Rightarrow> bool" and queue :: "'r \<Rightarrow> 'x list" and room :: nat
    and put :: "'x \<Rightarrow> 'r \<Rightarrow> 'r" and get :: "'r \<Rightarrow> 'x \<times> 'r" and empty :: "'r \<Rightarrow> bool"
  assumes put: "ok r \<Longrightarrow> length (queue r) < room \<Longrightarrow> ok (put x r) \<and> queue (put x r) = queue r @ [x]"
    and get: "ok r \<Longrightarrow> queue r \<noteq> [] \<Longrightarrow> get r = (hd (queue r), snd (get r)) \<and> ok (snd (get r)) \<and>
      queue (snd (get r)) = tl (queue r)"
    and empty_iff: "ok r \<Longrightarrow> empty r \<longleftrightarrow> queue r = []"
    and bounded: "ok r \<Longrightarrow> length (queue r) \<le> room"
begin

text \<open>\<open>passed r given taken\<close>: what was put in has been taken out in order, but for what is in the queue.\<close>

definition passed :: "'r \<Rightarrow> 'x list \<Rightarrow> 'x list \<Rightarrow> bool" where
  "passed r given taken \<longleftrightarrow> ok r \<and> given = taken @ queue r"

lemma passed_put:
  "passed r given taken \<Longrightarrow> length (queue r) < room \<Longrightarrow> passed (put x r) (given @ [x]) taken"
  using put by (simp add: passed_def)

lemma passed_get:
  assumes "passed r given taken" and "\<not> empty r" and "get r = (x, r')"
  shows "passed r' given (taken @ [x])"
proof -
  have ok: "ok r" and given: "given = taken @ queue r" using assms(1) by (auto simp: passed_def)
  then have ne: "queue r \<noteq> []" using assms(2) empty_iff by blast
  from get [OF ok ne] assms(3) have "x = hd (queue r)" "ok r'" "queue r' = tl (queue r)" by simp_all
  with given ne show ?thesis by (simp add: passed_def)
qed

lemma passed_subseteq: "passed r given taken \<Longrightarrow> take (length taken) given = taken"
  by (auto simp: passed_def)

end

lemma ring_next_mod: "i < MAXNCLI \<Longrightarrow> ring_next i = (i + 1) mod MAXNCLI"
  by (auto simp: ring_next_def)

lemma MAXNCLI_pos [simp]: "0 < MAXNCLI"
  by (simp add: MAXNCLI_def)

lemma ring_length_mod:
  "ring_ok r \<Longrightarrow> (iget r + ring_length r) mod MAXNCLI = iput r"
  by (auto simp: ring_ok_def ring_length_def)

lemma ring_length_less: "ring_ok r \<Longrightarrow> ring_length r < MAXNCLI"
  by (auto simp: ring_ok_def ring_length_def)

lemma ring_ok_slot:
  assumes ok: "ring_ok r" and k: "k < ring_length r"
  shows "(iget r + k) mod MAXNCLI \<noteq> iput r"
proof (cases "iget r + k < MAXNCLI")
  case True
  then show ?thesis
    using ok k by (cases "iget r \<le> iput r") (simp_all add: ring_ok_def ring_length_def)
next
  case False
  then have "(iget r + k) mod MAXNCLI = iget r + k - MAXNCLI"
    using ok ring_length_less [OF ok] k by (auto simp: ring_ok_def mod_if)
  then show ?thesis
    using False ok k by (cases "iget r \<le> iput r") (auto simp: ring_ok_def ring_length_def)
qed

lemma ring_put_length:
  assumes "ring_ok r" and "ring_length r < MAXNCLI - 1"
  shows "ring_length (ring_put x r) = Suc (ring_length r)"
proof -
  have "iget r < MAXNCLI" "iput r < MAXNCLI" using assms(1) by (simp_all add: ring_ok_def)
  with assms(2) show ?thesis
    by (cases "iput r + 1 = MAXNCLI"; cases "iget r \<le> iput r")
      (simp_all add: ring_length_def ring_put_def ring_next_def; arith)+
qed

lemma ring_get_length:
  assumes "ring_ok r" and "ring_length r = Suc n"
  shows "ring_length (snd (ring_get r)) = n"
proof -
  have "iget r < MAXNCLI" "iput r < MAXNCLI" using assms(1) by (simp_all add: ring_ok_def)
  with assms(2) show ?thesis
    by (cases "iget r + 1 = MAXNCLI"; cases "iget r \<le> iput r")
      (auto simp: ring_length_def ring_get_def ring_next_def)
qed

lemma ring_put_queue:
  assumes ok: "ring_ok r" and room: "ring_length r < MAXNCLI - 1"
  shows "ring_queue (ring_put x r) = ring_queue r @ [x]"
proof (rule nth_equalityI)
  show "length (ring_queue (ring_put x r)) = length (ring_queue r @ [x])"
    using ring_put_length [OF assms] by (simp add: ring_queue_def)
next
  fix k
  assume "k < length (ring_queue (ring_put x r))"
  then have k: "k \<le> ring_length r" using ring_put_length [OF assms, of x] by (simp add: ring_queue_def)
  have len: "length (clifd r) = MAXNCLI" using ok by (simp add: ring_ok_def)
  have "ring_queue (ring_put x r) ! k = (clifd r)[iput r := x] ! ((iget r + k) mod MAXNCLI)"
    using k ring_put_length [OF assms, of x] by (simp add: ring_queue_def ring_put_def del: upt_Suc)
  also have "\<dots> = (ring_queue r @ [x]) ! k"
  proof (cases "k = ring_length r")
    case True
    then show ?thesis
      using ring_length_mod [OF ok] len ok by (simp add: nth_append ring_queue_def ring_ok_def)
  next
    case False
    with k have "(iget r + k) mod MAXNCLI \<noteq> iput r"
      using k False ring_ok_slot [OF ok, of k] by simp
    with False k show ?thesis by (simp add: nth_append ring_queue_def)
  qed
  finally show "ring_queue (ring_put x r) ! k = (ring_queue r @ [x]) ! k" .
qed

lemma ring_get_queue:
  assumes ok: "ring_ok r" and n: "ring_length r = Suc n"
  shows "ring_queue r = fst (ring_get r) # ring_queue (snd (ring_get r))"
proof (rule nth_equalityI)
  note len = ring_get_length [OF assms]
  show "length (ring_queue r) = length (fst (ring_get r) # ring_queue (snd (ring_get r)))"
    using n len by (simp add: ring_queue_def)
  fix k
  assume "k < length (ring_queue r)"
  then have k: "k < Suc n" using n by (simp add: ring_queue_def)
  show "ring_queue r ! k = (fst (ring_get r) # ring_queue (snd (ring_get r))) ! k"
  proof (cases k)
    case 0
    then show ?thesis
      using n ok by (simp add: ring_queue_def ring_get_def ring_ok_def del: upt_Suc)
  next
    case (Suc j)
    have "(ring_next (iget r) + j) mod MAXNCLI = (iget r + Suc j) mod MAXNCLI"
      using ok by (simp add: ring_next_mod ring_ok_def mod_simps)
    with Suc k n len show ?thesis
      by (simp add: ring_queue_def ring_get_def del: upt_Suc)
  qed
qed

interpretation ring_fifo: bounded_fifo ring_ok ring_queue "MAXNCLI - 1" ring_put ring_get ring_empty
proof
  fix r :: ring and x
  assume ok: "ring_ok r"
  have next_less: "i < MAXNCLI \<Longrightarrow> ring_next i < MAXNCLI" for i
    by (auto simp: ring_next_def)
  show "ring_ok (ring_put x r) \<and> ring_queue (ring_put x r) = ring_queue r @ [x]"
    if "length (ring_queue r) < MAXNCLI - 1"
    using that ok ring_put_queue [OF ok, of x] next_less
    by (auto simp: ring_ok_def ring_put_def ring_queue_def)
  show "ring_get r = (hd (ring_queue r), snd (ring_get r)) \<and> ring_ok (snd (ring_get r)) \<and>
      ring_queue (snd (ring_get r)) = tl (ring_queue r)" if ne: "ring_queue r \<noteq> []"
  proof -
    obtain n where n: "ring_length r = Suc n"
      using ne by (cases "ring_length r") (auto simp: ring_queue_def)
    show ?thesis
      using ring_get_queue [OF ok n] ok next_less
      by (auto simp: ring_get_def ring_ok_def prod_eq_iff)
  qed
  show "ring_empty r \<longleftrightarrow> ring_queue r = []"
    using ok by (auto simp: ring_empty_def ring_queue_def ring_length_def ring_ok_def)
  show "length (ring_queue r) \<le> MAXNCLI - 1"
    using ring_length_less [OF ok] by (simp add: ring_queue_def)
qed

section \<open>The programs\<close>

record thread =
  thread_tid :: int
  thread_count :: int

fun start_threads :: "nat \<Rightarrow> (world, unit) prog" where
  "start_threads 0 = ret ()"
| "start_threads (Suc n) = seq (std_thread []) (start_threads n)"

text \<open>\<open>serv07\<close>: what a thread does in a round. The threads capture the loop variable \<open>i\<close> of \<open>main\<close>
  by reference, so that they share it; it is \<open>None\<close> once the loop has ended, when its lifetime is
  over.\<close>

definition serv07_round ::
  "int \<Rightarrow> nat option \<Rightarrow> (nat \<Rightarrow> byte) \<Rightarrow> rl \<times> thread list \<Rightarrow> (world, rl \<times> thread list) prog" where
  "serv07_round listenfd i result = (\<lambda>(s, tptr).
     seq (sys (C_lib ''mutex lock'' [] [])) (andThen (Accept listenfd) (\<lambda>(connfd, _).
     seq (sys (C_lib ''mutex unlock'' [] []))
    (case i of
       None \<Rightarrow> halt (Undef ''tptr[i]'')
     | Some i \<Rightarrow>
         if length tptr \<le> i then halt (Undef ''tptr[i]'')
         else andThen (web_child connfd result s) (\<lambda>s. seq (Close connfd)
           (ret (s, tptr[i := (tptr ! i)\<lparr>thread_count := thread_count (tptr ! i) + 1\<rparr>])))))))"

definition serv07_main :: "byte list list \<Rightarrow> (world, int) prog" where
  "serv07_main argv = andThen (listen_args 1 ''usage:serv07 [<host>] <port#> <#threads>'' argv) (\<lambda>(listenfd, _).
     let nthreads = atoi (last argv) in
       seq (Calloc nthreads 16) (seq (start_threads (nat nthreads)) (seq (Signal SIGINT 2)
         (forever pause_round ()))))"

text \<open>\<open>serv08\<close> up to the main thread's loop, whose rounds are the steps of the pool below: the
  listening socket and the number of threads.\<close>

definition serv08_main :: "byte list list \<Rightarrow> (world, int \<times> int) prog" where
  "serv08_main argv = andThen (listen_args 1 ''usage:serv07 [<host>] <port#> <#threads>'' argv) (\<lambda>(listenfd, addrlen).
     seq (Malloc (int addrlen)) (let nthreads = atoi (last argv) in
       seq (Calloc nthreads 16) (seq (start_threads (nat nthreads)) (seq (Signal SIGINT 2)
         (ret (listenfd, nthreads))))))"

section \<open>serv08: the threads\<close>

datatype tid = Main | Worker nat

text \<open>The main thread is in \<open>accept\<close>, waits for the mutex with a connection, holds the mutex before
  and after it has stored the connection, or has ended the server. A worker waits for the mutex, holds
  it and tests the array, sleeps on the condition variable, has been woken and waits for the mutex
  again, or serves a connection.\<close>

datatype mpc = M_accept | M_lock int | M_put int | M_notify | M_exit | M_over mpc

datatype wpc = W_lock | W_test | W_sleep | W_wake | W_serve int

record pool =
  p_ring :: ring
  p_owner :: "tid option"
  p_main :: mpc
  p_work :: "wpc list"
  p_given :: "int list"
  p_taken :: "int list"

definition pool_start :: "int list \<Rightarrow> nat \<Rightarrow> pool" where
  "pool_start array nthreads = \<lparr>p_ring = ring_start array, p_owner = None, p_main = M_accept,
     p_work = replicate nthreads W_lock, p_given = [], p_taken = []\<rparr>"

definition at_work :: "nat \<Rightarrow> wpc \<Rightarrow> pool \<Rightarrow> bool" where
  "at_work i pc s \<longleftrightarrow> i < length (p_work s) \<and> p_work s ! i = pc"

definition goto :: "nat \<Rightarrow> wpc \<Rightarrow> pool \<Rightarrow> pool" where
  "goto i pc s = s\<lparr>p_work := (p_work s)[i := pc]\<rparr>"

text \<open>The steps. The main thread: \<open>Accept\<close>, \<open>lock_guard\<close>, storing the connection, \<open>notify_one\<close> at the
  end of the scope that frees the mutex. A worker: \<open>unique_lock\<close>, the test of the \<open>while\<close> with
  \<open>cv.wait\<close>, which frees the mutex and can also return for no reason, taking the connection up to
  \<open>unlock\<close>, and serving it. Serving can end the process, by \<open>web_child\<close>'s \<open>err_quit\<close>, by a failed \<open>write\<close> or
  \<open>close\<close>, or by the undefined \<open>++tptr[i]\<close> (\<open>i\<close> is \<open>main\<close>'s loop variable, whose lifetime is over),
  and so can a failed \<open>accept\<close>; \<open>M_over\<close> keeps what the main thread was doing then. No thread goes
  on when the server has ended.\<close>

fun running :: "mpc \<Rightarrow> bool" where
  "running M_exit = False"
| "running (M_over m) = False"
| "running _ = True"

lemma running_not_exit [simp]: "running m \<Longrightarrow> m \<noteq> M_exit"
  by auto

inductive pool_step :: "pool \<Rightarrow> pool \<Rightarrow> bool" where
  accept: "p_main s = M_accept \<Longrightarrow>
    pool_step s (s\<lparr>p_main := M_lock fd, p_given := p_given s @ [fd]\<rparr>)"
| lock: "p_main s = M_lock fd \<Longrightarrow> p_owner s = None \<Longrightarrow>
    pool_step s (s\<lparr>p_main := M_put fd, p_owner := Some Main\<rparr>)"
| store: "p_main s = M_put fd \<Longrightarrow> r = ring_put fd (p_ring s) \<Longrightarrow>
    pool_step s (s\<lparr>p_ring := r, p_main := if ring_empty r then M_exit else M_notify\<rparr>)"
| notify: "p_main s = M_notify \<Longrightarrow> at_work i W_sleep s \<Longrightarrow>
    pool_step s (goto i W_wake (s\<lparr>p_main := M_accept, p_owner := None\<rparr>))"
| notify_none: "p_main s = M_notify \<Longrightarrow> \<forall>pc\<in>set (p_work s). pc \<noteq> W_sleep \<Longrightarrow>
    pool_step s (s\<lparr>p_main := M_accept, p_owner := None\<rparr>)"
| get_lock: "running (p_main s) \<Longrightarrow> at_work i W_lock s \<or> at_work i W_wake s \<Longrightarrow> p_owner s = None \<Longrightarrow>
    pool_step s (goto i W_test (s\<lparr>p_owner := Some (Worker i)\<rparr>))"
| wait: "running (p_main s) \<Longrightarrow> at_work i W_test s \<Longrightarrow> ring_empty (p_ring s) \<Longrightarrow>
    pool_step s (goto i W_sleep (s\<lparr>p_owner := None\<rparr>))"
| spurious: "running (p_main s) \<Longrightarrow> at_work i W_sleep s \<Longrightarrow> pool_step s (goto i W_wake s)"
| take: "running (p_main s) \<Longrightarrow> at_work i W_test s \<Longrightarrow> \<not> ring_empty (p_ring s) \<Longrightarrow>
    ring_get (p_ring s) = (fd, r) \<Longrightarrow>
    pool_step s (goto i (W_serve fd) (s\<lparr>p_ring := r, p_owner := None, p_taken := p_taken s @ [fd]\<rparr>))"
| served: "running (p_main s) \<Longrightarrow> at_work i (W_serve fd) s \<Longrightarrow> pool_step s (goto i W_lock s)"
| quit: "running (p_main s) \<Longrightarrow> at_work i (W_serve fd) s \<Longrightarrow> pool_step s (s\<lparr>p_main := M_over (p_main s)\<rparr>)"
| accept_error: "p_main s = M_accept \<Longrightarrow> pool_step s (s\<lparr>p_main := M_over M_accept\<rparr>)"

inductive_cases pool_stepE: "pool_step s t"

inductive pool_reach :: "int list \<Rightarrow> nat \<Rightarrow> pool \<Rightarrow> bool" for array nthreads where
  init: "pool_reach array nthreads (pool_start array nthreads)"
| step: "pool_reach array nthreads s \<Longrightarrow> pool_step s t \<Longrightarrow> pool_reach array nthreads t"

text \<open>The threads inside the critical section.\<close>

fun main_inside :: "mpc \<Rightarrow> bool" where
  "main_inside (M_put fd) = True"
| "main_inside M_notify = True"
| "main_inside M_exit = True"
| "main_inside (M_over m) = main_inside m"
| "main_inside _ = False"

fun critical :: "pool \<Rightarrow> tid \<Rightarrow> bool" where
  "critical s Main \<longleftrightarrow> main_inside (p_main s)"
| "critical s (Worker i) \<longleftrightarrow> at_work i W_test s"

definition owns :: "pool \<Rightarrow> bool" where
  "owns s \<longleftrightarrow> (main_inside (p_main s) \<longleftrightarrow> p_owner s = Some Main) \<and>
     (\<forall>i. at_work i W_test s \<longleftrightarrow> p_owner s = Some (Worker i))"

lemma goto_simps [simp]:
  "p_ring (goto i pc s) = p_ring s" "p_owner (goto i pc s) = p_owner s" "p_main (goto i pc s) = p_main s"
  "p_given (goto i pc s) = p_given s" "p_taken (goto i pc s) = p_taken s"
  "p_work (goto i pc s) = (p_work s)[i := pc]"
  by (simp_all add: goto_def)

lemma at_work_goto:
  "i < length (p_work s) \<Longrightarrow> at_work j pc (goto i pc' s) \<longleftrightarrow> (if j = i then pc = pc' else at_work j pc s)"
  by (auto simp: at_work_def)

lemma at_work_other: "at_work i pc s \<Longrightarrow> at_work i pc' s \<longleftrightarrow> pc = pc'"
  by (auto simp: at_work_def)

lemma at_workD: "at_work i pc s \<Longrightarrow> i < length (p_work s)"
  by (simp add: at_work_def)

lemma at_work_update [simp]:
  "at_work i pc (s\<lparr>p_main := m\<rparr>) = at_work i pc s" "at_work i pc (s\<lparr>p_owner := ow\<rparr>) = at_work i pc s"
  "at_work i pc (s\<lparr>p_ring := r\<rparr>) = at_work i pc s" "at_work i pc (s\<lparr>p_given := xs\<rparr>) = at_work i pc s"
  "at_work i pc (s\<lparr>p_taken := xs\<rparr>) = at_work i pc s"
  by (simp_all add: at_work_def)

lemma owns_start: "owns (pool_start array n)"
  by (auto simp: owns_def pool_start_def at_work_def)

lemma owns_step:
  assumes "pool_step s t" and "owns s"
  shows "owns t"
proof -
  note work = at_work_goto at_work_other at_workD
  have main: "p_owner s = Some Main" if "main_inside (p_main s)"
    using assms(2) that by (simp add: owns_def)
  have worker: "p_owner s = Some (Worker i)" "at_work j W_test s \<longleftrightarrow> j = i" "\<not> main_inside (p_main s)"
    if "at_work i W_test s" for i j
    using assms(2) that by (auto simp: owns_def)
  show ?thesis
    using assms(1)
  proof (cases rule: pool_step.cases)
    case (notify i)
    with assms(2) main show ?thesis by (auto simp: owns_def work)
  next
    case (get_lock i)
    with assms(2) show ?thesis by (auto simp: owns_def work split: if_splits)
  next
    case (wait i)
    then have "i < length (p_work s)" by (intro at_workD)
    with wait worker [of i] show ?thesis by (auto simp: owns_def at_work_goto)
  next
    case (take i fd r)
    then have "i < length (p_work s)" by (intro at_workD)
    with take worker [of i] show ?thesis by (auto simp: owns_def at_work_goto)
  next
    case (spurious i)
    then have "p_owner s \<noteq> Some (Worker i)" "i < length (p_work s)"
      using assms(2) at_work_other at_workD unfolding owns_def by blast+
    with spurious assms(2) show ?thesis by (auto simp: owns_def at_work_goto)
  next
    case (served i fd)
    then have "p_owner s \<noteq> Some (Worker i)" "i < length (p_work s)"
      using assms(2) at_work_other at_workD unfolding owns_def by blast+
    with served assms(2) show ?thesis by (auto simp: owns_def at_work_goto)
  qed (use assms(2) main in \<open>auto simp: owns_def\<close>)
qed

lemma owns_reach: "pool_reach array n s \<Longrightarrow> owns s"
  by (induction rule: pool_reach.induct) (auto intro: owns_start owns_step)

text \<open>The connections: accepted, waiting in the array, taken.\<close>

fun in_hand :: "mpc \<Rightarrow> int list" where
  "in_hand (M_lock fd) = [fd]"
| "in_hand (M_put fd) = [fd]"
| "in_hand (M_over m) = in_hand m"
| "in_hand _ = []"

definition fifo_inv :: "pool \<Rightarrow> bool" where
  "fifo_inv s \<longleftrightarrow>
     (if p_main s = M_exit then length (p_given s) = length (p_taken s) + MAXNCLI
      else \<exists>given. ring_fifo.passed (p_ring s) given (p_taken s) \<and> p_given s = given @ in_hand (p_main s))"

lemma ring_put_full:
  assumes "ring_ok r"
  shows "ring_empty (ring_put x r) \<longleftrightarrow> ring_length r = MAXNCLI - 1"
proof -
  have "iget r < MAXNCLI" "iput r < MAXNCLI" using assms by (simp_all add: ring_ok_def)
  then show ?thesis
    by (cases "iput r + 1 = MAXNCLI"; cases "iget r \<le> iput r")
      (auto simp: ring_empty_def ring_length_def ring_put_def ring_next_def)
qed

lemma length_ring_queue [simp]: "length (ring_queue r) = ring_length r"
  by (simp add: ring_queue_def)

lemma fifo_start: "length array = MAXNCLI \<Longrightarrow> fifo_inv (pool_start array n)"
  by (simp add: fifo_inv_def pool_start_def ring_fifo.passed_def ring_ok_def ring_start_def ring_queue_def
      ring_length_def)

lemma fifo_step:
  assumes "pool_step s t" and inv: "fifo_inv s"
  shows "fifo_inv t"
  using assms(1)
proof (cases rule: pool_step.cases)
  case (store fd r)
  then obtain given where g: "ring_fifo.passed (p_ring s) given (p_taken s)" "p_given s = given @ [fd]"
    using inv by (auto simp: fifo_inv_def)
  then have ok: "ring_ok (p_ring s)" and q: "given = p_taken s @ ring_queue (p_ring s)"
    by (simp_all add: ring_fifo.passed_def)
  show ?thesis
  proof (cases "ring_empty r")
    case True
    with store ok have "ring_length (p_ring s) = MAXNCLI - 1" using ring_put_full by simp
    with True store q g(2) show ?thesis by (simp add: fifo_inv_def MAXNCLI_def)
  next
    case False
    with store ok have "ring_length (p_ring s) \<noteq> MAXNCLI - 1" using ring_put_full by simp
    then have "length (ring_queue (p_ring s)) < MAXNCLI - 1"
      using ring_length_less [OF ok] by simp
    from ring_fifo.passed_put [OF g(1) this] False store g(2) show ?thesis
      by (auto simp: fifo_inv_def)
  qed
next
  case (take i fd r)
  with inv running_not_exit obtain given where "ring_fifo.passed (p_ring s) given (p_taken s)"
    "p_given s = given @ in_hand (p_main s)" unfolding fifo_inv_def by metis
  with take ring_fifo.passed_get [of "p_ring s" given "p_taken s" fd r] show ?thesis
    by (auto simp: fifo_inv_def)
qed (use inv in \<open>auto simp: fifo_inv_def split: if_splits\<close>)

lemma fifo_reach: "pool_reach array n s \<Longrightarrow> length array = MAXNCLI \<Longrightarrow> fifo_inv s"
  by (induction rule: pool_reach.induct) (auto intro: fifo_start fifo_step)

text \<open>Somebody is awake when there is work.\<close>

definition awake_inv :: "pool \<Rightarrow> bool" where
  "awake_inv s \<longleftrightarrow> p_work s \<noteq> [] \<and> (ring_empty (p_ring s) \<or> p_main s \<in> {M_notify, M_exit} \<or>
     (\<exists>pc\<in>set (p_work s). pc \<noteq> W_sleep))"

lemma awake_goto: "i < length (p_work s) \<Longrightarrow> pc \<noteq> W_sleep \<Longrightarrow> awake_inv (goto i pc s)"
  by (auto simp: awake_inv_def intro: set_update_memI)

lemma awake_step:
  assumes "pool_step s t" and "awake_inv s"
  shows "awake_inv t"
  using assms(1)
proof (cases rule: pool_step.cases)
  case notify_none
  then show ?thesis using assms(2) by (cases "p_work s") (auto simp: awake_inv_def)
next
  case (wait i)
  then show ?thesis using assms(2) by (simp add: awake_inv_def)
next
  case (quit i fd)
  then have "W_serve fd \<in> set (p_work s)" by (metis at_work_def nth_mem)
  with quit(1) assms(2) show ?thesis by (auto simp: awake_inv_def)
qed (use assms(2) in \<open>auto intro!: awake_goto simp: at_work_def, auto simp: awake_inv_def\<close>)

lemma awake_reach: "pool_reach array n s \<Longrightarrow> 0 < n \<Longrightarrow> awake_inv s"
proof (induction rule: pool_reach.induct)
  case init
  then show ?case by (simp add: awake_inv_def pool_start_def ring_start_def ring_empty_def)
qed (auto intro: awake_step)

text \<open>(C24) The circular array of \<open>serv08\<close> implements a queue of connections: in every state the
  threads can reach, whatever their interleaving, the connections accepted are those the workers have
  taken, then those in the array, then the one the main thread holds, in the order they were accepted.
  So no connection is taken by two threads or left out, and they are served first come, first served,
  as long as the server runs. At most 31 wait; when
  one more comes the server ends itself and drops all 32.\<close>

theorem thread_pool_fifo:
  assumes "pool_reach array n s" and "length array = MAXNCLI"
  shows "if p_main s = M_exit then length (p_given s) = length (p_taken s) + 32
    else p_given s = p_taken s @ ring_queue (p_ring s) @ in_hand (p_main s) \<and>
      length (ring_queue (p_ring s)) \<le> 31"
  using fifo_reach [OF assms] ring_fifo.bounded [of "p_ring s"]
  by (auto simp: fifo_inv_def ring_fifo.passed_def MAXNCLI_def)

text \<open>A run with one worker: a connection is accepted and stored.\<close>

definition pool_example :: pool where
  "pool_example = \<lparr>p_ring = ring_put 4 (ring_start (replicate MAXNCLI (-1))), p_owner = Some Main,
     p_main = M_notify, p_work = [W_lock], p_given = [4], p_taken = []\<rparr>"

lemma pool_example_reach: "pool_reach (replicate MAXNCLI (-1)) 1 pool_example"
proof -
  let ?s0 = "pool_start (replicate MAXNCLI (-1)) 1"
  let ?s1 = "?s0\<lparr>p_main := M_lock 4, p_given := [4]\<rparr>"
  let ?s2 = "?s1\<lparr>p_main := M_put 4, p_owner := Some Main\<rparr>"
  have "pool_step ?s0 ?s1" using pool_step.accept [of ?s0 4] by (simp add: pool_start_def)
  moreover have "pool_step ?s1 ?s2" by (intro pool_step.lock) (simp_all add: pool_start_def)
  moreover have "pool_step ?s2 pool_example"
    using pool_step.store [of ?s2 4 _, OF _ refl]
    by (simp add: pool_example_def pool_start_def ring_empty_def ring_put_def ring_start_def ring_next_def MAXNCLI_def)
  ultimately show ?thesis by (meson pool_reach.intros)
qed

theorem thread_pool_fifo_witness:
  "pool_reach (replicate MAXNCLI (-1)) 1 pool_example \<and> p_given pool_example = [4] \<and>
     ring_queue (p_ring pool_example) = [4]"
  using thread_pool_fifo [OF pool_example_reach] pool_example_reach by (simp add: pool_example_def)

text \<open>(C26) The mutex does its work: in every reachable state a thread is between \<open>lock\<close> and \<open>unlock\<close>
  exactly when it owns the mutex. So no two threads are inside together, the mutex is free
  exactly when none is, and no thread waits in \<open>accept\<close>, sleeps or serves a connection with the mutex
  in its hands.\<close>

theorem thread_pool_exclusive:
  assumes "pool_reach array n s"
  shows "(critical s t \<longleftrightarrow> p_owner s = Some t) \<and> (critical s t \<and> critical s u \<longrightarrow> t = u) \<and>
    (p_owner s = None \<longleftrightarrow> (\<forall>v. \<not> critical s v))"
proof -
  have "critical s v \<longleftrightarrow> p_owner s = Some v" for v
    using owns_reach [OF assms] by (cases v) (auto simp: owns_def)
  then show ?thesis by auto
qed

theorem thread_pool_exclusive_witness:
  "critical pool_example Main \<and> p_owner pool_example = Some Main \<and> \<not> critical pool_example (Worker 0)"
proof -
  have "critical pool_example Main" by (simp add: pool_example_def)
  with thread_pool_exclusive [OF pool_example_reach, of Main "Worker 0"] show ?thesis by blast
qed

text \<open>(C27) No wake-up is lost: when connections are waiting in the array and the main thread is not
  about to notify, some worker is not asleep, so that the waiting connections are served.\<close>

theorem thread_pool_no_lost_wakeup:
  assumes "pool_reach array n s" and "0 < n" and "ring_queue (p_ring s) \<noteq> []" and "length array = MAXNCLI"
    and "p_main s \<noteq> M_notify" and "p_main s \<noteq> M_exit"
  shows "\<exists>i pc. at_work i pc s \<and> pc \<noteq> W_sleep"
proof -
  have "ring_ok (p_ring s)"
    using fifo_reach [OF assms(1,4)] assms(6) by (auto simp: fifo_inv_def ring_fifo.passed_def)
  then have "\<not> ring_empty (p_ring s)" using assms(3) ring_fifo.empty_iff by blast
  then have "\<exists>pc\<in>set (p_work s). pc \<noteq> W_sleep"
    using awake_reach [OF assms(1,2)] assms(5,6) by (auto simp: awake_inv_def)
  then show ?thesis by (auto simp: in_set_conv_nth at_work_def)
qed

theorem thread_pool_no_lost_wakeup_witness:
  "\<exists>s. pool_reach (replicate MAXNCLI (-1)) 1 s \<and> ring_queue (p_ring s) \<noteq> [] \<and>
     (\<exists>i pc. at_work i pc s \<and> pc \<noteq> W_sleep)"
proof -
  let ?s = "pool_example\<lparr>p_main := M_accept, p_owner := None\<rparr>"
  have "pool_step pool_example ?s"
    by (intro pool_step.notify_none) (simp_all add: pool_example_def)
  then have reach: "pool_reach (replicate MAXNCLI (-1)) 1 ?s"
    using pool_example_reach by (rule pool_reach.step [rotated])
  have queue: "ring_queue (p_ring ?s) \<noteq> []"
    by (simp add: pool_example_def ring_queue_def ring_length_def ring_put_def ring_start_def ring_next_def MAXNCLI_def)
  have "\<exists>i pc. at_work i pc ?s \<and> pc \<noteq> W_sleep"
    by (rule thread_pool_no_lost_wakeup [OF reach _ queue]) (simp_all add: pool_example_def)
  with reach queue show ?thesis by blast
qed

end
