(* ===== verification/Echo_Select.thy ===== *)
theory Echo_Select
  imports Connections Datagram_Echo
begin

text \<open>
  \<open>StringEcho4_shutdown/Server/main.cpp\<close>: the echo server that serves all its clients from one
  process with \<open>select\<close>. Its variables \<open>client\<close>, \<open>maxi\<close>, \<open>maxfd\<close> and \<open>allset\<close> are a record. The
  kernel looks only at the descriptors up to \<open>maxfd\<close>; \<open>sel_inv\<close> shows that this is the whole set. \<open>FD_SET\<close> of a descriptor that does
  not fit into an \<open>fd_set\<close> writes outside of it.
\<close>

section \<open>The program\<close>

record sel =
  s_client :: "int list"
  s_maxi :: int
  s_maxfd :: int
  s_allset :: "int set"

definition fd_set :: "int \<Rightarrow> int set \<Rightarrow> (world, int set) prog" where
  "fd_set fd S = (if 0 \<le> fd \<and> fd < int FD_SETSIZE then ret (insert fd S) else halt (Undef ''FD_SET''))"

definition put_client :: "nat \<Rightarrow> int \<Rightarrow> sel \<Rightarrow> sel" where
  "put_client i connfd s = s\<lparr>s_client := (s_client s)[i := connfd]\<rparr>"

definition free_client :: "nat \<Rightarrow> sel \<Rightarrow> sel" where
  "free_client j s = s\<lparr>s_client := (s_client s)[j := -1]\<rparr>"

definition serve_client :: "nat \<Rightarrow> int \<Rightarrow> sel \<Rightarrow> (world, sel) prog" where
  "serve_client j sockfd s = andThen (Read sockfd MAXLINE) (\<lambda>buf.
     if buf = [] then
       seq (Close sockfd) (ret (free_client j (s\<lparr>s_allset := s_allset s - {sockfd}\<rparr>)))
     else seq (Writen sockfd buf) (ret s))"

text \<open>The loop over the clients, from \<open>j\<close> on, with the count of ready descriptors left.\<close>

fun serve_clients :: "int set \<Rightarrow> nat list \<Rightarrow> int \<Rightarrow> sel \<Rightarrow> (world, sel) prog" where
  "serve_clients rset [] nready s = ret s"
| "serve_clients rset (j # js) nready s =
     (let sockfd = s_client s ! j
      in if sockfd < 0 then serve_clients rset js nready s
         else if sockfd \<in> rset then
           andThen (serve_client j sockfd s) (\<lambda>s.
             if nready - 1 \<le> 0 then ret s else serve_clients rset js (nready - 1) s)
         else serve_clients rset js nready s)"

definition new_client :: "int \<Rightarrow> sel \<Rightarrow> (world, sel) prog" where
  "new_client listenfd s = andThen (Accept listenfd) (\<lambda>(connfd, _).
     case first_free (s_client s) of
       None \<Rightarrow> err_quit ''too many clients''
     | Some i \<Rightarrow> andThen (fd_set connfd (s_allset s)) (\<lambda>allset.
         ret ((put_client i connfd s)\<lparr>s_allset := allset,
           s_maxfd := max connfd (s_maxfd s), s_maxi := max (int i) (s_maxi s)\<rparr>)))"

definition select_round :: "int \<Rightarrow> sel \<Rightarrow> (world, sel) prog" where
  "select_round listenfd s = andThen (Select (upto_fd (s_maxfd s) (s_allset s)) {} {} None) (\<lambda>(nready, rset, _).
     if listenfd \<in> rset then
       andThen (new_client listenfd s) (\<lambda>s.
         if nready - 1 \<le> 0 then ret s
         else serve_clients rset [0..<nat (s_maxi s + 1)] (nready - 1) s)
     else serve_clients rset [0..<nat (s_maxi s + 1)] nready s)"

definition select_init :: "int \<Rightarrow> int set \<Rightarrow> sel" where
  "select_init listenfd allset = \<lparr>s_client = replicate FD_SETSIZE (-1), s_maxi = -1,
     s_maxfd = listenfd, s_allset = allset\<rparr>"

definition select_server_main :: "(world, unit) prog" where
  "select_server_main = andThen (Socket AF_INET SOCK_STREAM 0) (\<lambda>listenfd.
     seq (Bind listenfd (Sin (htons 1313) (htonl INADDR_ANY)))
    (seq (Listen listenfd 100)
    (andThen (fd_set listenfd {}) (\<lambda>allset.
       forever (select_round listenfd) (select_init listenfd allset)))))"

interpretation sel_slots: slots s_client put_client free_client
  by unfold_locales (simp_all add: put_client_def free_client_def)

lemma lawful_fd_set [lawful_intros]: "lawful (fd_set fd S)"
  unfolding fd_set_def by (intro lawful_intros)

lemma lawful_serve_client [lawful_intros]: "lawful (serve_client j sockfd s)"
  unfolding serve_client_def by (intro lawful_intros)

lemma lawful_serve_clients [lawful_intros]: "lawful (serve_clients rset js nready s)"
  by (induction js arbitrary: nready s) (auto simp: Let_def intro!: lawful_intros)

lemma lawful_new_client [lawful_intros]: "lawful (new_client listenfd s)"
  unfolding new_client_def by (intro lawful_intros)

lemma lawful_select_round [lawful_intros]: "lawful (select_round listenfd s)"
  unfolding select_round_def by (intro lawful_intros)

lemma eats_select_round: "eats P (select_round listenfd s)"
  unfolding select_round_def by (intro eats_first eats_intros lawful_intros)

interpretation select_loop: consuming "\<lambda>s. andThen (select_round listenfd s) (\<lambda>y. again y)" for listenfd
  by (rule consuming_forever) (rule eats_select_round)

section \<open>The invariant\<close>

text \<open>\<open>maxi\<close> bounds the entries in use. If \<open>accept\<close> returns fresh descriptors, the table holds exactly
  the connections, \<open>allset\<close> is these and the listening socket, and \<open>maxfd\<close> bounds the set.\<close>

definition sel_table :: "sel \<Rightarrow> bool" where
  "sel_table s \<longleftrightarrow> length (s_client s) = FD_SETSIZE \<and> s_maxi s < int FD_SETSIZE \<and>
     (\<forall>i<FD_SETSIZE. s_maxi s < int i \<longrightarrow> s_client s ! i < 0)"

definition sel_inv :: "int \<Rightarrow> sel \<Rightarrow> event list \<Rightarrow> bool" where
  "sel_inv l s tr \<longleftrightarrow> sel_slots.holds s (conns tr) \<and> l \<notin> conns tr \<and>
     s_allset s = insert l (conns tr) \<and> s_allset s \<subseteq> {0..<int FD_SETSIZE} \<and>
     (\<forall>fd\<in>s_allset s. fd \<le> s_maxfd s)"

text \<open>Each \<open>select\<close> waits for the listening socket and for every connection.\<close>

fun ev_waits :: "int \<Rightarrow> int set \<Rightarrow> event \<Rightarrow> bool" where
  "ev_waits l C (Did (C_select rd wr ex tmo) r) \<longleftrightarrow> rd = insert l C"
| "ev_waits l C _ \<longleftrightarrow> True"

definition sel_state :: "int \<Rightarrow> sel \<Rightarrow> world \<Rightarrow> bool" where
  "sel_state l s w \<longleftrightarrow> echoed (trace w) \<and> sel_table s \<and>
     (fresh_accepts {l} (trace w) \<longrightarrow> sel_inv l s (trace w) \<and> along (ev_waits l) (trace w))"

definition sel_ends :: "stop set" where
  "sel_ends = {Blocked, Undef ''FD_SET'', Exit 1 ''read error'', Exit 1 ''writen error'',
     Exit 1 ''close error'', Exit 1 ''accept error'', Exit 1 ''select error''}"

definition sel_stop :: "int \<Rightarrow> stop \<Rightarrow> world \<Rightarrow> bool" where
  "sel_stop l e w \<longleftrightarrow> echoing (trace w) \<and>
     (fresh_accepts {l} (trace w) \<longrightarrow> e \<in> sel_ends \<and> along (ev_waits l) (trace w))"

lemma ev_waits_log [simp]: "is_log ev \<Longrightarrow> ev_waits l C ev"
  by (cases ev) simp_all

lemma waits_writes: "writes_of fd ev \<or> is_log ev \<Longrightarrow> no_conn ev \<and> ev_waits l S ev \<and> ev_fresh L S ev"
  using no_conn_writes by (cases "is_log ev") (auto simp: writes_of_def)

lemma waits_refused: "refused fd ev \<or> is_log ev \<Longrightarrow> no_conn ev \<and> ev_waits l S ev \<and> ev_fresh L S ev"
  using no_conn_refused by (cases "is_log ev") (auto simp: refused_def)

text \<open>Events that are neither \<open>accept\<close> nor \<open>close\<close> keep the state, as far as they echo.\<close>

lemma sel_state_io:
  assumes st: "sel_state l s w" and v: "trace v = trace w @ tr" and echo: "echoed (trace v)"
    and tr: "\<forall>ev\<in>set tr. no_conn ev \<and> ev_waits l (conns (trace w)) ev"
  shows "sel_state l s v"
proof -
  have "conns (trace w @ tr) = conns (trace w)"
    using tr by (intro conns_append) blast
  then have "sel_inv l s (trace w @ tr) \<longleftrightarrow> sel_inv l s (trace w)"
    by (simp add: sel_inv_def)
  with st v echo tr along_prefix [of "ev_fresh {l}" "trace w" tr] show ?thesis
    by (auto simp: sel_state_def along_append along_from_quiet)
qed

lemma sel_stop_io:
  assumes st: "sel_state l s w" and v: "trace v = trace w @ tr" and e: "e \<in> sel_ends"
    and echo: "echoing (trace v)"
    and tr: "\<forall>ev\<in>set tr. no_conn ev \<and> ev_waits l (conns (trace w)) ev"
  shows "sel_stop l e v"
  using st v e echo tr along_prefix [of "ev_fresh {l}" "trace w" tr]
  by (auto simp: sel_state_def sel_stop_def along_append along_from_quiet)

definition nothing_moved :: "event list \<Rightarrow> bool" where
  "nothing_moved tr \<longleftrightarrow> (\<forall>fd. received fd tr = [] \<and> sent fd tr = [])"

lemma sel_state_quiet:
  assumes st: "sel_state l s w" and v: "trace v = trace w @ tr" and "nothing_moved tr"
    and tr: "\<forall>ev\<in>set tr. no_conn ev \<and> ev_waits l (conns (trace w)) ev"
  shows "sel_state l s v"
  using st assms(3) by (intro sel_state_io [OF st v _ tr])
    (auto simp: v sel_state_def nothing_moved_def intro: echoed_quiet)

lemma sel_stop_quiet:
  assumes st: "sel_state l s w" and v: "trace v = trace w @ tr" and "e \<in> sel_ends" and "nothing_moved tr"
    and tr: "\<forall>ev\<in>set tr. no_conn ev \<and> ev_waits l (conns (trace w)) ev"
  shows "sel_stop l e v"
  using st assms(4) by (intro sel_stop_io [OF st v assms(3) _ tr])
    (auto simp: v sel_state_def nothing_moved_def intro: echoing_quiet)

lemma sel_stop_now: "sel_state l s w \<Longrightarrow> sel_stop l Blocked w"
  by (rule sel_stop_quiet [where tr = "[]"]) (simp_all add: sel_ends_def nothing_moved_def)

section \<open>Serving a client\<close>

lemma sel_state_close:
  assumes st: "sel_state l s w" and j: "j < FD_SETSIZE" "0 \<le> s_client s ! j" and r: "r_val r \<noteq> -1"
    and v: "trace v = trace w @ [Did (C_close (s_client s ! j)) r]"
  shows "sel_state l (free_client j (s\<lparr>s_allset := s_allset s - {s_client s ! j}\<rparr>)) v"
proof -
  let ?s = "s\<lparr>s_allset := s_allset s - {s_client s ! j}\<rparr>"
  have "sel_inv l (free_client j ?s) (trace v)" if inv: "sel_inv l s (trace w)"
  proof -
    have len: "j < length (s_client s)" using st j by (simp add: sel_state_def sel_table_def)
    have C: "sel_slots.holds s (conns (trace w))" using inv by (simp add: sel_inv_def)
    then have "sel_slots.holds ?s (conns (trace w))" by (simp add: sel_slots.holds_def)
    then have "sel_slots.holds (free_client j ?s) (conns (trace w) - {s_client s ! j})"
      using sel_slots.holds_free [of ?s] len j by simp
    moreover have "s_client s ! j \<in> conns (trace w)" "l \<notin> conns (trace w)"
      using sel_slots.holds_nth [OF C len j(2)] inv by (simp_all add: sel_inv_def)
    ultimately show ?thesis
      using inv r v len by (auto simp: sel_inv_def free_client_def nth_list_update)
  qed
  moreover have "sel_table (free_client j ?s)"
    using st j by (auto simp: sel_state_def sel_table_def free_client_def nth_list_update)
  ultimately show ?thesis
    using st r v by (auto simp: sel_state_def echoed_def)
qed

text \<open>The steps of \<open>serve_client\<close>: a read that returns nothing and what fails after it, and the
  bytes it relays, all of them or as many as \<open>writen\<close> got through.\<close>

lemma sel_stop_serve:
  assumes st: "sel_state l s u" "trace v = trace u @ tr" "e \<in> sel_ends"
    and tr: "\<forall>ev\<in>set tr. is_log ev \<or> (\<exists>q. ev = Did (C_read fd MAXLINE) q \<and> got MAXLINE q = []) \<or>
      (\<exists>q. ev = Did (C_close fd) q \<and> r_val q = -1)"
  shows "sel_stop l e v"
proof (rule sel_stop_quiet [OF st])
  have "received fd' tr = [] \<and> sent fd' tr = []" for fd'
    using tr by (induction tr) auto
  then show "nothing_moved tr" by (simp add: nothing_moved_def)
  show "\<forall>ev\<in>set tr. no_conn ev \<and> ev_waits l (conns (trace u)) ev"
    using tr by (fastforce simp: no_conn_def)
qed

lemma sel_state_eof:
  "sel_state l s w \<Longrightarrow> got MAXLINE r = [] \<Longrightarrow> sel_state l s (took (C_read fd MAXLINE) r w)"
  by (rule sel_state_quiet [of _ _ _ _ "[Did (C_read fd MAXLINE) r]"])
    (simp_all add: no_conn_def nothing_moved_def)

lemma sel_state_relay:
  assumes st: "sel_state l s w" and v: "trace v = trace w @ Did (C_read fd MAXLINE) r # tr"
    and tr: "\<forall>ev\<in>set tr. writes_of fd ev" and bs: "sent fd tr = got MAXLINE r"
  shows "sel_state l s v"
proof -
  have "echoed (trace v)"
    unfolding v using st by (intro echoed_relay tr bs) (simp add: sel_state_def)
  then show ?thesis
    by (auto intro!: sel_state_io [OF st v] simp: no_conn_def dest!: bspec [OF tr] waits_writes [OF disjI1])
qed

lemma sel_stop_relay:
  assumes st: "sel_state l s w" and v: "trace v = trace w @ Did (C_read fd MAXLINE) r # tr"
    and tr: "\<forall>ev\<in>set tr. writes_of fd ev \<or> is_log ev" and bs: "sent fd tr = take n (got MAXLINE r)"
    and e: "e = Blocked \<or> e = Exit 1 ''writen error''"
  shows "sel_stop l e v"
proof -
  have "echoing (trace v)"
    unfolding v using st by (intro echoing_relay [OF _ tr bs]) (simp add: sel_state_def)
  with e show ?thesis
    by (intro sel_stop_io [OF st v]) (auto simp: sel_ends_def no_conn_def dest!: bspec [OF tr] waits_writes)
qed

lemma serve_client_wp:
  assumes st: "sel_state l s w" and j: "j < FD_SETSIZE" "0 \<le> s_client s ! j"
  shows "wp (serve_client j (s_client s ! j) s)
    (\<lambda>s' v. sel_state l s' v \<and> s_maxi s' = s_maxi s) (sel_stop l) w"
  unfolding serve_client_def
proof (intro wp_intros)
  show "sel_stop l Blocked w"
    by (rule sel_stop_now [OF st])
next
  fix r
  assume "got MAXLINE r = []"
  note v = sel_state_eof [OF st this, of "s_client s ! j"]
  let ?v = "took (C_read (s_client s ! j) MAXLINE) r w"
  let ?s = "free_client j (s\<lparr>s_allset := s_allset s - {s_client s ! j}\<rparr>)"
  show "sel_stop l Blocked ?v"
    by (rule sel_stop_now [OF v])
  show "sel_state l ?s (took (C_close (s_client s ! j)) q ?v) \<and> s_maxi ?s = s_maxi s" if "\<not> r_val q = -1" for q
    using sel_state_close [OF v j that] by (simp add: free_client_def)
  show "sel_stop l (Exit 1 ''close error'') (took (C_close (s_client s ! j)) q ?v
      \<lparr>trace := trace ?v @ [Did (C_close (s_client s ! j)) q, ev], errno_v := err\<rparr>)"
    if "r_val q = -1" "is_log ev" for q ev err
    by (rule sel_stop_serve [OF v, of _ "[Did (C_close (s_client s ! j)) q, ev]"])
      (use that in \<open>auto simp: sel_ends_def\<close>)
next
  fix r ev err
  let ?read = "Did (C_read (s_client s ! j) MAXLINE) r"
  assume "got_len MAXLINE r = -1" "is_log ev"
  then show "sel_stop l (Exit 1 ''read error'') (took (C_read (s_client s ! j) MAXLINE) r w
      \<lparr>trace := trace w @ [?read, ev], errno_v := err\<rparr>)"
    by (intro sel_stop_serve [OF st, of _ "[?read, ev]"]) (auto simp: sel_ends_def got_neg)
qed (auto intro: sel_state_relay [OF st] sel_stop_relay [OF st])

lemma serve_clients_wp:
  assumes "sel_state l s w" and "\<forall>j\<in>set js. j < FD_SETSIZE"
  shows "wp (serve_clients rset js nready s) (sel_state l) (sel_stop l) w"
  using assms
proof (induction js arbitrary: nready s w)
  case Nil
  then show ?case by (auto intro: wp_intros)
next
  case (Cons j js)
  let ?fd = "s_client s ! j"
  show ?case
  proof (cases "0 \<le> ?fd \<and> ?fd \<in> rset")
    case False
    with Cons show ?thesis by (auto simp: Let_def)
  next
    case True
    then have eq: "serve_clients rset (j # js) nready s = andThen (serve_client j ?fd s) (\<lambda>s.
        if nready - 1 \<le> 0 then ret s else serve_clients rset js (nready - 1) s)"
      by (simp add: Let_def)
    have "wp (serve_client j ?fd s) (\<lambda>s' v. sel_state l s' v \<and> s_maxi s' = s_maxi s) (sel_stop l) w"
      using Cons.prems True by (intro serve_client_wp) auto
    then show ?thesis
      unfolding eq using Cons
      by (intro wp_andThen) (erule wp_mono, auto intro!: wp_intros Cons.IH)
  qed
qed

section \<open>A new client\<close>

lemma sel_state_refused:
  assumes st: "sel_state l s w" and tr: "\<forall>ev\<in>set tr. refused l ev"
  shows "sel_state l s (w\<lparr>trace := trace w @ tr\<rparr>)"
proof (rule sel_state_quiet [OF st])
  show "nothing_moved tr" using quiet_refused [of tr l] tr by (simp add: nothing_moved_def)
  show "\<forall>ev\<in>set tr. no_conn ev \<and> ev_waits l (conns (trace w)) ev"
    using waits_refused [OF disjI1] tr by blast
qed simp

lemma sel_state_new:
  assumes st: "sel_state l s w" and i: "first_free (s_client s) = Some i"
    and fd: "0 \<le> r_val r" "r_val r < int FD_SETSIZE"
    and v: "trace v = trace w @ tr @ [Did (C_accept l) r]" and tr: "\<forall>ev\<in>set tr. refused l ev"
  shows "sel_state l ((put_client i (r_val r) s)\<lparr>s_allset := insert (r_val r) (s_allset s),
    s_maxfd := max (r_val r) (s_maxfd s), s_maxi := max (int i) (s_maxi s)\<rparr>) v" (is "sel_state l ?s v")
proof -
  define u where "u = w\<lparr>trace := trace w @ tr\<rparr>"
  have su: "sel_state l s u" and u: "trace u = trace w @ tr"
    using sel_state_refused [OF st tr] by (simp_all add: u_def)
  have len: "i < FD_SETSIZE" "s_client s ! i < 0"
    using first_free_Some [OF i] st by (simp_all add: sel_state_def sel_table_def)
  have v': "trace v = trace u @ [Did (C_accept l) r]" using u v by simp
  have table: "sel_table ?s"
    using st len by (auto simp: sel_state_def sel_table_def put_client_def nth_list_update)
  have "sel_inv l ?s (trace v)" if inv: "sel_inv l s (trace u)" and fresh: "ev_fresh {l} (conns (trace u)) (Did (C_accept l) r)"
  proof -
    have new: "r_val r \<noteq> l" "r_val r \<notin> conns (trace u)" using fresh fd by auto
    have "sel_slots.holds s (conns (trace u))" using inv by (simp add: sel_inv_def)
    from sel_slots.holds_put [OF this i fd(1) new(2)]
    have "sel_slots.holds ?s (insert (r_val r) (conns (trace u)))"
      by (simp add: sel_slots.holds_def)
    with inv new fd v' show ?thesis
      by (auto simp: sel_inv_def put_client_def le_max_iff_disj)
  qed
  with su v' table show ?thesis
    by (auto simp: sel_state_def echoed_def)
qed

text \<open>The table is never full: there are as many entries as an \<open>fd_set\<close> has bits, and the listening
  socket is one of them.\<close>

lemma sel_not_full:
  assumes "sel_state l s w" and "fresh_accepts {l} (trace w)"
  shows "first_free (s_client s) \<noteq> None"
  using assms sel_slots.room [of s "conns (trace w)" l FD_SETSIZE]
  by (auto simp: sel_state_def sel_inv_def sel_table_def)

lemma new_client_wp:
  assumes st: "sel_state l s w"
  shows "wp (new_client l s) (sel_state l) (sel_stop l) w"
  unfolding new_client_def fd_set_def
proof (intro wp_intros)
  fix e tr and v :: world
  assume "trace v = trace w @ tr" "\<forall>ev\<in>set tr. refused l ev \<or> is_log ev"
    and "e = Blocked \<or> e = Exit 1 ''accept error''"
  moreover from this have "nothing_moved tr"
    using quiet_refused [of tr l] by (simp add: nothing_moved_def)
  moreover from calculation(2) have "\<forall>ev\<in>set tr. no_conn ev \<and> ev_waits l (conns (trace w)) ev"
    using waits_refused by blast
  ultimately show "sel_stop l e v"
    by (intro sel_stop_quiet [OF st]) (auto simp: sel_ends_def)
next
  fix r tr x y ev and v :: world
  assume v: "trace v = trace w @ tr @ [Did (C_accept l) r]" and tr: "\<forall>ev\<in>set tr. refused l ev"
    and full: "first_free (s_client s) = None" and ev: "is_log ev"
  have w: "\<not> fresh_accepts {l} (trace w)" using sel_not_full [OF st] full by blast
  then have "\<not> fresh_accepts {l} (trace v @ [ev])"
    using along_prefix [of "ev_fresh {l}" "trace w"] by (auto simp: v)
  moreover have "echoing (trace v @ [ev])"
    using st quiet_refused [of "tr @ [ev]" l] tr ev
    by (simp add: v) (intro echoing_quiet; simp add: sel_state_def)
  ultimately show "sel_stop l (Exit 1 ''too many clients'') (v\<lparr>trace := trace v @ [ev]\<rparr>)"
    by (auto simp: sel_stop_def)
next
  fix r tr x y i and v :: world
  assume v: "trace v = trace w @ tr @ [Did (C_accept l) r]" and tr: "\<forall>ev\<in>set tr. refused l ev"
    and xy: "(r_val r, r_addr r) = (x, y)" and i: "first_free (s_client s) = Some i"
    and ok: "0 \<le> x \<and> x < int FD_SETSIZE"
  then show "sel_state l ((put_client i x s)\<lparr>s_allset := insert x (s_allset s),
      s_maxfd := max x (s_maxfd s), s_maxi := max (int i) (s_maxi s)\<rparr>) v"
    using sel_state_new [OF st i _ _ v tr] by auto
next
  fix r tr x y i and v :: world
  assume v: "trace v = trace w @ tr @ [Did (C_accept l) r]" and tr: "\<forall>ev\<in>set tr. refused l ev"
    and big: "\<not> (0 \<le> x \<and> x < int FD_SETSIZE)"
  define u where "u = w\<lparr>trace := trace w @ tr\<rparr>"
  have "sel_state l s u" and "trace v = trace u @ [Did (C_accept l) r]"
    using sel_state_refused [OF st tr] v by (simp_all add: u_def)
  then show "sel_stop l (Undef ''FD_SET'') v"
    by (auto simp: sel_state_def sel_stop_def sel_ends_def echoed_def echoing_def)
qed

section \<open>The whole server\<close>

lemma Select_state:
  assumes st: "sel_state l s w"
  shows "wp (Select (upto_fd (s_maxfd s) (s_allset s)) {} {} None) (\<lambda>_. sel_state l s) (sel_stop l) w" (is "wp (Select ?set _ _ _) _ _ w")
proof (intro wp_intros)
  show "sel_stop l Blocked w" by (rule sel_stop_now [OF st])
next
  fix r
  show "sel_state l s (took (C_select ?set {} {} None) r w)"
    using st by (auto simp: sel_state_def echoed_def sel_inv_def upto_fd_id)
next
  fix r ev err
  assume "is_log ev"
  then show "sel_stop l (Exit 1 ''select error'') (took (C_select ?set {} {} None) r w
      \<lparr>trace := trace w @ [Did (C_select ?set {} {} None) r, ev], errno_v := err\<rparr>)"
    using st along_snoc [of "ev_fresh {l}" "trace w @ [Did (C_select ?set {} {} None) r]" ev]
      along_snoc [of "ev_waits l" "trace w @ [Did (C_select ?set {} {} None) r]" ev]
    by (auto simp: sel_state_def sel_stop_def echoed_def echoing_def sel_ends_def sel_inv_def upto_fd_id)
qed

lemma select_round_wp:
  assumes st: "sel_state l s w"
  shows "wp (select_round l s) (sel_state l) (sel_stop l) w"
  unfolding select_round_def
proof (rule wp_andThen, rule wp_mono [OF Select_state [OF st]])
  fix x and v :: world
  assume v: "sel_state l s v"
  have serve: "wp (serve_clients rset [0..<nat (s_maxi t + 1)] nready t) (sel_state l) (sel_stop l) u"
    if "sel_state l t u" for t u rset nready
    using that by (intro serve_clients_wp) (auto simp: sel_state_def sel_table_def)
  show "wp (case x of (nready, rset, uu_) \<Rightarrow>
      if l \<in> rset then andThen (new_client l s) (\<lambda>s.
        if nready - 1 \<le> 0 then ret s
        else serve_clients rset [0..<nat (s_maxi s + 1)] (nready - 1) s)
      else serve_clients rset [0..<nat (s_maxi s + 1)] nready s) (sel_state l) (sel_stop l) v"
    by (cases x) (auto intro!: wp_andThen wp_ret serve v wp_mono [OF new_client_wp [OF v]])
qed

lemma forever_select_wp:
  assumes "sel_state l s w"
  shows "wp (forever (select_round l) s) Q (sel_stop l) w"
  unfolding forever_def
  by (rule select_loop.loop_wp [where I = "sel_state l", OF assms])
    (intro wp_andThen wp_mono [OF select_round_wp], assumption, auto intro: wp_ret)

lemma select_init_state:
  assumes "trace w = tr" and "0 \<le> l" "l < int FD_SETSIZE" and "nothing_moved tr"
    and "\<forall>ev\<in>set tr. no_conn ev \<and> ev_waits l {} ev"
  shows "sel_state l (select_init l {l}) w"
proof -
  have "conns tr = {}" using conns_append [of tr "[]"] assms(5) by simp
  moreover have "along (ev_waits l) tr"
    using along_from_quiet [of tr "ev_waits l" "{}"] assms(5) by (simp add: along_def)
  moreover have "no_dups (replicate FD_SETSIZE (-1))" "live (replicate FD_SETSIZE (-1)) = {}"
    by (auto simp: no_dups_def live_def)
  ultimately show ?thesis
    using assms by (auto simp: sel_state_def sel_inv_def sel_table_def select_init_def echoed_def
        nothing_moved_def sel_slots.holds_def)
qed

text \<open>Before the loop nothing is received, and every stop is one of \<open>main\<close>'s own.\<close>

fun set_up :: "event \<Rightarrow> bool" where
  "set_up (Did (C_socket f t p) r) = True"
| "set_up (Did (C_bind fd sa) r) = True"
| "set_up (Did (C_listen fd n) r) = True"
| "set_up (Did (C_lib nm is bs) r) = True"
| "set_up (Did c r) = False"
| "set_up ev = True"

lemma set_up_quiet:
  assumes "\<forall>ev\<in>set tr. set_up ev"
  shows "nothing_moved tr" and "\<forall>ev\<in>set tr. no_conn ev \<and> ev_waits l {} ev"
proof -
  have one: "ev_received fd ev = [] \<and> ev_sent fd ev = [] \<and> no_conn ev \<and> ev_waits l {} ev"
    if "set_up ev" for ev fd l
    using that by (cases ev rule: set_up.cases) (simp_all add: no_conn_def)
  then show "\<forall>ev\<in>set tr. no_conn ev \<and> ev_waits l {} ev" using assms by blast
  have "received fd tr = [] \<and> sent fd tr = []" for fd
    using assms one by (induction tr) auto
  then show "nothing_moved tr" by (simp add: nothing_moved_def)
qed

definition server_stop :: "int \<Rightarrow> stop \<Rightarrow> world \<Rightarrow> bool" where
  "server_stop l e v \<longleftrightarrow> echoing (trace v) \<and>
     (fresh_accepts {l} (trace v) \<longrightarrow> along (ev_waits l) (trace v) \<and> e \<noteq> Exit 1 ''too many clients'')"

lemma sel_stop_server: "sel_stop l e v \<Longrightarrow> server_stop l e v"
  by (auto simp: sel_stop_def server_stop_def sel_ends_def)

lemma set_up_server:
  assumes "\<forall>ev\<in>set (trace v). set_up ev" and "e \<noteq> Exit 1 ''too many clients''"
  shows "server_stop l e v"
  using set_up_quiet [OF assms(1)] assms(2) along_from_quiet [of "trace v" "ev_waits l" "{}"]
  by (simp add: server_stop_def echoing_def nothing_moved_def along_def)

lemma is_log_set_up [simp]: "is_log ev \<Longrightarrow> set_up ev"
  by (cases ev) simp_all

lemma select_rest_wp:
  assumes "\<forall>ev\<in>set (trace w). set_up ev"
  shows "wp (seq (Bind l sa) (seq (Listen l 100) (andThen (fd_set l {}) (\<lambda>allset.
    forever (select_round l) (select_init l allset))))) (\<lambda>_ _. False) (server_stop l) w"
  unfolding Listen_def fd_set_def Let_def
  by (intro wp_intros; (rule set_up_server, use assms in \<open>force simp: \<close>, simp)?)
    (rule wp_mono [OF forever_select_wp [where Q = "\<lambda>_ _. False"] _ sel_stop_server],
     use assms in \<open>auto intro!: select_init_state [OF refl] set_up_quiet\<close>)

lemma select_server_run:
  assumes run: "select_server_main w = (res, w')" and w: "trace w = []"
  shows "\<exists>e. res = Inl e \<and> (\<forall>r rs. resps w = r # rs \<longrightarrow> server_stop (r_val r) e w') \<and> echoing (trace w')"
proof (cases "\<exists>r rs. resps w = r # rs \<and> 0 \<le> r_val r")
  case False
  then have "wp select_server_main (\<lambda>_ _. False) (\<lambda>e v. (\<forall>ev\<in>set (trace v). set_up ev) \<and>
      e \<noteq> Exit 1 ''too many clients'') w"
    unfolding select_server_main_def
    by (intro wp_andThen) (auto simp: wp_def Socket_def andThen_apply sys_apply err_doit_apply w split: list.split)
  then show ?thesis
    using run set_up_server [of w'] by (cases res) (auto simp: wp_def server_stop_def)
next
  case True
  then obtain r rs where r: "resps w = r # rs" "0 \<le> r_val r" by blast
  let ?v = "took (C_socket AF_INET SOCK_STREAM 0) r w"
  have "wp select_server_main (\<lambda>_ _. False) (server_stop (r_val r)) w"
    unfolding select_server_main_def
  proof (rule wp_andThen, rule wp_step)
    show "Socket AF_INET SOCK_STREAM 0 w = (Inr (r_val r), ?v)"
      using r by (simp add: Socket_def andThen_apply sys_apply)
  qed (rule select_rest_wp, simp add: w)
  then show ?thesis
    using run r by (cases res) (auto simp: wp_def server_stop_def)
qed

section \<open>Nobody is owed anything\<close>

text \<open>Whenever the server turns to \<open>select\<close>, everything it has received has been sent back.\<close>

definition caught_up :: "event list \<Rightarrow> bool" where
  "caught_up tr \<longleftrightarrow> (\<forall>tr1 rd wr ex tmo r tr2. tr = tr1 @ Did (C_select rd wr ex tmo) r # tr2 \<longrightarrow> echoed tr1)"

fun is_select :: "event \<Rightarrow> bool" where
  "is_select (Did (C_select rd wr ex tmo) r) = True"
| "is_select ev = False"

lemma caught_up_snoc: "caught_up (tr @ [ev]) \<longleftrightarrow> caught_up tr \<and> (is_select ev \<longrightarrow> echoed tr)"
proof
  assume c: "caught_up (tr @ [ev])"
  then have "caught_up tr" unfolding caught_up_def by (metis append.assoc append_Cons)
  moreover have "echoed tr" if s: "is_select ev"
    using s c by (cases ev rule: is_select.cases) (auto simp: caught_up_def)
  ultimately show "caught_up tr \<and> (is_select ev \<longrightarrow> echoed tr)" by blast
next
  assume c: "caught_up tr \<and> (is_select ev \<longrightarrow> echoed tr)"
  show "caught_up (tr @ [ev])"
    unfolding caught_up_def
  proof (intro allI impI)
    fix tr1 rd wr ex tmo r tr2
    assume "tr @ [ev] = tr1 @ Did (C_select rd wr ex tmo) r # tr2"
    with c show "echoed tr1" by (cases tr2 rule: rev_cases) (auto simp: caught_up_def)
  qed
qed

lemma caught_up_append: "caught_up tr \<Longrightarrow> \<forall>ev\<in>set evs. \<not> is_select ev \<Longrightarrow> caught_up (tr @ evs)"
proof (induction evs rule: rev_induct)
  case (snoc ev evs)
  then show ?case by (simp add: caught_up_snoc flip: append_assoc)
qed simp

lemma caught_up_start [simp]: "caught_up []"
  by (simp add: caught_up_def)

lemma not_select [simp]: "is_log ev \<Longrightarrow> \<not> is_select ev" "writes_of fd ev \<Longrightarrow> \<not> is_select ev" "refused fd ev \<Longrightarrow> \<not> is_select ev"
  by (cases ev rule: is_select.cases; auto simp: writes_of_def refused_def)+

abbreviation owes_nothing :: "world \<Rightarrow> bool" where "owes_nothing w \<equiv> caught_up (trace w)"

lemma serve_client_caught_up:
  assumes "owes_nothing w"
  shows "wp (serve_client j fd s) (\<lambda>_. owes_nothing) (\<lambda>_. owes_nothing) w"
  unfolding serve_client_def
  by (intro wp_intros; use assms in \<open>force intro!: caught_up_append dest: not_select\<close>)

lemma serve_clients_caught_up:
  "owes_nothing w \<Longrightarrow> wp (serve_clients rset js nready s) (\<lambda>_. owes_nothing) (\<lambda>_. owes_nothing) w"
  by (induction js arbitrary: nready s w)
    (auto simp: Let_def intro!: wp_intros wp_mono [OF serve_client_caught_up])

lemma new_client_caught_up:
  assumes "owes_nothing w"
  shows "wp (new_client l s) (\<lambda>_. owes_nothing) (\<lambda>_. owes_nothing) w"
  unfolding new_client_def fd_set_def
  by (intro wp_intros; use assms in \<open>force intro!: caught_up_append dest: not_select\<close>)

lemma select_round_caught_up:
  assumes "sel_state l s w \<and> owes_nothing w"
  shows "wp (select_round l s) (\<lambda>s v. sel_state l s v \<and> owes_nothing v) (\<lambda>_. owes_nothing) w"
proof -
  have now: "caught_up (trace w @ [Did (C_select rd wr ex tmo) r])" "is_log ev \<Longrightarrow> caught_up (trace w @ [Did (C_select rd wr ex tmo) r, ev])"
    for rd wr ex tmo r ev
    using assms caught_up_append [of "trace w @ [Did (C_select rd wr ex tmo) r]" "[ev]"]
    by (simp_all add: caught_up_snoc sel_state_def)
  have "wp (select_round l s) (\<lambda>_. owes_nothing) (\<lambda>_. owes_nothing) w"
    unfolding select_round_def
    by (intro wp_intros) (use assms in \<open>auto intro!: now wp_intros wp_mono [OF new_client_caught_up] wp_mono [OF serve_clients_caught_up]\<close>)
  with select_round_wp [of l s w] assms show ?thesis
    by (auto simp: wp_def split: prod.splits sum.splits)
qed

lemma select_server_caught_up:
  assumes "trace w = []"
  shows "wp select_server_main (\<lambda>_ _. False) (\<lambda>_. owes_nothing) w"
proof -
  have serve: "wp (forever (select_round l) s) (\<lambda>_ _. False) (\<lambda>_. owes_nothing) v" if "sel_state l s v \<and> owes_nothing v" for l s v
    unfolding forever_def
    by (rule select_loop.loop_wp [where I = "\<lambda>s v. sel_state l s v \<and> owes_nothing v", OF that])
      (intro wp_andThen wp_mono [OF select_round_caught_up], assumption, auto intro: wp_ret)
  have set_up: "caught_up tr" if "\<forall>ev\<in>set tr. set_up ev" for tr
  proof -
    have "\<not> is_select ev" if "set_up ev" for ev using that by (cases ev rule: is_select.cases) simp_all
    with that caught_up_append [of "[]" tr] show ?thesis by auto
  qed
  show ?thesis
    unfolding select_server_main_def Listen_def fd_set_def Let_def
    by (intro wp_intros serve; (rule set_up, use assms in \<open>force simp: \<close>)?)
      (use assms in \<open>auto intro!: select_init_state [OF refl] set_up_quiet set_up\<close>)
qed

text \<open>(C20) The \<open>select\<close> server never returns. Each time it turns to \<open>select\<close> to wait, it has sent back to every
  descriptor exactly the bytes it has received from it, in order: serving the clients in turn mixes no two of
  them and loses nothing. In between, and wherever it stops, what it has sent is a beginning of what it has
  received. As long as \<open>accept\<close> returns descriptors that are not in use, each of its \<open>select\<close> calls waits
  for exactly the listening socket and the connections accepted and not closed, none forgotten
  and none left over; and its table of clients is never full, so that the exit \<open>too many clients\<close> is dead
  code (a descriptor beyond \<open>FD_SETSIZE\<close> comes first, for which \<open>FD_SET\<close> writes outside the set).\<close>

theorem select_server_echoes:
  assumes "select_server_main w = (res, w')" and "trace w = []"
  shows "(\<exists>e. res = Inl e) \<and>
    (\<forall>tr rd wr ex tmo r tr'. trace w' = tr @ Did (C_select rd wr ex tmo) r # tr' \<longrightarrow> (\<forall>fd. sent fd tr = received fd tr)) \<and>
    (\<forall>fd. \<exists>rest. received fd (trace w') = sent fd (trace w') @ rest) \<and>
    (\<forall>r rs. resps w = r # rs \<and> fresh_accepts {r_val r} (trace w') \<longrightarrow>
       along (ev_waits (r_val r)) (trace w') \<and> res \<noteq> Inl (Exit 1 ''too many clients''))"
proof -
  have "owes_nothing w'"
    using select_server_caught_up [OF assms(2)] assms(1) by (cases res) (auto simp: wp_def)
  then show ?thesis
    using select_server_run [OF assms] by (auto simp: caught_up_def echoed_def echoing_def server_stop_def)
qed

lemma select_round_apply:
  "select_round l s w = andThen (Select (upto_fd (s_maxfd s) (s_allset s)) {} {} None) (\<lambda>(nready, rset, _).
     if l \<in> rset then
       andThen (new_client l s) (\<lambda>s.
         if nready - 1 \<le> 0 then ret s
         else serve_clients rset [0..<nat (s_maxi s + 1)] (nready - 1) s)
     else serve_clients rset [0..<nat (s_maxi s + 1)] nready s) w"
  by (simp add: select_round_def)

text \<open>A run: a client connects, sends two bytes and closes.\<close>

definition select_example :: "resp list" where
  "select_example = [ok 3, ok 0, ok 0, ok 0, no_resp\<lparr>r_rd := {3}\<rparr>, ok 4,
     no_resp\<lparr>r_rd := {4}\<rparr>, gives [104, 105], ok 2, no_resp\<lparr>r_rd := {4}\<rparr>, gives [], ok 0]"

lemma select_example_run:
  "\<exists>w'. select_server_main (start select_example) = (Inl Blocked, w') \<and>
     received 4 (trace w') = [104, 105] \<and> sent 4 (trace w') = [104, 105] \<and> fresh_accepts {3} (trace w')"
proof -
  have n: "0 < FD_SETSIZE" "int FD_SETSIZE = 1024" by (simp_all add: FD_SETSIZE_def)
  have free: "first_free (replicate FD_SETSIZE (-1)) = Some 0"
  proof -
    have "first_free (replicate k (-1)) = Some 0" if "0 < k" for k
      using that by (cases k) simp_all
    with n(1) show ?thesis by blast
  qed
  have upt: "[0..<Suc 0] = [0]" by simp
  have ready: "{3, 4} \<inter> {4} = {4 :: int}" "{3} \<inter> {3} = {3 :: int}" by auto
  show ?thesis
    by (simp add: select_server_main_def Socket_def Bind_def Listen_def Let_def fd_set_def n andThen_apply sys_apply
        select_example_def forever_unfold [OF eats_select_round] select_round_apply Select_def select_init_def
        new_client_def free Accept_def accept_w.loop_unfold accept_round_apply put_client_def ready_count_def
        serve_client_def Read_def Close_def free_client_def Writen_def writen_def writen_loop.loop_unfold
        writen_round_apply writen_next_def got_def got_len_def put_len_def MAXLINE_def insert_commute received_def sent_def along_def)
qed

theorem select_server_echoes_witness:
  "\<exists>w'. select_server_main (start select_example) = (Inl Blocked, w') \<and> received 4 (trace w') = [104, 105] \<and>
     (\<exists>rest. received 4 (trace w') = sent 4 (trace w') @ rest) \<and> along (ev_waits 3) (trace w')"
proof -
  obtain w' where run: "select_server_main (start select_example) = (Inl Blocked, w')"
    and "received 4 (trace w') = [104, 105]" and "fresh_accepts {3} (trace w')"
    using select_example_run by blast
  moreover have "resps (start select_example) = ok 3 # tl select_example"
    by (simp add: select_example_def)
  moreover note all = select_server_echoes [OF run start_simps(2)]
  moreover from calculation all [THEN conjunct2, THEN conjunct2, THEN conjunct2, THEN spec, THEN spec, of "ok 3" "tl select_example"]
  have "along (ev_waits 3) (trace w')" by (simp del: start_simps(1))
  moreover from all have "\<exists>rest. received 4 (trace w') = sent 4 (trace w') @ rest" by blast
  ultimately show ?thesis
    using run by blast
qed

end
