(* ===== verification/Descriptor_Pool.thy ===== *)
theory Descriptor_Pool
  imports Web_Servers Echo_Select
begin

text \<open>
  Passing descriptors between processes: \<open>read_fd.cpp\<close> and \<open>write_fd.cpp\<close>, the programs of
  \<open>unixdomain\<close> that open a file through another process (\<open>myopen.cpp\<close>, \<open>openfile\<close>, \<open>mycat\<close>), and the
  server that keeps a pool of children and hands each connection to a free one (\<open>child.h\<close>,
  \<open>child05.cpp\<close>, \<open>serv05\<close>).

  A control message comes back in the further integers of a response: length, level, type and
  descriptor; none of them when no control message came. The functions are compiled with or without
  \<open>HAVE_MSGHDR_MSG_CONTROL\<close>, an argument here; without it the integers are the length of the access
  rights and the descriptor.
\<close>

section \<open>read\_fd and write\_fd\<close>

definition SCM_RIGHTS :: int where "SCM_RIGHTS = 1"

text \<open>\<open>CMSG_LEN (sizeof (int))\<close>.\<close>

definition CMSG_LEN_INT :: int where "CMSG_LEN_INT = 20"

definition rights_of :: "bool \<Rightarrow> resp \<Rightarrow> (world, int) prog" where
  "rights_of msg_control r =
     (if msg_control then
        (if r_aux r \<noteq> [] \<and> aux r 0 = CMSG_LEN_INT then
           (if aux r 1 \<noteq> SOL_SOCKET then err_quit ''control level != SOL_SOCKET''
            else if aux r 2 \<noteq> SCM_RIGHTS then err_quit ''control type != SCM_RIGHTS''
            else ret (aux r 3))
         else ret (-1))
      else if aux r 0 = 4 then ret (aux r 1) else ret (-1))"

text \<open>The descriptor is stored when something was read: \<open>None\<close> leaves the caller's variable as it is.\<close>

definition read_fd :: "bool \<Rightarrow> int \<Rightarrow> nat \<Rightarrow> (world, int \<times> byte list \<times> int option) prog" where
  "read_fd msg_control fd nbytes = andThen (sys (C_recvmsg fd nbytes 0)) (\<lambda>r.
     let n = got_len nbytes r
     in if n \<le> 0 then ret (n, [], None)
        else andThen (rights_of msg_control r) (\<lambda>recvfd. ret (n, got nbytes r, Some recvfd)))"

definition Read_fd :: "bool \<Rightarrow> int \<Rightarrow> nat \<Rightarrow> (world, int \<times> byte list \<times> int option) prog" where
  "Read_fd msg_control fd nbytes = andThen (read_fd msg_control fd nbytes) (\<lambda>(n, bs, recvfd).
     if n < 0 then err_sys ''read_fd error'' else ret (n, bs, recvfd))"

definition control_for :: "bool \<Rightarrow> int \<Rightarrow> int list" where
  "control_for msg_control sendfd =
     (if msg_control then [CMSG_LEN_INT, SOL_SOCKET, SCM_RIGHTS, sendfd] else [4, sendfd])"

definition write_fd :: "bool \<Rightarrow> int \<Rightarrow> byte list \<Rightarrow> int \<Rightarrow> (world, int) prog" where
  "write_fd msg_control fd bs sendfd =
     andThen (sys (C_lib ''sendmsg'' (fd # control_for msg_control sendfd) bs)) (\<lambda>r. ret (put_len bs r))"

definition Write_fd :: "bool \<Rightarrow> int \<Rightarrow> byte list \<Rightarrow> int \<Rightarrow> (world, int) prog" where
  "Write_fd msg_control fd bs sendfd = andThen (write_fd msg_control fd bs sendfd) (\<lambda>n.
     if n < 0 then err_sys ''write_fd error'' else ret n)"

lemma lawful_fd [lawful_intros]:
  "lawful (read_fd m fd nbytes)" "lawful (Read_fd m fd nbytes)" "lawful (write_fd m fd bs sendfd)"
  "lawful (Write_fd m fd bs sendfd)"
  unfolding Read_fd_def Write_fd_def read_fd_def write_fd_def rights_of_def Let_def
  by (auto intro!: lawful_intros)

lemma eats_fd [eats_intros]: "eats P (Read_fd m fd nbytes)" "eats Q (Write_fd m fd bs sendfd)"
  unfolding Read_fd_def Write_fd_def read_fd_def write_fd_def rights_of_def Let_def andThen_assoc
  by (auto intro!: eats_first eats_sys lawful_intros)

section \<open>Opening a file through another process\<close>

text \<open>The status of a child as \<open>waitpid\<close> encodes it.\<close>

definition WIFEXITED :: "int \<Rightarrow> bool" where "WIFEXITED status \<longleftrightarrow> status mod 128 = 0"
definition WEXITSTATUS :: "int \<Rightarrow> int" where "WEXITSTATUS status = status div 256 mod 256"

text \<open>The arguments of a program, one string after the other with its null byte. The two numbers are
  cut to the nine characters that \<open>argsockfd\<close> and \<open>argmode\<close> have room for.\<close>

definition c_args :: "byte list list \<Rightarrow> byte list" where
  "c_args args = concat (map (\<lambda>a. a @ [NUL]) args)"

text \<open>\<open>fd\<close> is not initialised; \<open>Read_fd\<close> leaves it so when the other end closes. The numbers of the
  errors are the \<open>errno\<close>s of the model through \<open>errno_of\<close>.\<close>

definition my_open :: "bool \<Rightarrow> (int \<Rightarrow> errno) \<Rightarrow> byte list \<Rightarrow> int \<Rightarrow> (world, int) prog" where
  "my_open m errno_of pathname mode = andThen (Socketpair AF_UNIX SOCK_STREAM 0) (\<lambda>(sv0, sv1).
     andThen Fork (\<lambda>childpid.
       if childpid = 0 then
         seq (Close sv0) (seq (sys (C_lib ''execl'' [] (c_args
             [lit ''openfile'', lit (snprintf 10 (dec_int sv1)), pathname, lit (snprintf 10 (dec_int mode))])))
           (err_sys ''execl error''))
       else seq (Close sv1) (andThen (Waitpid childpid 0) (\<lambda>(_, status).
         if \<not> WIFEXITED status then err_quit ''child did not terminate''
         else andThen (if WEXITSTATUS status = 0 then
                 andThen (Read_fd m sv0 1) (\<lambda>(_, _, fd). case fd of
                   None \<Rightarrow> halt (Undef ''my_open: fd'') | Some fd \<Rightarrow> ret fd)
               else seq (set_errno (errno_of (WEXITSTATUS status))) (ret (-1))) (\<lambda>fd.
           seq (Close sv0) (ret fd))))))"

definition cat_round :: "int \<Rightarrow> unit \<Rightarrow> (world, unit + unit) prog" where
  "cat_round fd _ = andThen (Read fd BUFFSIZE) (\<lambda>buff.
     if buff = [] then leave () else seq (Write STDOUT buff) (again ()))"

definition mycat_main :: "bool \<Rightarrow> (int \<Rightarrow> errno) \<Rightarrow> byte list list \<Rightarrow> (world, int) prog" where
  "mycat_main m errno_of argv =
     (if length argv \<noteq> 2 then err_quit ''usage: mycat <pathname>''
      else andThen (my_open m errno_of (argv ! 1) 0) (\<lambda>fd.
        if fd < 0 then err_sys ''cannot open %s'' else seq (loop (cat_round fd) ()) (ret 0)))"

text \<open>The program that opens the file and passes the descriptor back. \<open>errno_no\<close> is the number of an
  error; \<open>exit\<close> keeps the low eight bits of its argument.\<close>

definition exit_errno :: "(errno \<Rightarrow> int) \<Rightarrow> (world, 'a) prog" where
  "exit_errno errno_no = andThen get_errno (\<lambda>errno.
     halt (Exit ((if 0 < errno_no errno then errno_no errno else 255) mod 256) ''''))"

definition openfile_main :: "bool \<Rightarrow> (errno \<Rightarrow> int) \<Rightarrow> byte list list \<Rightarrow> (world, int) prog" where
  "openfile_main m errno_no argv =
     (if length argv \<noteq> 4 then err_quit ''openfile <sockfd#> <filename> <mode>''
      else andThen (sys_int (C_lib ''open'' [sint (word_of_int (strtol10 (argv ! 3)) :: u32)] (argv ! 2))) (\<lambda>fd.
        if fd < 0 then exit_errno errno_no
        else andThen (write_fd m (sint (word_of_int (strtol10 (argv ! 1)) :: u32)) [0] fd) (\<lambda>n.
          if n < 0 then exit_errno errno_no else exit0)))"

interpretation cat: consuming "cat_round fd" for fd
  by unfold_locales (auto simp: cat_round_def intro!: eats_intros eats_first lawful_intros)

section \<open>The pool: child05.cpp\<close>

record child =
  child_pid :: int
  child_pipefd :: int
  child_status :: int
  child_count :: int

definition STDERR :: int where "STDERR = 2"

text \<open>\<open>connfd\<close> keeps its value from the round before when \<open>Read_fd\<close> stores none; it stores one
  whenever it does not return 0.\<close>

definition child05_round :: "bool \<Rightarrow> (nat \<Rightarrow> byte) \<Rightarrow> rl \<Rightarrow> (world, rl) prog" where
  "child05_round m result s = andThen (Read_fd m STDERR 1) (\<lambda>(n, _, fd).
     if n = 0 then err_quit ''read fd returned 0''
     else case fd of None \<Rightarrow> halt (Undef ''child_main: connfd'')
       | Some connfd \<Rightarrow>
           if connfd < 0 then err_quit ''no descriptor form read_fd''
           else andThen (web_child connfd result s) (\<lambda>s.
             seq (Close connfd) (seq (Write STDERR [0]) (ret s))))"

definition child05_main :: "bool \<Rightarrow> (nat \<Rightarrow> byte) \<Rightarrow> rl \<Rightarrow> (world, 'a) prog" where
  "child05_main m result s = andThen (sys_int (C_lib ''getpid'' [] [])) (\<lambda>pid.
     seq (print ''child %ld starting'' [pid]) (forever (child05_round m result) s))"

text \<open>The parent gets the record of its child.\<close>

definition child05_make :: "bool \<Rightarrow> (nat \<Rightarrow> byte) \<Rightarrow> rl \<Rightarrow> int \<Rightarrow> (world, child) prog" where
  "child05_make m result s listenfd = andThen (Socketpair AF_UNIX SOCK_STREAM 0) (\<lambda>(sv0, sv1).
     andThen Fork (\<lambda>pid.
       if 0 < pid then seq (Close sv1)
         (ret \<lparr>child_pid = pid, child_pipefd = sv0, child_status = 0, child_count = 0\<rparr>)
       else seq (Dup2 sv1 STDERR) (seq (Close sv0) (seq (Close sv0) (seq (Close listenfd)
         (child05_main m result s))))))"

section \<open>The pool: serv05\<close>

record dpool =
  d_cptr :: "child list"
  d_navail :: int
  d_master :: "int set"
  d_maxfd :: int

definition SIGINT_handler :: "dpool \<Rightarrow> (world, unit) prog" where
  "SIGINT_handler p = sig_int_pool (map child_pid (d_cptr p)) (map child_count (d_cptr p))"

text \<open>The first free child takes the connection.\<close>

fun free_child :: "child list \<Rightarrow> nat option" where
  "free_child [] = None"
| "free_child (c # cs) = (if child_status c = 0 then Some 0 else map_option Suc (free_child cs))"

definition busy :: "nat \<Rightarrow> dpool \<Rightarrow> dpool" where
  "busy i p = (let c = d_cptr p ! i in
     p\<lparr>d_cptr := (d_cptr p)[i := c\<lparr>child_status := 1, child_count := child_count c + 1\<rparr>],
       d_navail := d_navail p - 1\<rparr>)"

definition idle_again :: "nat \<Rightarrow> dpool \<Rightarrow> dpool" where
  "idle_again i p = p\<lparr>d_cptr := (d_cptr p)[i := (d_cptr p ! i)\<lparr>child_status := 0\<rparr>],
     d_navail := d_navail p + 1\<rparr>"

definition dispatch :: "bool \<Rightarrow> int \<Rightarrow> dpool \<Rightarrow> (world, dpool) prog" where
  "dispatch m listenfd p = andThen (Accept listenfd) (\<lambda>(connfd, _).
     case free_child (d_cptr p) of
       None \<Rightarrow> err_quit ''no available children''
     | Some i \<Rightarrow> seq (Write_fd m (child_pipefd (d_cptr p ! i)) [0] connfd)
                  (seq (Close connfd) (ret (busy i p))))"

text \<open>The loop over the children that have answered. The test of the result of \<open>Read\<close> is an assignment
  of 0, so that it never succeeds.\<close>

fun collect :: "int set \<Rightarrow> nat list \<Rightarrow> int \<Rightarrow> dpool \<Rightarrow> (world, dpool) prog" where
  "collect rset [] nsel p = ret p"
| "collect rset (i # is) nsel p =
     (if child_pipefd (d_cptr p ! i) \<in> rset then
        andThen (Read (child_pipefd (d_cptr p ! i)) 1) (\<lambda>_.
          if nsel - 1 = 0 then ret (idle_again i p)
          else collect rset is (nsel - 1) (idle_again i p))
      else collect rset is nsel p)"

definition serv05_round :: "bool \<Rightarrow> int \<Rightarrow> dpool \<Rightarrow> (world, dpool) prog" where
  "serv05_round m listenfd p =
     andThen (Select (upto_fd (d_maxfd p) (if d_navail p \<le> 0 then d_master p - {listenfd} else d_master p)) {} {} None) (\<lambda>(nsel, rset, _).
       if listenfd \<in> rset then
         andThen (dispatch m listenfd p) (\<lambda>p.
           if nsel - 1 = 0 then ret p else collect rset [0..<length (d_cptr p)] (nsel - 1) p)
       else collect rset [0..<length (d_cptr p)] nsel p)"

text \<open>\<open>FD_SET\<close> of each child's pipe follows its \<open>child_make\<close>, and \<open>maxfd\<close> is kept with it.\<close>

fun serv05_children ::
  "nat \<Rightarrow> (world, child) prog \<Rightarrow> int set \<Rightarrow> int \<Rightarrow> (world, child list \<times> int set \<times> int) prog" where
  "serv05_children 0 child master maxfd = ret ([], master, maxfd)"
| "serv05_children (Suc n) child master maxfd = andThen child (\<lambda>c. andThen (fd_set (child_pipefd c) master) (\<lambda>master.
     andThen (serv05_children n child master (max maxfd (child_pipefd c))) (\<lambda>(cs, master, maxfd).
       ret (c # cs, master, maxfd))))"

definition serv05_main :: "bool \<Rightarrow> byte list list \<Rightarrow> (nat \<Rightarrow> byte) \<Rightarrow> rl \<Rightarrow> (world, int) prog" where
  "serv05_main m argv result s = andThen (listen_args 1 ''usage : serv05 [<host>] <port#> <children#>'' argv)
     (\<lambda>(listenfd, addrlen). let nchildren = atoi (last argv) in
       andThen (fd_set listenfd {}) (\<lambda>master.
       seq (Malloc (int addrlen)) (seq (Calloc nchildren 24)
      (andThen (serv05_children (nat nchildren) (child05_make m result s listenfd) master listenfd) (\<lambda>(cs, master, maxfd).
       seq (Signal SIGINT 2)
         (forever (serv05_round m listenfd) \<lparr>d_cptr = cs, d_navail = nchildren, d_master = master, d_maxfd = maxfd\<rparr>))))))"

lemma lawful_child05 [lawful_intros]:
  "lawful (child05_round m result s)" "lawful (child05_main m result s)" "lawful (child05_make m result s l)"
proof -
  show r: "lawful (child05_round m result s)" for s
    unfolding child05_round_def by (auto intro!: lawful_intros)
  have e: "eats always (child05_round m result s)" for s
    unfolding child05_round_def by (intro eats_first eats_intros) (auto intro!: lawful_intros)
  show main: "lawful (child05_main m result s)"
    unfolding child05_main_def by (intro lawful_intros lawful_forever r e)
  show "lawful (child05_make m result s l)"
    unfolding child05_make_def by (auto intro!: lawful_intros main)
qed

section \<open>The children do not start\<close>

text \<open>What the kernel promises: \<open>close\<close> fails for a descriptor that has just been closed.\<close>

fun close_twice :: "event \<times> event \<Rightarrow> bool" where
  "close_twice (Did (C_close fd) r, Did (C_close fd') r') \<longleftrightarrow> fd = fd' \<and> r_val r \<noteq> -1 \<and> r_val r' \<noteq> -1"
| "close_twice _ \<longleftrightarrow> False"

definition closes_once :: "event list \<Rightarrow> bool" where
  "closes_once tr \<longleftrightarrow> (\<forall>p\<in>set (zip tr (tl tr)). \<not> close_twice p)"

lemma closes_once_twice:
  assumes "r_val r \<noteq> -1" and "r_val q \<noteq> -1"
  shows "\<not> closes_once (tr @ Did (C_close fd) r # Did (C_close fd) q # es)"
proof -
  have "zip (tr @ a # b # es) (tl (tr @ a # b # es)) = zip tr (tl (tr @ [a])) @ (a, b) # zip (b # es) es" for a b :: event
    by (induction tr) (simp, case_tac tr, auto)
  then show ?thesis using assms by (auto simp: closes_once_def)
qed

text \<open>A child has started when it calls \<open>getpid\<close>, the first thing \<open>child_main\<close> does.\<close>

fun is_start :: "event \<Rightarrow> bool" where
  "is_start (Did (C_lib nm is bs) r) \<longleftrightarrow> nm = ''getpid''"
| "is_start _ \<longleftrightarrow> False"

definition started :: "event list \<Rightarrow> bool" where
  "started tr \<longleftrightarrow> list_ex is_start tr"

lemma is_log_start [simp]: "is_log ev \<Longrightarrow> \<not> is_start ev"
  by (cases ev) simp_all

lemma wp_lawful:
  assumes "lawful m" and "\<And>x v. extends w v \<Longrightarrow> Q x v" and "\<And>e v. extends w v \<Longrightarrow> E e v"
  shows "wp m Q E w"
  using assms lawfulD by (intro wpI) blast+

definition never_starts :: "world \<Rightarrow> bool" where
  "never_starts v \<longleftrightarrow> closes_once (trace v) \<longrightarrow> \<not> started (trace v)"

lemma child05_make_wp:
  assumes "\<not> started (trace w)"
  shows "wp (child05_make m result s l) (\<lambda>c v. never_starts v \<and> (closes_once (trace v) \<longrightarrow> 0 < child_pid c))
    (\<lambda>_. never_starts) w"
proof -
  have rest: "wp (child05_main m result s) Q E (took (C_close l) r' (took (C_close fd) q (took (C_close fd) r u)))"
      (is "wp _ _ _ ?v")
    if rq: "r_val r \<noteq> -1" "r_val q \<noteq> -1"
      and QE: "\<And>x u. \<not> closes_once (trace u) \<Longrightarrow> Q x u" "\<And>e u. \<not> closes_once (trace u) \<Longrightarrow> E e u"
    for u :: world and fd r q r' Q E
    using closes_once_twice [OF rq, of "trace u" fd]
    by (intro wp_lawful [OF lawful_child05(2)] QE) (auto simp: extends_def)
  show ?thesis
    unfolding child05_make_def
    by (intro wp_intros)
      (use assms in \<open>auto simp: never_starts_def started_def intro!: rest\<close>)
qed

text \<open>(C28) No child of \<open>serv05\<close> ever serves a connection: each closes its end of the pipe twice, and as
  the second \<open>close\<close> fails for a descriptor that is closed already, \<open>Close\<close> ends the child before it
  reaches \<open>child_main\<close>. The parent does not notice, and keeps the record of the child.\<close>

theorem child05_never_starts:
  assumes "child05_make m result s l w = (res, w')" and "trace w = []" and "closes_once (trace w')"
  shows "\<not> started (trace w') \<and> (isl res \<or> 0 < child_pid (projr res))"
proof -
  have "wp (child05_make m result s l) (\<lambda>c v. never_starts v \<and> (closes_once (trace v) \<longrightarrow> 0 < child_pid c))
    (\<lambda>_. never_starts) w"
    by (rule child05_make_wp) (simp add: assms(2) started_def)
  with assms(1,3) show ?thesis by (cases res) (auto simp: wp_def never_starts_def)
qed

text \<open>The child of a pair of descriptors 5 and 6; the listening socket is 3.\<close>

definition child05_example :: "resp list" where
  "child05_example = [no_resp\<lparr>r_aux := [5, 6]\<rparr>, ok 0, ok 0, ok 0, fails EBADF]"

theorem child05_never_starts_witness:
  "\<exists>w'. child05_make True (\<lambda>_. 0) rl_start 3 (start child05_example) = (Inl (Exit 1 ''close error''), w') \<and>
     \<not> started (trace w')"
proof -
  have "\<exists>w'. child05_make True (\<lambda>_. 0) rl_start 3 (start child05_example) = (Inl (Exit 1 ''close error''), w') \<and>
      closes_once (trace w')"
    by (simp add: child05_make_def child05_example_def andThen_apply sys_apply Socketpair_def Fork_def Dup2_def
        Close_def aux_def closes_once_def err_doit_apply)
  then obtain w' where run: "child05_make True (\<lambda>_. 0) rl_start 3 (start child05_example) =
      (Inl (Exit 1 ''close error''), w')" and "closes_once (trace w')"
    by blast
  with child05_never_starts [OF run] show ?thesis by simp
qed

section \<open>The parent's count of free children\<close>

text \<open>\<open>navail\<close> counts the free children, and their pipes are distinct from each other and from the
  listening socket.\<close>

definition free_count :: "child list \<Rightarrow> nat" where
  "free_count cs = length (filter (\<lambda>c. child_status c = 0) cs)"

definition pool_ok :: "int \<Rightarrow> dpool \<Rightarrow> bool" where
  "pool_ok l p \<longleftrightarrow> d_navail p = int (free_count (d_cptr p)) \<and> distinct (map child_pipefd (d_cptr p)) \<and>
     l \<notin> child_pipefd ` set (d_cptr p)"

lemma free_child_Some: "free_child cs = Some i \<Longrightarrow> i < length cs \<and> child_status (cs ! i) = 0"
  by (induction cs arbitrary: i) (auto split: if_splits)

lemma free_child_None: "free_child cs = None \<longleftrightarrow> free_count cs = 0"
  by (induction cs) (auto simp: free_count_def)

lemma free_count_update:
  "i < length cs \<Longrightarrow> free_count (cs[i := c]) + (if child_status (cs ! i) = 0 then 1 else 0) =
     free_count cs + (if child_status c = 0 then 1 else 0)"
proof (induction cs arbitrary: i)
  case (Cons a cs)
  then show ?case by (cases i) (auto simp: free_count_def)
qed simp

lemma pipes_update:
  "child_pipefd c = child_pipefd (cs ! i) \<Longrightarrow> map child_pipefd (cs[i := c]) = map child_pipefd cs"
  by (cases "i < length cs") (auto simp: map_update list_update_beyond list_update_same_conv)

lemma pool_ok_pipes: "pool_ok l p \<longleftrightarrow> d_navail p = int (free_count (d_cptr p)) \<and>
    distinct (map child_pipefd (d_cptr p)) \<and> l \<notin> set (map child_pipefd (d_cptr p))"
  by (simp add: pool_ok_def)

lemma pool_ok_busy:
  assumes "pool_ok l p" and "free_child (d_cptr p) = Some i"
  shows "pool_ok l (busy i p)"
proof -
  let ?c = "(d_cptr p ! i)\<lparr>child_status := 1, child_count := child_count (d_cptr p ! i) + 1\<rparr>"
  have "free_count ((d_cptr p)[i := ?c]) + 1 = free_count (d_cptr p)"
    using free_child_Some [OF assms(2)] free_count_update [of i "d_cptr p" ?c] by simp
  moreover have "map child_pipefd ((d_cptr p)[i := ?c]) = map child_pipefd (d_cptr p)"
    by (rule pipes_update) simp
  ultimately show ?thesis
    using assms(1) unfolding pool_ok_pipes by (simp add: busy_def Let_def)
qed

lemma pool_ok_idle:
  assumes "pool_ok l p" and "i < length (d_cptr p)" and "child_status (d_cptr p ! i) \<noteq> 0"
  shows "pool_ok l (idle_again i p)"
proof -
  let ?c = "(d_cptr p ! i)\<lparr>child_status := 0\<rparr>"
  have "free_count ((d_cptr p)[i := ?c]) = free_count (d_cptr p) + 1"
    using assms(2,3) free_count_update [of i "d_cptr p" ?c] by simp
  moreover have "map child_pipefd ((d_cptr p)[i := ?c]) = map child_pipefd (d_cptr p)"
    by (rule pipes_update) simp
  ultimately show ?thesis
    using assms(1) unfolding pool_ok_pipes by (simp add: idle_again_def)
qed

text \<open>The answers of one round come from busy children.\<close>

definition answers_busy :: "int set \<Rightarrow> nat list \<Rightarrow> dpool \<Rightarrow> bool" where
  "answers_busy rset is p \<longleftrightarrow> distinct is \<and> (\<forall>i\<in>set is. i < length (d_cptr p) \<and>
     (child_pipefd (d_cptr p ! i) \<in> rset \<longrightarrow> child_status (d_cptr p ! i) \<noteq> 0))"

lemma answers_busy_idle:
  "answers_busy rset (i # is) p \<Longrightarrow> answers_busy rset is (idle_again i p)"
  by (auto simp: answers_busy_def idle_again_def nth_list_update)

lemma answers_busy_busy:
  "answers_busy rset is p \<Longrightarrow> answers_busy rset is (busy i p)"
  by (cases "i < length (d_cptr p)")
    (auto simp: answers_busy_def busy_def Let_def nth_list_update list_update_beyond)

definition no_idle_exit :: "stop \<Rightarrow> world \<Rightarrow> bool" where
  "no_idle_exit e v \<longleftrightarrow> e \<noteq> Exit 1 ''no available children''"

lemma collect_wp:
  assumes "pool_ok l p" and "answers_busy rset is p"
  shows "wp (collect rset is nsel p) (\<lambda>p _. pool_ok l p) no_idle_exit w"
  using assms
proof (induction "is" arbitrary: nsel p w)
  case Nil
  then show ?case by (simp add: wp_def)
next
  case (Cons i "is")
  have skip: "answers_busy rset is p" using Cons.prems(2) by (simp add: answers_busy_def)
  have freed: "pool_ok l (idle_again i p)" if "child_pipefd (d_cptr p ! i) \<in> rset"
    using Cons.prems that by (intro pool_ok_idle) (auto simp: answers_busy_def)
  show ?case
    using Cons.IH [OF Cons.prems(1) skip] Cons.IH [OF freed answers_busy_idle [OF Cons.prems(2)]] freed
    by (auto intro!: wp_intros simp: no_idle_exit_def)
qed

lemma dispatch_wp:
  assumes "pool_ok l p" and "0 < d_navail p" and "answers_busy rset is p"
  shows "wp (dispatch m listenfd p) (\<lambda>q _. pool_ok l q \<and> answers_busy rset is q \<and> length (d_cptr q) = length (d_cptr p))
    no_idle_exit w"
proof -
  obtain i where i: "free_child (d_cptr p) = Some i"
    using assms(1,2) free_child_None [of "d_cptr p"] by (cases "free_child (d_cptr p)") (auto simp: pool_ok_def)
  show ?thesis
    unfolding dispatch_def Write_fd_def write_fd_def i option.case
    by (intro wp_intros)
      (use pool_ok_busy [OF assms(1) i] answers_busy_busy [OF assms(3)] in \<open>auto simp: no_idle_exit_def busy_def Let_def\<close>)
qed

lemma serv05_round_wp:
  assumes ok: "pool_ok l p" and r: "resps w = r # rs"
    and busy: "\<forall>c\<in>set (d_cptr p). child_pipefd c \<in> r_rd r \<longrightarrow> child_status c \<noteq> 0"
  shows "wp (serv05_round m l p) (\<lambda>q _. pool_ok l q) no_idle_exit w"
proof -
  define S where "S = upto_fd (d_maxfd p) (if d_navail p \<le> 0 then d_master p - {l} else d_master p)"
  let ?v = "took (C_select S {} {} None) r w"
  have busy': "answers_busy (S \<inter> r_rd r) [0..<length (d_cptr p)] p"
    using busy by (auto simp: answers_busy_def)
  have accept: "wp (andThen (dispatch m l p) (\<lambda>p. if k = 1 then ret p
      else collect (S \<inter> r_rd r) [0..<length (d_cptr p)] (k - 1) p)) (\<lambda>q _. pool_ok l q) no_idle_exit ?v"
    if "l \<in> S \<inter> r_rd r" for k
  proof (rule wp_andThen, rule wp_mono [OF dispatch_wp [OF ok _ busy']])
    show "0 < d_navail p" using that by (auto simp: S_def upto_fd_def split: if_splits)
  qed (auto intro!: wp_cases wp_ret collect_wp)
  show ?thesis
  proof (cases "r_val r < 0")
    case True
    then show ?thesis
      using r by (simp add: serv05_round_def Select_def andThen_apply sys_apply err_doit_apply wp_def no_idle_exit_def
          ready_count_def S_def)
  next
    case False
    then have "Select S {} {} None w = (Inr (ready_count S {} r, S \<inter> r_rd r, {}), ?v)"
      using r by (simp add: Select_def andThen_apply sys_apply ready_count_def)
    then show ?thesis
      unfolding serv05_round_def S_def [symmetric]
      by (rule wp_andThen [OF wp_step]) (auto intro!: wp_cases accept collect_wp [OF ok busy'])
  qed
qed

text \<open>(C29) As long as only busy children answer, the parent's bookkeeping is exact: after a round of
  its loop \<open>navail\<close> is again the number of children marked free, and since it waits for connections
  only while that is positive, a child is always found for a connection: the exit \<open>no available
  children\<close> is not taken.\<close>

theorem serv05_round_keeps_pool:
  assumes "pool_ok l p" and "resps w = r # rs"
    and "\<forall>c\<in>set (d_cptr p). child_pipefd c \<in> r_rd r \<longrightarrow> child_status c \<noteq> 0"
    and "serv05_round m l p w = (res, w')"
  shows "case res of Inl e \<Rightarrow> e \<noteq> Exit 1 ''no available children'' | Inr q \<Rightarrow> pool_ok l q"
  using serv05_round_wp [OF assms(1-3), of m] assms(4) by (cases res) (auto simp: wp_def no_idle_exit_def)

text \<open>Two children, the first of which is busy and answers while a connection comes in.\<close>

definition serv05_example :: dpool where
  "serv05_example = \<lparr>d_cptr = [\<lparr>child_pid = 71, child_pipefd = 5, child_status = 1, child_count = 1\<rparr>,
     \<lparr>child_pid = 72, child_pipefd = 7, child_status = 0, child_count = 0\<rparr>],
     d_navail = 1, d_master = {3, 5, 7}, d_maxfd = 7\<rparr>"

theorem serv05_round_keeps_pool_witness:
  "\<exists>q w'. serv05_round True 3 serv05_example
      (start [no_resp\<lparr>r_rd := {3, 5}\<rparr>, ok 9, ok 1, ok 0, gives [0]]) = (Inr q, w') \<and> pool_ok 3 q"
proof -
  let ?w = "start [no_resp\<lparr>r_rd := {3, 5}\<rparr>, ok 9, ok 1, ok 0, gives [0]]"
  have "\<exists>q w'. serv05_round True 3 serv05_example ?w = (Inr q, w')"
    by (simp add: serv05_round_def serv05_example_def Select_def dispatch_def Accept_def accept_w.loop_unfold
        accept_round_apply andThen_apply sys_apply Write_fd_def write_fd_def put_len_def Close_def busy_def
        ready_count_def Read_def got_len_def got_def)
  then obtain q w' where run: "serv05_round True 3 serv05_example ?w = (Inr q, w')" by blast
  have "pool_ok 3 q"
    using serv05_round_keeps_pool [OF _ _ _ run, of "no_resp\<lparr>r_rd := {3, 5}\<rparr>" "[ok 9, ok 1, ok 0, gives [0]]"]
    by (auto simp: pool_ok_def free_count_def serv05_example_def)
  with run show ?thesis by blast
qed

text \<open>The end of file of a child that has terminated is taken for an answer, because its test is
  an assignment: a round after a free child has died, \<open>navail\<close> is more than the number of children,
  and the dead child is still marked free.\<close>

theorem serv05_counts_dead_child:
  "\<exists>q w'. serv05_round True 3 \<lparr>d_cptr = [\<lparr>child_pid = 71, child_pipefd = 5, child_status = 0, child_count = 0\<rparr>],
      d_navail = 1, d_master = {3, 5}, d_maxfd = 5\<rparr> (start [no_resp\<lparr>r_rd := {5}\<rparr>, gives []]) = (Inr q, w') \<and>
    d_navail q = 2 \<and> length (d_cptr q) = 1 \<and> free_child (d_cptr q) = Some 0"
  by (simp add: serv05_round_def Select_def andThen_apply sys_apply ready_count_def Read_def got_len_def got_def
      idle_again_def)

end
