(* ===== verification/Icmpd.thy ===== *)
theory Icmpd
  imports Descriptor_Pool Traceroute
begin

text \<open>
  The ICMP daemon of \<open>icmpd/\<close> (without \<open>IPV6\<close>): clients pass it the UDP sockets they want to hear
  about over a Unix domain connection, and it sends them the ICMP errors their datagrams cause. Its
  global variables are a record; \<open>nready\<close>, which the functions decrement and return, is one of them.
  \<open>ss\<close> is the client. Bytes of a struct that are never written are the argument \<open>pad\<close>.
\<close>

section \<open>The daemon's state\<close>

record slot =
  c_connfd :: int
  c_family :: int
  c_lport :: int

record icmpd =
  i_client :: "slot list"
  i_maxi :: int
  i_maxfd :: int
  i_allset :: "int set"
  i_nready :: int

definition ICMPD_PATH :: "byte list" where "ICMPD_PATH = lit ''/tmp/icmpd''"
definition ICMP_SOURCEQUENCH :: nat where "ICMP_SOURCEQUENCH = 4"
definition ICMP_UNREACH_NEEDFRAG :: nat where "ICMP_UNREACH_NEEDFRAG = 4"

definition counted :: "icmpd \<Rightarrow> icmpd" where
  "counted s = s\<lparr>i_nready := i_nready s - 1\<rparr>"

section \<open>New clients\<close>

fun free_slot :: "slot list \<Rightarrow> nat option" where
  "free_slot [] = None"
| "free_slot (c # cs) = (if c_connfd c < 0 then Some 0 else map_option Suc (free_slot cs))"

definition readable_listen :: "int \<Rightarrow> icmpd \<Rightarrow> (world, icmpd) prog" where
  "readable_listen listenfd s = andThen (Accept listenfd) (\<lambda>(connfd, _).
     case free_slot (i_client s) of
       None \<Rightarrow> seq (sys (C_close connfd)) (ret (counted s))
     | Some i \<Rightarrow> seq (print ''new connection , i=%d, connfd=%d'' [int i, connfd])
         (andThen (fd_set connfd (i_allset s)) (\<lambda>allset.
           ret (counted (s\<lparr>i_client := (i_client s)[i := (i_client s ! i)\<lparr>c_connfd := connfd\<rparr>],
             i_allset := allset, i_maxfd := max connfd (i_maxfd s), i_maxi := max (int i) (i_maxi s)\<rparr>)))))"

section \<open>Requests\<close>

definition clientdone :: "nat \<Rightarrow> int \<Rightarrow> int \<Rightarrow> icmpd \<Rightarrow> (world, icmpd) prog" where
  "clientdone i unixfd recvfd s = seq (Close unixfd) (seq (only_if (0 \<le> recvfd) (Close recvfd))
     (ret (counted (s\<lparr>i_allset := i_allset s - {unixfd},
       i_client := (i_client s)[i := (i_client s ! i)\<lparr>c_connfd := -1\<rparr>]\<rparr>))))"

definition clienterr :: "nat \<Rightarrow> int \<Rightarrow> int \<Rightarrow> icmpd \<Rightarrow> (world, icmpd) prog" where
  "clienterr i unixfd recvfd s = seq (Write unixfd (lit ''1'')) (clientdone i unixfd recvfd s)"

definition readable_conn :: "bool \<Rightarrow> nat \<Rightarrow> icmpd \<Rightarrow> (world, icmpd) prog" where
  "readable_conn m i s = (let unixfd = c_connfd (i_client s ! i) in
     andThen (Read_fd m unixfd 1) (\<lambda>(n, _, fd).
       let recvfd = (case fd of None \<Rightarrow> -1 | Some fd \<Rightarrow> fd)
       in if n = 0 then seq (err_msg ''client %d terminated , recvfd=%d'') (clientdone i unixfd recvfd s)
          else if recvfd < 0 then
            seq (err_msg ''read_fd did not return descriptor'') (clienterr i unixfd recvfd s)
          else andThen (sys (C_getsockname recvfd)) (\<lambda>r.
            if r_val r < 0 then seq (err_ret ''getsockname error'') (clienterr i unixfd recvfd s)
            else
              let family = sa_family (r_addr r); lport = sock_get_port False (r_addr r);
                  set = (\<lambda>port. s\<lparr>i_client := (i_client s)[i := (i_client s ! i)
                    \<lparr>c_family := family, c_lport := port\<rparr>]\<rparr>);
                  served = (\<lambda>s. seq (Write unixfd (lit ''1'')) (seq (Close recvfd) (ret (counted s))))
              in if lport = 0 then
                   andThen (sock_bind_wild False recvfd family) (\<lambda>lport.
                     if lport \<le> 0 then
                       seq (err_ret ''error bindingephemeral prot'') (clienterr i unixfd recvfd (set lport))
                     else served (set lport))
                 else served (set lport))))"

section \<open>ICMP messages\<close>

text \<open>\<open>struct icmpd_err\<close>: four bytes of \<open>errno\<close>, the type and the code, two bytes of padding, the
  length, four bytes of padding, and a \<open>sockaddr_storage\<close> of 128 bytes. 113, 111 and 90 are
  \<open>EHOSTUNREACH\<close>, \<open>ECONNREFUSED\<close> and \<open>EMSGSIZE\<close>.\<close>

definition icmpd_err_bytes :: "(nat \<Rightarrow> byte) \<Rightarrow> u32 \<Rightarrow> byte \<Rightarrow> byte \<Rightarrow> byte list \<Rightarrow> byte list \<Rightarrow> byte list" where
  "icmpd_err_bytes pad eno type code port addr =
     bytes32 eno @ [type, code] @ map pad [0..<2] @ bytes32 16 @ map pad [2..<6] @
     [2, 0] @ port @ addr @ replicate 8 0 @ map pad [6..<118]"

definition errno_for :: "nat \<Rightarrow> nat \<Rightarrow> u32" where
  "errno_for type code =
     (if type = ICMP_UNREACH \<and> code = ICMP_UNREACH_PORT then 111
      else if type = ICMP_UNREACH \<and> code = ICMP_UNREACH_NEEDFRAG then 90 else 113)"

text \<open>The clients the error is for, from the first on.\<close>

fun notify_clients :: "slot list \<Rightarrow> int \<Rightarrow> byte list \<Rightarrow> (world, unit) prog" where
  "notify_clients [] sport err = ret ()"
| "notify_clients (c # cs) sport err =
     seq (only_if (0 \<le> c_connfd c \<and> c_family c = AF_INET \<and> c_lport c = sport) (Write (c_connfd c) err))
       (notify_clients cs sport err)"

definition readable_v4 :: "(nat \<Rightarrow> byte) \<Rightarrow> byte list \<Rightarrow> int \<Rightarrow> icmpd \<Rightarrow> (world, icmpd) prog" where
  "readable_v4 pad garbage fd4 s = andThen (Recvfrom fd4 MAXLINE 0) (\<lambda>(bs, from).
     let buf = bs @ garbage; n = length bs; hlen1 = ip_hlen buf; icmp = drop hlen1 buf;
         icmplen = int n - int hlen1; type = unat (byte_at 0 icmp); code = unat (byte_at 1 icmp)
     in seq (Sock_ntop_host False (\<lambda>_. []) from (sa_len from))
       (seq (print ''%d bytes ICMP4 from %s:'' [int n])
       (if icmplen < 8 then err_quit ''icmplen (%d) < 8''
        else seq (print '' type=%d, code=%d'' [int type, int code])
          (if type = ICMP_UNREACH \<or> type = ICMP_TIMXCEED \<or> type = ICMP_SOURCEQUENCH then
             (if icmplen < 8 + 20 + 8 then err_quit ''icmplen (%d)<8+20+8''
              else
                let hip = drop (hlen1 + 8) buf; hlen2 = ip_hlen hip; udp = drop (hlen1 + 8 + hlen2) buf
                in seq (sys (C_lib ''inet_ntop'' [AF_INET] (take 4 (drop 12 hip))))
                  (seq (sys (C_lib ''inet_ntop'' [AF_INET] (take 4 (drop 16 hip))))
                  (seq (print ''srcip=%s, dstip=%s, proto=%d'' [int (ip_p hip)])
                  (seq (only_if (ip_p hip = IPPROTO_UDP)
                     (notify_clients (take (nat (i_maxi s)) (i_client s)) (uint (half_at 0 udp))
                       (icmpd_err_bytes pad (errno_for type code) (byte_at 0 icmp) (byte_at 1 icmp)
                         (take 2 (drop 2 udp)) (take 4 (drop 16 hip)))))
                     (ret (counted s))))))
           else ret (counted s)))))"

section \<open>The main loop\<close>

text \<open>The loop over the clients from \<open>i\<close> on.\<close>

fun serve_slots :: "bool \<Rightarrow> int set \<Rightarrow> nat list \<Rightarrow> icmpd \<Rightarrow> (world, icmpd) prog" where
  "serve_slots m rset [] s = ret s"
| "serve_slots m rset (i # is) s = (let sockfd = c_connfd (i_client s ! i) in
     if sockfd < 0 then serve_slots m rset is s
     else if sockfd \<in> rset then andThen (readable_conn m i s) (\<lambda>s.
       if i_nready s \<le> 0 then ret s else serve_slots m rset is s)
     else serve_slots m rset is s)"

definition icmpd_conns :: "bool \<Rightarrow> int set \<Rightarrow> icmpd \<Rightarrow> (world, icmpd) prog" where
  "icmpd_conns m rset s = serve_slots m rset [0..<nat (i_maxi s + 1)] s"

definition icmpd_v4 ::
  "bool \<Rightarrow> (nat \<Rightarrow> byte) \<Rightarrow> byte list \<Rightarrow> int \<Rightarrow> int set \<Rightarrow> icmpd \<Rightarrow> (world, icmpd) prog" where
  "icmpd_v4 m pad garbage fd4 rset s =
     (if fd4 \<in> rset then andThen (readable_v4 pad garbage fd4 s) (\<lambda>s.
        if i_nready s \<le> 0 then ret s else icmpd_conns m rset s)
      else icmpd_conns m rset s)"

definition icmpd_round ::
  "bool \<Rightarrow> (nat \<Rightarrow> byte) \<Rightarrow> byte list \<Rightarrow> int \<Rightarrow> int \<Rightarrow> icmpd \<Rightarrow> (world, icmpd) prog" where
  "icmpd_round m pad garbage fd4 listenfd s =
     andThen (Select (upto_fd (i_maxfd s) (i_allset s)) {} {} None) (\<lambda>(nready, rset, _).
       let s = s\<lparr>i_nready := nready\<rparr>
       in if listenfd \<in> rset then andThen (readable_listen listenfd s) (\<lambda>s.
            if i_nready s \<le> 0 then ret s else icmpd_v4 m pad garbage fd4 rset s)
          else icmpd_v4 m pad garbage fd4 rset s)"

text \<open>The table of clients is a global array, which starts out as zeros. The loop that is to mark its
  entries free runs over copies of them.\<close>

definition icmpd_start :: "int \<Rightarrow> int set \<Rightarrow> icmpd" where
  "icmpd_start maxfd allset = \<lparr>i_client = replicate FD_SETSIZE \<lparr>c_connfd = 0, c_family = 0, c_lport = 0\<rparr>,
     i_maxi = -1, i_maxfd = maxfd, i_allset = allset, i_nready = 0\<rparr>"

definition icmpd_main :: "bool \<Rightarrow> (nat \<Rightarrow> byte) \<Rightarrow> byte list \<Rightarrow> byte list list \<Rightarrow> (world, int) prog" where
  "icmpd_main m pad garbage argv =
     (if length argv \<noteq> 1 then err_quit ''usage : icmpd''
      else andThen (Socket AF_INET SOCK_RAW (int IPPROTO_ICMP)) (\<lambda>fd4.
        andThen (fd_set fd4 {}) (\<lambda>allset.
        andThen (Socket AF_UNIX SOCK_STREAM 0) (\<lambda>listenfd.
        seq (sys (C_lib ''unlink'' [] ICMPD_PATH))
       (seq (Bind listenfd (Sun ICMPD_PATH))
       (seq (Listen listenfd LISTENQ)
       (andThen (fd_set listenfd allset) (\<lambda>allset.
          forever (icmpd_round m pad garbage fd4 listenfd) (icmpd_start (max fd4 listenfd) allset)))))))))"

section \<open>The client\<close>

definition ICMPD_ERR_SIZE :: nat where "ICMPD_ERR_SIZE = 144"

definition ss_line :: "int \<Rightarrow> int \<Rightarrow> sockaddr \<Rightarrow> byte list \<Rightarrow> (world, unit) prog" where
  "ss_line sockfd icmpfd servaddr sendline = seq (Sendto sockfd sendline 0 servaddr)
     (andThen (Select {sockfd, icmpfd} {} {} (Some 5000000)) (\<lambda>(n, rset, _).
       if n = 0 then complain ''socket timeout''
       else seq (only_if (sockfd \<in> rset) (andThen (Recvfrom sockfd MAXLINE 0) (\<lambda>(recvline, _). Fputs recvline)))
         (only_if (icmpfd \<in> rset) (andThen (Read icmpfd ICMPD_ERR_SIZE) (\<lambda>err.
           if err = [] then err_quit ''ICMP daemon terminated''
           else if length err \<noteq> ICMPD_ERR_SIZE then err_quit ''n=%d, expected %d''
           else seq (Sock_ntop False (\<lambda>_. []) (Sin (half_at 18 err) (addr4 (drop 20 err))) 16)
             (print ''IMCP error:dest =%s, %s, type=%d, code=%d''
               [sint (byte_at 4 err), sint (byte_at 5 err)]))))))"

definition ss :: "bool \<Rightarrow> int \<Rightarrow> sockaddr \<Rightarrow> (world, unit) prog" where
  "ss m sockfd servaddr = seq (Sock_bind_wild False sockfd (sa_family servaddr))
     (andThen (Socket AF_UNIX SOCK_STREAM 0) (\<lambda>icmpfd.
     seq (Connect icmpfd (Sun ICMPD_PATH))
    (seq (Write_fd m icmpfd (lit ''1'') sockfd)
    (andThen (Read icmpfd 1) (\<lambda>recvline.
       if recvline \<noteq> lit ''1'' then err_quit ''error creating icmp socket , n= %d , char = %c''
       else each_line (ss_line sockfd icmpfd servaddr))))))"

section \<open>The daemon serves nobody\<close>

text \<open>Events that neither read from a client nor write to one.\<close>

fun deaf :: "event \<Rightarrow> bool" where
  "deaf (Did (C_write fd bs) r) = False"
| "deaf (Did (C_recvmsg fd n flags) r) = False"
| "deaf (Did (C_read fd n) r) = False"
| "deaf ev = True"

definition hush :: "world \<Rightarrow> bool" where
  "hush w \<longleftrightarrow> list_all deaf (trace w)"

lemma deaf_log [simp]: "is_log ev \<Longrightarrow> deaf ev"
  by (cases ev) simp_all

text \<open>No entry of the table is free, and none is looked at.\<close>

definition inert :: "icmpd \<Rightarrow> bool" where
  "inert s \<longleftrightarrow> free_slot (i_client s) = None \<and> i_maxi s = -1"

lemma inert_counted [simp]: "inert (counted s) = inert s" "inert (s\<lparr>i_nready := n\<rparr>) = inert s"
  by (simp_all add: inert_def counted_def)

lemma readable_listen_wp:
  assumes "inert s" and "hush w"
  shows "wp (readable_listen l s) (\<lambda>s v. inert s \<and> hush v) (\<lambda>_. hush) w"
  unfolding readable_listen_def
  by (intro wp_intros)
    (use assms in \<open>auto simp: hush_def inert_def counted_def list_all_iff refused_def\<close>)

lemma readable_v4_wp:
  assumes "i_maxi s \<le> 0" and "hush w"
  shows "wp (readable_v4 pad garbage fd4 s) (\<lambda>t v. i_client t = i_client s \<and> i_maxi t = i_maxi s \<and> hush v) (\<lambda>_. hush) w"
proof -
  have "nat (i_maxi s) = 0" using assms(1) by simp
  then show ?thesis
    unfolding readable_v4_def Let_def Sock_ntop_host_def
    by (simp only: take_0 notify_clients.simps, intro wp_intros)
      (use assms in \<open>auto simp: hush_def counted_def\<close>)
qed

lemma inert_maxi: "inert s \<Longrightarrow> i_maxi s \<le> 0"
  by (simp add: inert_def)

lemma inert_keeps: "inert s \<Longrightarrow> i_client t = i_client s \<Longrightarrow> i_maxi t = i_maxi s \<Longrightarrow> inert t"
  by (simp add: inert_def)

lemma icmpd_conns_wp: "inert s \<Longrightarrow> hush w \<Longrightarrow> wp (icmpd_conns m rset s) (\<lambda>s v. inert s \<and> hush v) (\<lambda>_. hush) w"
  by (simp add: icmpd_conns_def inert_def wp_def)

lemma icmpd_v4_wp:
  "inert s \<Longrightarrow> hush w \<Longrightarrow> wp (icmpd_v4 m pad garbage fd4 rset s) (\<lambda>s v. inert s \<and> hush v) (\<lambda>_. hush) w"
  unfolding icmpd_v4_def
  by (intro wp_cases(1) wp_andThen wp_mono [OF readable_v4_wp])
    (auto intro!: wp_cases(1) wp_ret icmpd_conns_wp intro: inert_keeps simp: inert_maxi)

lemma icmpd_round_wp:
  assumes "inert s" and "hush w"
  shows "wp (icmpd_round m pad garbage fd4 l s) (\<lambda>s v. inert s \<and> hush v) (\<lambda>_. hush) w"
  unfolding icmpd_round_def Let_def
proof (rule wp_andThen, rule select_w.wp_call)
  fix r
  have "hush (took (C_select (upto_fd (i_maxfd s) (i_allset s)) {} {} None) r w)" using assms(2) by (simp add: hush_def)
  then show "wp (case (ready_count (upto_fd (i_maxfd s) (i_allset s)) {} r, upto_fd (i_maxfd s) (i_allset s) \<inter> r_rd r, {} \<inter> r_wr r) of
      (nready, rset, _) \<Rightarrow>
        if l \<in> rset then andThen (readable_listen l (s\<lparr>i_nready := nready\<rparr>)) (\<lambda>s.
            if i_nready s \<le> 0 then ret s else icmpd_v4 m pad garbage fd4 rset s)
        else icmpd_v4 m pad garbage fd4 rset (s\<lparr>i_nready := nready\<rparr>))
      (\<lambda>s v. inert s \<and> hush v) (\<lambda>_. hush) (took (C_select (upto_fd (i_maxfd s) (i_allset s)) {} {} None) r w)"
    using assms(1)
    by (auto intro!: wp_cases(1) wp_andThen wp_mono [OF readable_listen_wp] wp_ret icmpd_v4_wp)
qed (use assms in \<open>simp_all add: hush_def\<close>)

lemma lawful_icmpd_round: "eats always (icmpd_round m pad garbage fd4 l s)"
proof -
  have "lawful (notify_clients cs sport err)" for cs sport err
    by (induction cs) (auto intro!: lawful_intros)
  then have v4: "lawful (readable_v4 pad garbage fd4 s)" for s
    unfolding readable_v4_def Let_def by (auto intro!: lawful_intros)
  have listen: "lawful (readable_listen l s)" for s
    unfolding readable_listen_def by (auto intro!: lawful_intros)
  have conn: "lawful (readable_conn m i s)" for i s
    unfolding readable_conn_def Let_def clienterr_def clientdone_def sock_bind_wild_def
    by (auto intro!: lawful_intros)
  have "lawful (serve_slots m rset is s)" for rset "is" s
    by (induction "is" arbitrary: s) (auto simp: Let_def intro!: lawful_intros conn)
  then show ?thesis
    unfolding icmpd_round_def icmpd_v4_def icmpd_conns_def Let_def
    by (intro eats_first eats_intros) (auto intro!: lawful_intros v4 listen)
qed

lemma icmpd_main_wp:
  assumes "trace w = []"
  shows "wp (icmpd_main m pad garbage argv) (\<lambda>_ _. False) (\<lambda>_. hush) w"
proof -
  have free: "free_slot (replicate n \<lparr>c_connfd = 0, c_family = 0, c_lport = 0\<rparr>) = None" for n
    by (induction n) simp_all
  have run: "wp (forever (icmpd_round m pad garbage fd4 l) (icmpd_start mfd S)) (\<lambda>(_ :: int) _. False) (\<lambda>_. hush) v"
    if "hush v" for fd4 l mfd S v
  proof (rule forever_wp [where I = "\<lambda>s v. inert s \<and> hush v"])
    show "inert (icmpd_start mfd S) \<and> hush v" using that free by (simp add: inert_def icmpd_start_def)
  qed (use lawful_icmpd_round icmpd_round_wp in auto)
  show ?thesis
    unfolding icmpd_main_def Listen_def Let_def fd_set_def
    by (intro wp_intros run) (use assms in \<open>auto simp: hush_def\<close>)
qed

text \<open>(C30) The daemon never serves anybody: since its table of clients starts out with every entry
  taken by descriptor 0, it closes each connection it accepts and, in every run, never reads a request
  from a client and never reports an error to one.\<close>

theorem icmpd_serves_nobody:
  assumes "icmpd_main m pad garbage argv w = (res, w')" and "trace w = []"
  shows "isl res \<and> list_all deaf (trace w')"
  using icmpd_main_wp [OF assms(2), of m pad garbage argv] assms(1)
  by (cases res) (auto simp: wp_def hush_def)

text \<open>A run: a client connects.\<close>

definition icmpd_example :: "resp list" where
  "icmpd_example = [ok 3, ok 4, ok 0, ok 0, ok 0, ok 0, no_resp\<lparr>r_rd := {4}\<rparr>, ok 7, ok 0]"

lemma icmpd_round_apply: "icmpd_round m pad garbage fd4 listenfd s w =
  andThen (Select (upto_fd (i_maxfd s) (i_allset s)) {} {} None) (\<lambda>(nready, rset, _).
       let s = s\<lparr>i_nready := nready\<rparr>
       in if listenfd \<in> rset then andThen (readable_listen listenfd s) (\<lambda>s.
            if i_nready s \<le> 0 then ret s else icmpd_v4 m pad garbage fd4 rset s)
          else icmpd_v4 m pad garbage fd4 rset s) w"
  by (simp add: icmpd_round_def)

theorem icmpd_serves_nobody_witness:
  "\<exists>w'. icmpd_main True (\<lambda>_. 0) [] [lit ''icmpd''] (start icmpd_example) = (Inl Blocked, w') \<and>
     fresh_accepts {3, 4} (trace w') \<and> conns (trace w') = {} \<and> list_all deaf (trace w')"
proof -
  have n: "int FD_SETSIZE = 1024" by (simp add: FD_SETSIZE_def)
  have free: "free_slot (replicate n \<lparr>c_connfd = 0, c_family = 0, c_lport = 0\<rparr>) = None" for n
    by (induction n) simp_all
  have "\<exists>w'. icmpd_main True (\<lambda>_. 0) [] [lit ''icmpd''] (start icmpd_example) = (Inl Blocked, w') \<and>
      fresh_accepts {3, 4} (trace w') \<and> conns (trace w') = {}"
    by (simp add: icmpd_main_def Socket_def Bind_def Listen_def Let_def fd_set_def n andThen_apply sys_apply
        icmpd_example_def forever_unfold [OF lawful_icmpd_round] icmpd_round_apply Select_def icmpd_start_def
        readable_listen_def free Accept_def accept_w.loop_unfold accept_round_apply ready_count_def counted_def
        along_def conns_def)
  then obtain w' where "icmpd_main True (\<lambda>_. 0) [] [lit ''icmpd''] (start icmpd_example) = (Inl Blocked, w')"
    "fresh_accepts {3, 4} (trace w')" "conns (trace w') = {}" by blast
  with icmpd_serves_nobody [of True "\<lambda>_. 0" "[]" "[lit ''icmpd'']" "start icmpd_example"] show ?thesis by simp
qed

text \<open>Even with a client in the table, the one in the last entry in use is never told of an error,
  as the loop over the clients stops before it: with a single client nothing is ever written.\<close>

theorem icmpd_ignores_last_client:
  assumes "readable_v4 pad garbage fd4 s w = (res, w')" and "i_maxi s = 0" and "trace w = []"
  shows "list_all deaf (trace w')"
  using readable_v4_wp [of s w pad garbage fd4] assms by (cases res) (auto simp: wp_def hush_def)

text \<open>A client on descriptor 7 that has given us a socket bound to port 7, and the error for it.\<close>

definition icmpd_one :: icmpd where
  "icmpd_one = \<lparr>i_client = [\<lparr>c_connfd = 7, c_family = AF_INET, c_lport = uint (htons 7)\<rparr>], i_maxi = 0,
     i_maxfd = 7, i_allset = {3, 4, 7}, i_nready = 1\<rparr>"

definition icmp_unreach :: "byte list" where
  "icmp_unreach = [0x45] @ replicate 19 0 @ [3, 3] @ replicate 6 0 @ [0x45] @ replicate 8 0 @ [17] @
     replicate 10 0 @ [0, 7, 0, 9, 0, 0, 0, 0]"

theorem icmpd_ignores_last_client_witness:
  "list_all deaf (trace (snd (readable_v4 (\<lambda>_. 0) [] 3 icmpd_one (start [gives icmp_unreach, ok 1, ok 1]))))"
proof -
  obtain res w' where run: "readable_v4 (\<lambda>_. 0) [] 3 icmpd_one (start [gives icmp_unreach, ok 1, ok 1]) = (res, w')"
    by fastforce
  from icmpd_ignores_last_client [OF run] run show ?thesis by (simp add: icmpd_one_def)
qed

end
