(* ===== verification/Oob.thy ===== *)
theory Oob
  imports Tcp_Programs
begin

text \<open>
  \<open>oob/\<close>: programs that send and receive out-of-band data (\<open>tcpsend01\<close> to \<open>tcpsend04\<close>, \<open>tcprecv01\<close>
  to \<open>tcprecv05\<close>), and the echo client and server with a heartbeat of out-of-band bytes. The handlers
  of \<open>SIGURG\<close> and \<open>SIGALRM\<close> are programs of their own; in the heartbeat they share the counter of
  probes without an answer, so the two programs are also given as sequences of signals.
\<close>

section \<open>Sending\<close>

definition MSG_OOB :: int where "MSG_OOB = 1"

definition SO_SNDBUF :: int where "SO_SNDBUF = 7"
definition SO_RCVBUF :: int where "SO_RCVBUF = 8"

definition sleep_for :: "int \<Rightarrow> (world, unit) prog" where
  "sleep_for n = seq (sys (C_lib ''sleep'' [n] [])) (ret ())"

definition write_say :: "int \<Rightarrow> byte list \<Rightarrow> string \<Rightarrow> (world, unit) prog" where
  "write_say fd bs msg = seq (Write fd bs) (print msg [])"

definition send_say :: "int \<Rightarrow> byte list \<Rightarrow> string \<Rightarrow> (world, unit) prog" where
  "send_say fd bs msg = seq (Send fd bs MSG_OOB) (print msg [])"

definition tcpsend :: "string \<Rightarrow> byte list list \<Rightarrow> (int \<Rightarrow> (world, unit) prog) \<Rightarrow> (world, int) prog" where
  "tcpsend usage argv body =
     (if length argv \<noteq> 3 then err_quit usage
      else andThen (Tcp_connect (argv ! 1) (argv ! 2)) (\<lambda>sockfd. seq (body sockfd) (ret 0)))"

definition tcpsend01_main :: "byte list list \<Rightarrow> (world, int) prog" where
  "tcpsend01_main argv = tcpsend ''usage: tcpsend01 <host> <port#>'' argv (\<lambda>fd.
     seq (write_say fd (lit ''123'') ''wrote 3 bytes of normal data'') (seq (sleep_for 1)
    (seq (send_say fd (lit ''4'') ''wrote 1 byte of OOB data'') (seq (sleep_for 1)
    (seq (write_say fd (lit ''56'') ''wrote 2 bytes of normal data'') (seq (sleep_for 1)
    (seq (send_say fd (lit ''7'') ''wrote 1 byte of OOB data'') (seq (sleep_for 1)
    (seq (write_say fd (lit ''89'') ''wrote 2 bytes of normal data'') (sleep_for 1))))))))))"

definition tcpsend02_main :: "byte list list \<Rightarrow> (world, int) prog" where
  "tcpsend02_main argv = tcpsend ''usage: tcpsend02 <host> <port#>'' argv (\<lambda>fd.
     seq (write_say fd (lit ''123'') ''wrote 3 bytes of normal data'')
    (seq (send_say fd (lit ''4'') ''wrote 1 byte of OOB data'')
         (write_say fd (lit ''5'') ''wrote 1 bytes of normal data'')))"

text \<open>\<open>buff\<close> is an array of 16384 bytes that is not initialised.\<close>

definition tcpsend03_main :: "(nat \<Rightarrow> byte) \<Rightarrow> byte list list \<Rightarrow> (world, int) prog" where
  "tcpsend03_main buff argv = tcpsend ''usage: tcpsend03 <host> <port#>'' argv (\<lambda>fd.
     seq (Setsockopt fd SOL_SOCKET SO_SNDBUF [32768])
    (seq (write_say fd (map buff [0..<16384]) ''wrote 16384 bytes of normal data'') (seq (sleep_for 5)
    (seq (send_say fd (lit ''a'') ''wrote 1 byte of OOB data'')
         (write_say fd (map buff [0..<1024]) ''wrote 1024 bytes of normal data'')))))"

definition tcpsend04_main :: "byte list list \<Rightarrow> (world, int) prog" where
  "tcpsend04_main argv = tcpsend ''usage: tcpsend02 <host> <port#>'' argv (\<lambda>fd.
     seq (write_say fd (lit ''123'') ''wrote 3 bytes of normal data'')
    (seq (send_say fd (lit ''4'') ''wrote 1 byte of OOB data'')
    (seq (write_say fd (lit ''5'') ''wrote 1 bytes of normal data'')
    (seq (send_say fd (lit ''6'') ''wrote 1 byte of OOB data'')
         (write_say fd (lit ''7'') ''wrote 1 bytes of normal data'')))))"

section \<open>Receiving\<close>

text \<open>The listening socket, as all five programs open it; \<open>accept\<close> without an address.\<close>

definition tcprecv_listen :: "string \<Rightarrow> byte list list \<Rightarrow> (world, int) prog" where
  "tcprecv_listen usage argv =
     andThen (if length argv = 2 then Tcp_listen None (argv ! 1)
        else if length argv = 3 then Tcp_listen (Some (argv ! 1)) (argv ! 2)
        else err_quit usage) (\<lambda>(listenfd, _). ret listenfd)"

definition sig_urg_recv :: "nat \<Rightarrow> int \<Rightarrow> (world, unit) prog" where
  "sig_urg_recv len connfd = seq (print ''SIGURG received'' []) (andThen (Recv connfd (len - 1) MSG_OOB) (\<lambda>buff.
     print ''read %d OOB bytes:%s'' (int (length buff) # map uint (cstr buff))))"

text \<open>Data is read up to its end and shown; \<open>Inr\<close> when it is over.\<close>

definition show_data :: "string \<Rightarrow> int \<Rightarrow> (world, unit + unit) prog" where
  "show_data fmt connfd = andThen (Read connfd 99) (\<lambda>buff.
     if buff = [] then seq (print ''received EOF'' []) (leave ())
     else seq (print fmt (int (length buff) # map uint (cstr buff))) (again ()))"

definition SIGURG :: int where "SIGURG = 23"
definition F_SETOWN :: int where "F_SETOWN = 8"
definition SO_OOBINLINE :: int where "SO_OOBINLINE = 10"

definition own_signals :: "int \<Rightarrow> (world, unit) prog" where
  "own_signals fd = andThen (sys_int (C_lib ''getpid'' [] [])) (\<lambda>pid. seq (Fcntl fd F_SETOWN pid) (ret ()))"

definition tcprecv01_main :: "byte list list \<Rightarrow> (world, int) prog" where
  "tcprecv01_main argv = andThen (tcprecv_listen ''usage: tcprecv01 [<host> ] <port#>'' argv) (\<lambda>listenfd.
     andThen (Accept listenfd) (\<lambda>(connfd, _). seq (Signal SIGURG 1) (seq (own_signals connfd)
    (seq (loop (\<lambda>_. show_data ''read %d bytes : %s'' connfd) ()) (ret 0)))))"

text \<open>\<open>tcprecv02\<close> waits for an exceptional condition and for data; \<open>select\<close> reports the exceptional
  conditions among the descriptors that are ready to write in a response (it is given none of these).\<close>

definition show_oob :: "int \<Rightarrow> (world, unit) prog" where
  "show_oob connfd = andThen (Recv connfd 99 MSG_OOB) (\<lambda>buff.
     print ''read %d OOB byte :%s'' (int (length buff) # map uint (cstr buff)))"

definition Select_except :: "int set \<Rightarrow> int set \<Rightarrow> (world, int set \<times> int set) prog" where
  "Select_except rd ex = andThen (sys (C_select rd {} ex None)) (\<lambda>r.
     if ready_count rd ex r < 0 then err_sys ''select error'' else ret (rd \<inter> r_rd r, ex \<inter> r_wr r))"

definition tcprecv02_round :: "int \<Rightarrow> unit \<Rightarrow> (world, unit + unit) prog" where
  "tcprecv02_round connfd _ = andThen (Select_except {connfd} {connfd}) (\<lambda>(rset, xset).
     seq (only_if (connfd \<in> xset) (show_oob connfd))
    (if connfd \<in> rset then show_data ''read %d bytes:%s'' connfd else again ()))"

definition tcprecv02_main :: "byte list list \<Rightarrow> (world, int) prog" where
  "tcprecv02_main argv = andThen (tcprecv_listen ''usage: tcprecv02 [<host> ] <port#>'' argv) (\<lambda>listenfd.
     andThen (Accept listenfd) (\<lambda>(connfd, _). seq (loop (tcprecv02_round connfd) ()) (ret 0)))"

text \<open>\<open>tcprecv03\<close> does not wait for an exceptional condition again before it has read normal data:
  \<open>justreadoob\<close>, with \<open>xset\<close> as \<open>select\<close> left it.\<close>

definition tcprecv03_round :: "int \<Rightarrow> bool \<times> int set \<Rightarrow> (world, bool \<times> int set + unit) prog" where
  "tcprecv03_round connfd = (\<lambda>(justreadoob, xset).
     andThen (Select_except {connfd} (if justreadoob then xset else insert connfd xset)) (\<lambda>(rset, xset).
     andThen (if connfd \<in> xset then seq (show_oob connfd) (ret (True, xset - {connfd}))
              else ret (justreadoob, xset)) (\<lambda>(justreadoob, xset).
       if connfd \<in> rset then andThen (show_data ''read %d bytes:%s'' connfd) (\<lambda>z. case z of
           Inl _ \<Rightarrow> again (False, xset) | Inr _ \<Rightarrow> leave ())
       else again (justreadoob, xset))))"

definition tcprecv03_main :: "byte list list \<Rightarrow> (world, int) prog" where
  "tcprecv03_main argv = andThen (tcprecv_listen ''usage: tcprecv02 [<host> ] <port#>'' argv) (\<lambda>listenfd.
     andThen (Accept listenfd) (\<lambda>(connfd, _). seq (loop (tcprecv03_round connfd) (False, {})) (ret 0)))"

definition tcprecv04_round :: "int \<Rightarrow> unit \<Rightarrow> (world, unit + unit) prog" where
  "tcprecv04_round connfd _ = andThen (Sockatmark connfd) (\<lambda>n.
     seq (only_if (n \<noteq> 0) (print ''ao OOB mark'' [])) (show_data ''read %d bytes:%s'' connfd))"

definition tcprecv04_main :: "byte list list \<Rightarrow> (world, int) prog" where
  "tcprecv04_main argv = andThen (tcprecv_listen ''usage: tcprecv02 [<host> ] <port#>'' argv) (\<lambda>listenfd.
     seq (Setsockopt listenfd SOL_SOCKET SO_OOBINLINE [1])
    (andThen (Accept listenfd) (\<lambda>(connfd, _). seq (sleep_for 5)
    (seq (loop (tcprecv04_round connfd) ()) (ret 0)))))"

definition idle_round :: "unit \<Rightarrow> (world, unit) prog" where
  "idle_round _ = seq (sys (C_lib ''pause'' [] [])) (ret ())"

definition tcprecv05_main :: "byte list list \<Rightarrow> (world, int) prog" where
  "tcprecv05_main argv = andThen (tcprecv_listen ''usage: tcprecv01 [<host> ] <port#>'' argv) (\<lambda>listenfd.
     seq (Setsockopt listenfd SOL_SOCKET SO_RCVBUF [4096])
    (andThen (Accept listenfd) (\<lambda>(connfd, _). seq (Signal SIGURG 1) (seq (own_signals connfd)
       (forever idle_round ())))))"

section \<open>The heartbeat\<close>

text \<open>The static variables of the client and of the server, and what their handlers do. \<open>c\<close> is not
  initialised, and is what the server sends back when \<open>recv\<close> fails with \<open>EWOULDBLOCK\<close>.\<close>

record heart =
  h_servfd :: int
  h_nsec :: int
  h_max :: int
  h_nprobes :: int

definition heartbeat_start :: "int \<Rightarrow> int \<Rightarrow> int \<Rightarrow> heart" where
  "heartbeat_start fd nsec_arg max_arg =
     (let nsec = (if nsec_arg < 1 then 1 else nsec_arg)
      in \<lparr>h_servfd = fd, h_nsec = nsec, h_max = (if max_arg < nsec then nsec else max_arg), h_nprobes = 0\<rparr>)"

definition cli_sig_urg :: "heart \<Rightarrow> (world, heart) prog" where
  "cli_sig_urg h = andThen (sys_recv (h_servfd h) 1 MSG_OOB) (\<lambda>(n, _). andThen get_errno (\<lambda>errno.
     seq (only_if (n < 0 \<and> errno \<noteq> EWOULDBLOCK) (err_sys ''recv error''))
         (ret (h\<lparr>h_nprobes := 0\<rparr>))))"

definition cli_sig_alrm :: "heart \<Rightarrow> (world, heart) prog" where
  "cli_sig_alrm h = (let h = h\<lparr>h_nprobes := h_nprobes h + 1\<rparr> in
     if h_max h < h_nprobes h then seq (complain ''server is unreachable'') exit0
     else seq (Send (h_servfd h) (lit ''1'') MSG_OOB) (seq (sys (C_alarm (h_nsec h))) (ret h)))"

definition serv_sig_urg :: "byte \<Rightarrow> heart \<Rightarrow> (world, heart) prog" where
  "serv_sig_urg c h = andThen (sys_recv (h_servfd h) 1 MSG_OOB) (\<lambda>(n, bs). andThen get_errno (\<lambda>errno.
     seq (only_if (n < 0 \<and> errno \<noteq> EWOULDBLOCK) (err_sys ''recv error''))
    (seq (Send (h_servfd h) (if bs = [] then [c] else bs) MSG_OOB)
         (ret (h\<lparr>h_nprobes := 0\<rparr>)))))"

definition serv_sig_alrm :: "heart \<Rightarrow> (world, heart) prog" where
  "serv_sig_alrm h = (let h = h\<lparr>h_nprobes := h_nprobes h + 1\<rparr> in
     if h_max h < h_nprobes h then seq (complain ''no probes from client'') exit0
     else seq (sys (C_alarm (h_nsec h))) (ret h))"

text \<open>\<open>heartbeat_cli\<close> and \<open>heartbeat_serv\<close> install the handlers (1 and 2) and start the alarm.\<close>

definition heartbeat :: "int \<Rightarrow> int \<Rightarrow> int \<Rightarrow> (world, heart) prog" where
  "heartbeat fd nsec_arg max_arg = (let h = heartbeat_start fd nsec_arg max_arg in
     seq (Signal SIGURG 1) (seq (own_signals fd) (seq (Signal SIGALRM 2)
    (seq (sys (C_alarm (h_nsec h))) (ret h)))))"

text \<open>The client's loop: a \<open>select\<close> that a handler has interrupted is repeated; after another error the
  loop goes on with the sets as they were.\<close>

definition hb_cli_round ::
  "int \<Rightarrow> int \<Rightarrow> bool \<times> int set \<times> rl \<Rightarrow> (world, bool \<times> int set \<times> rl + unit) prog" where
  "hb_cli_round fp sockfd = (\<lambda>(stdineof, rset, s).
     let rset = insert sockfd (if stdineof then rset else insert fp rset) in
     andThen (sys_select rset {} {} None) (\<lambda>(n, rset, _). andThen get_errno (\<lambda>errno.
       if n = -1 \<and> errno = EINTR then again (stdineof, rset, s)
       else seq (only_if (n = -1) (err_ret ''select error''))
        (andThen (if sockfd \<in> rset then
             andThen (Readline sockfd MAXLINE s) (\<lambda>(n, recvline, s).
               if n = 0 then (if stdineof then ret (None, s) else err_quit ''str_cli: server terminated prematurely'')
               else seq (Writen STDOUT (cstr recvline)) (ret (Some (), s)))
           else ret (Some (), s)) (\<lambda>(go, s).
         if go = None then leave ()
         else if fp \<in> rset then
           andThen (Fgets MAXLINE) (\<lambda>sendline. case sendline of
               None \<Rightarrow> seq (sys (C_alarm 0)) (seq (Shutdown sockfd SHUT_WR) (again (True, rset - {fp}, s)))
             | Some l \<Rightarrow> seq (Writen sockfd (cstr l)) (again (stdineof, rset, s)))
         else again (stdineof, rset, s))))))"

definition hb_str_cli :: "int \<Rightarrow> int \<Rightarrow> rl \<Rightarrow> (world, unit) prog" where
  "hb_str_cli fp sockfd s = seq (heartbeat sockfd 1 5) (loop (hb_cli_round fp sockfd) (False, {}, s))"

definition hb_client_main :: "rl \<Rightarrow> (world, int) prog" where
  "hb_client_main s = andThen (Socket AF_INET SOCK_STREAM 0) (\<lambda>sockfd.
     andThen (Inet_pton AF_INET (lit ''127.0.0.1'')) (\<lambda>addr.
     seq (Connect sockfd (Sin (htons 1234) (addr4 addr)))
    (seq (hb_str_cli 0 sockfd s) (ret 0))))"

text \<open>\<open>heartbeat_serv\<close> leaves \<open>nprobes\<close> alone, which is 0 in the child that serves a connection.\<close>

definition heartbeat_serv :: "int \<Rightarrow> int \<Rightarrow> int \<Rightarrow> (world, heart) prog" where
  "heartbeat_serv fd nsec_arg maxnalarms_arg = heartbeat fd nsec_arg maxnalarms_arg"

definition hb_str_echo :: "int \<Rightarrow> (world, unit) prog" where
  "hb_str_echo sockfd = seq (heartbeat_serv sockfd 1 5) (str_echo sockfd)"

definition hb_server_round :: "int \<Rightarrow> unit \<Rightarrow> (world, unit) prog" where
  "hb_server_round listenfd _ = andThen (sys_int (C_accept listenfd)) (\<lambda>connfd. andThen get_errno (\<lambda>errno.
     if connfd < 0 then (if errno = EINTR then ret () else err_sys ''accept error'')
     else andThen Fork (\<lambda>childpid.
       if childpid = 0 then seq (Close listenfd) (seq (hb_str_echo connfd) exit0) else Close connfd)))"

definition hb_server_main :: "(world, int) prog" where
  "hb_server_main = andThen (Socket AF_INET SOCK_STREAM 0) (\<lambda>listenfd.
     seq (Bind listenfd (Sin (htons 1234) (htonl INADDR_ANY)))
    (seq (Listen listenfd 100) (seq (Signal SIGCHLD 1) (forever (hb_server_round listenfd) ()))))"

section \<open>The loops make progress\<close>

lemma lawful_show [lawful_intros]: "lawful (show_data fmt fd)" "lawful (show_oob fd)" "lawful (Select_except rd ex)"
  unfolding show_data_def show_oob_def Select_except_def by (auto intro!: lawful_intros)

lemma eats_show [eats_intros]: "eats P (show_data fmt fd)" "eats Q (Select_except rd ex)"
  unfolding show_data_def Select_except_def by (intro eats_first eats_intros; auto intro!: lawful_intros)+

interpretation tcprecv02: consuming "tcprecv02_round fd" for fd
  by unfold_locales (auto simp: tcprecv02_round_def intro!: eats_first eats_intros lawful_intros)

interpretation tcprecv03: consuming "tcprecv03_round fd" for fd
  by unfold_locales (auto simp: tcprecv03_round_def intro!: eats_first eats_intros lawful_intros split: sum.split)

interpretation tcprecv04: consuming "tcprecv04_round fd" for fd
  by unfold_locales (auto simp: tcprecv04_round_def intro!: eats_first eats_intros lawful_intros)

interpretation hb_cli: consuming "hb_cli_round fp fd" for fp fd
  by unfold_locales (auto simp: hb_cli_round_def Let_def intro!: eats_first eats_intros lawful_intros split: option.split)

section \<open>What the heartbeat detects\<close>

text \<open>A program between its signals: the handlers run one after the other.\<close>

datatype sg = Urg | Alrm

fun signals :: "(heart \<Rightarrow> (world, heart) prog) \<Rightarrow> (heart \<Rightarrow> (world, heart) prog) \<Rightarrow> sg list \<Rightarrow> heart \<Rightarrow>
    (world, heart) prog" where
  "signals urg alrm [] h = ret h"
| "signals urg alrm (Urg # ss) h = andThen (urg h) (signals urg alrm ss)"
| "signals urg alrm (Alrm # ss) h = andThen (alrm h) (signals urg alrm ss)"

text \<open>More than \<open>m\<close> alarms with no out-of-band byte in between, \<open>k\<close> having passed already.\<close>

fun too_quiet :: "int \<Rightarrow> int \<Rightarrow> sg list \<Rightarrow> bool" where
  "too_quiet m k [] \<longleftrightarrow> False"
| "too_quiet m k (Urg # ss) \<longleftrightarrow> too_quiet m 0 ss"
| "too_quiet m k (Alrm # ss) \<longleftrightarrow> m < k + 1 \<or> too_quiet m (k + 1) ss"

text \<open>The contract of the two handlers of one side: a byte resets the count, an alarm counts up to the
  maximum, and the program is ended by the alarm that exceeds it.\<close>

locale heart_handlers =
  fixes urg alrm :: "heart \<Rightarrow> (world, heart) prog"
  assumes urg_returns: "urg h w = (Inr h', w') \<Longrightarrow> h_nprobes h' = 0 \<and> h_max h' = h_max h"
    and urg_stops: "urg h w \<noteq> (Inl (Exit 0 ''''), w')"
    and alrm_returns: "alrm h w = (Inr h', w') \<Longrightarrow>
      h_nprobes h + 1 \<le> h_max h \<and> h_nprobes h' = h_nprobes h + 1 \<and> h_max h' = h_max h"
    and alrm_stops: "alrm h w = (Inl (Exit 0 ''''), w') \<Longrightarrow> h_max h < h_nprobes h + 1"
begin

lemma ends_when_quiet:
  "signals urg alrm ss h w = (res, w') \<Longrightarrow> too_quiet (h_max h) (h_nprobes h) ss \<Longrightarrow> isl res"
proof (induction ss arbitrary: h w)
  case (Cons s ss)
  show ?case
  proof (cases res)
    case (Inr x)
    show ?thesis
    proof (cases s)
      case Urg
      with Cons.prems Inr obtain h' v where "urg h w = (Inr h', v)" "signals urg alrm ss h' v = (res, w')"
        by (auto simp: andThen_eq_Inr_iff)
      then show ?thesis using Cons.IH [of h' v] Cons.prems(2) urg_returns Urg by simp
    next
      case Alrm
      with Cons.prems Inr obtain h' v where h': "alrm h w = (Inr h', v)" "signals urg alrm ss h' v = (res, w')"
        by (auto simp: andThen_eq_Inr_iff)
      then show ?thesis using Cons.IH [of h' v] Cons.prems(2) alrm_returns [OF h'(1)] Alrm by simp
    qed
  qed simp
qed simp

lemma ends_only_when_quiet:
  "signals urg alrm ss h w = (Inl (Exit 0 ''''), w') \<Longrightarrow> too_quiet (h_max h) (h_nprobes h) ss"
proof (induction ss arbitrary: h w)
  case (Cons s ss)
  show ?case
  proof (cases s)
    case Urg
    with Cons.prems consider "urg h w = (Inl (Exit 0 ''''), w')"
      | h' v where "urg h w = (Inr h', v)" "signals urg alrm ss h' v = (Inl (Exit 0 ''''), w')"
      by (auto simp: andThen_eq_Inl_iff)
    then show ?thesis
      using Cons.IH Urg urg_stops urg_returns by cases (auto, metis)
  next
    case Alrm
    with Cons.prems consider "alrm h w = (Inl (Exit 0 ''''), w')"
      | h' v where "alrm h w = (Inr h', v)" "signals urg alrm ss h' v = (Inl (Exit 0 ''''), w')"
      by (auto simp: andThen_eq_Inl_iff)
    then show ?thesis
      using Cons.IH Alrm alrm_stops alrm_returns by cases (auto, metis)
  qed
qed simp

end

interpretation hb_client: heart_handlers cli_sig_urg cli_sig_alrm
  by unfold_locales
    (auto simp: cli_sig_urg_def cli_sig_alrm_def Let_def andThen_apply sys_recv_def sys_apply only_if_def
      Send_def err_doit_apply exit0_def split: list.splits if_splits)

interpretation hb_server: heart_handlers "serv_sig_urg c" serv_sig_alrm for c
  by unfold_locales
    (auto simp: serv_sig_urg_def serv_sig_alrm_def Let_def andThen_apply sys_recv_def sys_apply only_if_def
      Send_def err_doit_apply exit0_def split: list.splits if_splits)

text \<open>(C33) The heartbeat detects a peer that is gone, and only such a peer: whatever the signals and
  the answers of the kernel, a side that has seen more alarms than its maximum since the last
  out-of-band byte has ended, and it ends by itself (\<open>exit (0)\<close>) only if there was such a silence.\<close>

theorem heartbeat_detects_silence:
  assumes "signals cli_sig_urg cli_sig_alrm ss (heartbeat_start fd nsec m) w = (res, w') \<or>
     signals (serv_sig_urg c) serv_sig_alrm ss (heartbeat_start fd nsec m) w = (res, w')"
  shows "(too_quiet (max m (max nsec 1)) 0 ss \<longrightarrow> isl res) \<and>
    (res = Inl (Exit 0 '''') \<longrightarrow> too_quiet (max m (max nsec 1)) 0 ss)"
proof -
  have "h_max (heartbeat_start fd nsec m) = max m (max nsec 1)" "h_nprobes (heartbeat_start fd nsec m) = 0"
    by (auto simp: heartbeat_start_def Let_def)
  then show ?thesis
    using assms hb_client.ends_when_quiet hb_client.ends_only_when_quiet hb_server.ends_when_quiet
      hb_server.ends_only_when_quiet by metis
qed

theorem heartbeat_detects_silence_witness:
  "\<exists>w'. signals cli_sig_urg cli_sig_alrm (replicate 6 Alrm) (heartbeat_start 3 1 5)
      (start (concat (replicate 5 [ok 1, ok 0]))) = (Inl (Exit 0 ''''), w') \<and> too_quiet 5 0 (replicate 6 Alrm)"
proof -
  have six: "replicate 6 Alrm = [Alrm, Alrm, Alrm, Alrm, Alrm, Alrm]" by (simp add: numeral_eq_Suc)
  have five: "concat (replicate 5 [ok 1, ok 0]) = [ok 1, ok 0, ok 1, ok 0, ok 1, ok 0, ok 1, ok 0, ok 1, ok 0]"
    by (simp add: numeral_eq_Suc)
  have "\<exists>w'. signals cli_sig_urg cli_sig_alrm (replicate 6 Alrm) (heartbeat_start 3 1 5)
      (start (concat (replicate 5 [ok 1, ok 0]))) = (Inl (Exit 0 ''''), w')"
    by (simp add: six five cli_sig_alrm_def heartbeat_start_def Let_def andThen_apply sys_apply Send_def put_len_def
        exit0_def)
  then obtain w' where run: "signals cli_sig_urg cli_sig_alrm (replicate 6 Alrm) (heartbeat_start 3 1 5)
      (start (concat (replicate 5 [ok 1, ok 0]))) = (Inl (Exit 0 ''''), w')" by blast
  from heartbeat_detects_silence [of "replicate 6 Alrm" 3 1 5 _ _ w' 0] run show ?thesis by auto
qed

end
