(* ===== verification/Web_Client.thy ===== *)
theory Web_Client
  imports Echo_Select
begin

text \<open>
  \<open>nonblock/webclient\<close>: a client that fetches the home page of a host on a blocking connection and
  then the files named on the command line on several non-blocking connections at once. The global
  variables are the record \<open>web\<close>; each file is an entry of \<open>w_files\<close> whose flags say how far it has
  come: 0 (not started), \<open>F_CONNECTING\<close>, \<open>F_READING\<close>, \<open>F_DONE\<close>.
\<close>

section \<open>The program\<close>

definition F_CONNECTING :: int where "F_CONNECTING = 1"
definition F_READING :: int where "F_READING = 2"
definition F_DONE :: int where "F_DONE = 4"
definition MAXFILES :: nat where "MAXFILES = 20"

record wfile =
  f_name :: "byte list"
  f_host :: "byte list"
  f_fd :: int
  f_flags :: int

record web =
  w_files :: "wfile list"
  w_nconn :: int
  w_nlefttoconn :: int
  w_nlefttoread :: int
  w_maxfd :: int
  w_rset :: "int set"
  w_wset :: "int set"

definition get_cmd :: "byte list \<Rightarrow> byte list" where
  "get_cmd fname = lit ''GET '' @ fname @ lit '' HTTP/1.0'' @ [13, 10, 13, 10]"

text \<open>\<open>snprintf\<close> leaves at most \<open>MAXLINE - 1\<close> bytes of the command and a null byte in \<open>line\<close>, but
  returns the length of the whole command, and that many bytes are written.\<close>

definition cmd_line :: "byte list \<Rightarrow> byte list" where
  "cmd_line cmd = take (length cmd) (take (MAXLINE - 1) cmd @ [NUL])"

definition write_cmd :: "int \<Rightarrow> byte list \<Rightarrow> (world, unit) prog" where
  "write_cmd fd cmd =
     (if length cmd \<le> MAXLINE then Writen fd (cmd_line cmd) else halt (Undef ''Writen: line''))"

definition write_get_cmd :: "nat \<Rightarrow> web \<Rightarrow> (world, web) prog" where
  "write_get_cmd i s = (let fptr = w_files s ! i; cmd = get_cmd (f_name fptr) in
     seq (write_cmd (f_fd fptr) cmd)
    (seq (print ''wrote a%d bytes for %s'' (int (length cmd) # map uint (f_name fptr)))
    (andThen (fd_set (f_fd fptr) (w_rset s)) (\<lambda>rset.
       ret (s\<lparr>w_files := (w_files s)[i := fptr\<lparr>f_flags := F_READING\<rparr>],
              w_rset := rset, w_maxfd := max (f_fd fptr) (w_maxfd s)\<rparr>)))))"

definition start_connect :: "nat \<Rightarrow> web \<Rightarrow> (world, web) prog" where
  "start_connect i s =
     andThen (Host_serv (Some (f_host (w_files s ! i))) (Some (lit ''80'')) 0 SOCK_STREAM) (\<lambda>ai. case ai of
       [] \<Rightarrow> halt (Undef ''ai'')
     | (family, socktype, protocol, addr) # _ \<Rightarrow>
         andThen (Socket family socktype protocol) (\<lambda>fd.
         let fptr = (w_files s ! i)\<lparr>f_fd := fd\<rparr>; s = s\<lparr>w_files := (w_files s)[i := fptr]\<rparr> in
         seq (print ''start connect for %s, fd %d'' (map uint (f_name fptr) @ [fd]))
        (andThen (Fcntl fd F_GETFL 0) (\<lambda>flags.
         seq (Fcntl fd F_SETFL (flags OR O_NONBLOCK))
        (andThen (sys_int (C_connect fd addr)) (\<lambda>n. andThen get_errno (\<lambda>errno.
           if n < 0 then
             if errno \<noteq> EINPROGRESS then err_sys ''nonblocking connect error''
             else andThen (fd_set fd (w_rset s)) (\<lambda>rset. andThen (fd_set fd (w_wset s)) (\<lambda>wset.
               ret (s\<lparr>w_files := (w_files s)[i := fptr\<lparr>f_flags := F_CONNECTING\<rparr>],
                      w_rset := rset, w_wset := wset, w_maxfd := max fd (w_maxfd s)\<rparr>)))
           else write_get_cmd i s)))))))"

text \<open>The first file that has not been started; as many connections as the maximum allows are begun.\<close>

definition next_file :: "web \<Rightarrow> nat option" where
  "next_file s = List.find (\<lambda>i. f_flags (w_files s ! i) = 0) [0..<length (w_files s)]"

definition connect_round :: "int \<Rightarrow> web \<Rightarrow> (world, web + web) prog" where
  "connect_round maxnconn s =
     (if w_nconn s < maxnconn \<and> 0 < w_nlefttoconn s then
        case next_file s of
          None \<Rightarrow> err_quit ''nlefttoconn = %d but nothing found''
        | Some i \<Rightarrow> andThen (start_connect i s) (\<lambda>s.
            again (s\<lparr>w_nconn := w_nconn s + 1, w_nlefttoconn := w_nlefttoconn s - 1\<rparr>))
      else leave s)"

definition web_connects :: "int \<Rightarrow> web \<Rightarrow> (world, web) prog" where
  "web_connects maxnconn s = loop (connect_round maxnconn) s"

text \<open>What is done for one file after \<open>select\<close>: the connection is established, with an error that is
  only reported; or there is something to read.\<close>

definition scan_file :: "int set \<Rightarrow> int set \<Rightarrow> nat \<Rightarrow> web \<Rightarrow> (world, web) prog" where
  "scan_file rs ws i s = (let fptr = w_files s ! i; flags = f_flags fptr; fd = f_fd fptr in
     if flags = 0 \<or> flags AND F_DONE \<noteq> 0 then ret s
     else if flags AND F_CONNECTING \<noteq> 0 \<and> (fd \<in> rs \<or> fd \<in> ws) then
       andThen (sys (C_getsockopt fd SOL_SOCKET SO_ERROR)) (\<lambda>r.
         seq (only_if (r_val r < 0 \<or> aux r 0 \<noteq> 0) (err_ret ''nonblocking connect failed for %s''))
        (seq (print ''connection established for %s'' (map uint (f_name fptr)))
             (write_get_cmd i (s\<lparr>w_wset := w_wset s - {fd}\<rparr>))))
     else if flags AND F_READING \<noteq> 0 \<and> fd \<in> rs then
       andThen (Read fd MAXLINE) (\<lambda>buf.
         if buf = [] then
           seq (print ''end-of-file on %s'' (map uint (f_name fptr)))
          (seq (Close fd)
               (ret (s\<lparr>w_files := (w_files s)[i := fptr\<lparr>f_flags := F_DONE\<rparr>], w_rset := w_rset s - {fd},
                       w_nconn := w_nconn s - 1, w_nlefttoread := w_nlefttoread s - 1\<rparr>)))
         else seq (print ''read %d bytes from %s'' (int (length buf) # map uint (f_name fptr))) (ret s))
     else ret s)"

fun scan_files :: "int set \<Rightarrow> int set \<Rightarrow> nat list \<Rightarrow> web \<Rightarrow> (world, web) prog" where
  "scan_files rs ws [] s = ret s"
| "scan_files rs ws (i # is) s = andThen (scan_file rs ws i s) (scan_files rs ws is)"

text \<open>\<open>select\<close> looks at the descriptors up to \<open>maxfd\<close>.\<close>

definition web_round :: "int \<Rightarrow> web \<Rightarrow> (world, web + unit) prog" where
  "web_round maxnconn s =
     (if 0 < w_nlefttoread s then
        andThen (web_connects maxnconn s) (\<lambda>s.
        andThen (Select {fd \<in> w_rset s. fd \<le> w_maxfd s} {fd \<in> w_wset s. fd \<le> w_maxfd s} {} None) (\<lambda>(_, rs, ws).
        andThen (scan_files rs ws [0..<length (w_files s)] s) (\<lambda>s. again s)))
      else leave ())"

definition page_round :: "int \<Rightarrow> unit \<Rightarrow> (world, unit + unit) prog" where
  "page_round fd _ = andThen (Read fd MAXLINE) (\<lambda>line.
     if line = [] then leave () else seq (print ''read %d bytes of home page'' [int (length line)]) (again ()))"

definition home_page :: "byte list \<Rightarrow> byte list \<Rightarrow> (world, unit) prog" where
  "home_page host fname = andThen (Tcp_connect host (lit ''80'')) (\<lambda>fd.
     seq (write_cmd fd (get_cmd fname))
    (seq (loop (page_round fd) ())
    (seq (print ''end of file on home page'' []) (Close fd))))"

definition web_start :: "byte list \<Rightarrow> byte list list \<Rightarrow> web" where
  "web_start host names = \<lparr>w_files = map (\<lambda>f. \<lparr>f_name = f, f_host = host, f_fd = 0, f_flags = 0\<rparr>) names,
     w_nconn = 0, w_nlefttoconn = int (length names), w_nlefttoread = int (length names),
     w_maxfd = -1, w_rset = {}, w_wset = {}\<rparr>"

definition web_main :: "byte list list \<Rightarrow> (world, int) prog" where
  "web_main argv =
     (if length argv < 5 then err_quit ''usage: web <#conns> <hostname> <homepage> <file1> ...''
      else let names = take MAXFILES (drop 4 argv) in
        seq (print ''nfiles = %d'' [int (length names)])
       (seq (home_page (argv ! 2) (argv ! 3))
       (seq (loop (web_round (strtol10 (argv ! 1))) (web_start (argv ! 2) names)) (ret 0))))"

section \<open>The loops make progress\<close>

lemma lawful_web [lawful_intros]:
  "lawful (write_cmd fd cmd)" "lawful (write_get_cmd i s)" "lawful (start_connect i s)" "lawful (fd_set fd S)"
  "lawful (scan_file rs ws i s)"
proof -
  show c: "lawful (write_cmd fd cmd)" for fd cmd unfolding write_cmd_def by (intro lawful_intros)
  show f: "lawful (fd_set fd S)" for fd S unfolding fd_set_def by (intro lawful_intros)
  show g: "lawful (write_get_cmd i s)" for i s
    unfolding write_get_cmd_def Let_def by (intro lawful_intros c f)
  show "lawful (start_connect i s)"
    unfolding start_connect_def Let_def Host_serv_def by (intro lawful_intros f g)
  show "lawful (scan_file rs ws i s)"
    unfolding scan_file_def Let_def by (intro lawful_intros g)
qed

interpretation connect_w: consuming "connect_round m" for m
  by unfold_locales
    (auto simp: connect_round_def start_connect_def Host_serv_def Let_def
      intro!: eats_intros eats_first lawful_intros split: option.split list.split)

lemma lawful_connects [lawful_intros]: "lawful (web_connects m s)"
  unfolding web_connects_def
  by (rule connect_w.loop_lawful) (auto simp: connect_round_def intro!: lawful_intros)

lemma lawful_scan_files [lawful_intros]: "lawful (scan_files rs ws is s)"
  by (induction "is" arbitrary: s) (auto intro!: lawful_intros)

interpretation page_w: consuming "page_round fd" for fd
  by unfold_locales (auto simp: page_round_def intro!: eats_intros eats_first lawful_intros)

interpretation web_w: consuming "web_round m" for m
  by unfold_locales
    (auto simp: web_round_def case_prod_beta intro!: eats_second [OF lawful_connects] eats_first select_w.eats_call lawful_intros eats_leave)

section \<open>Every file is fetched\<close>

text \<open>The request for a file has been written to the descriptor; and, after that, the end of the
  connection has been read and the descriptor closed.\<close>

definition requested :: "int \<Rightarrow> byte list \<Rightarrow> event list \<Rightarrow> bool" where
  "requested fd name tr \<longleftrightarrow> (\<exists>a b c. tr = a @ b @ c \<and> (\<forall>ev\<in>set b. writes_of fd ev) \<and>
     sent fd b = cmd_line (get_cmd name))"

definition fetched :: "byte list \<Rightarrow> event list \<Rightarrow> bool" where
  "fetched name tr \<longleftrightarrow> (\<exists>fd a c r q. tr = a @ [Did (C_read fd MAXLINE) r,
     Print ''end-of-file on %s'' (map uint name), Did (C_close fd) q] @ c \<and>
     requested fd name a \<and> 0 \<le> r_val r \<and> r_data r = [])"

lemma requested_append: "requested fd name tr \<Longrightarrow> requested fd name (tr @ tr')"
  unfolding requested_def by (metis append.assoc)

lemma fetched_append: "fetched name tr \<Longrightarrow> fetched name (tr @ tr')"
  unfolding fetched_def by (metis append.assoc)

text \<open>How far a file has come, and how many of the files are at a stage.\<close>

definition file_ok :: "event list \<Rightarrow> wfile \<Rightarrow> bool" where
  "file_ok tr f \<longleftrightarrow> f_flags f \<in> {0, F_CONNECTING, F_READING, F_DONE} \<and>
     (f_flags f = F_READING \<longrightarrow> requested (f_fd f) (f_name f) tr) \<and>
     (f_flags f = F_DONE \<longrightarrow> fetched (f_name f) tr)"

definition how_many :: "('a \<Rightarrow> bool) \<Rightarrow> 'a list \<Rightarrow> int" where
  "how_many P xs = int (length (filter P xs))"

lemma how_many_update:
  "i < length xs \<Longrightarrow> how_many P (xs[i := y]) = how_many P xs - of_bool (P (xs ! i)) + of_bool (P y)"
proof (induction xs arbitrary: i)
  case (Cons x xs)
  then show ?case by (cases i) (auto simp: how_many_def)
qed simp

abbreviation waiting :: "wfile \<Rightarrow> bool" where "waiting f \<equiv> f_flags f = 0"
abbreviation running :: "wfile \<Rightarrow> bool" where "running f \<equiv> f_flags f \<in> {F_CONNECTING, F_READING}"
abbreviation unread :: "wfile \<Rightarrow> bool" where "unread f \<equiv> f_flags f \<noteq> F_DONE"

text \<open>The sockets that are open, read off the trace: those \<open>socket\<close> has returned, less those closed.\<close>

fun opens :: "event \<Rightarrow> int" where
  "opens (Did (C_socket family type protocol) r) = (if 0 \<le> r_val r then 1 else 0)"
| "opens (Did (C_close fd) r) = (if r_val r \<noteq> -1 then -1 else 0)"
| "opens _ = 0"

definition open_socks :: "event list \<Rightarrow> int" where
  "open_socks tr = sum_list (map opens tr)"

lemma open_socks_simps [simp]:
  "open_socks [] = 0" "open_socks (ev # tr) = opens ev + open_socks tr"
  "open_socks (tr @ tr') = open_socks tr + open_socks tr'"
  by (simp_all add: open_socks_def)

lemma opens_log [simp]: "is_log ev \<Longrightarrow> opens ev = 0"
  by (cases ev) auto

lemma open_socks_writes [simp]: "\<forall>ev\<in>set tr. writes_of fd ev \<or> is_log ev \<Longrightarrow> open_socks tr = 0"
  "\<forall>ev\<in>set tr. writes_of fd ev \<Longrightarrow> open_socks tr = 0"
  by (induction tr) (auto simp: writes_of_def)

definition files_inv :: "byte list list \<Rightarrow> wfile list \<Rightarrow> world \<Rightarrow> bool" where
  "files_inv names fs w \<longleftrightarrow> map f_name fs = names \<and> (\<forall>f\<in>set fs. file_ok (trace w) f)"

definition web_inv :: "int \<Rightarrow> byte list list \<Rightarrow> web \<Rightarrow> world \<Rightarrow> bool" where
  "web_inv m names s w \<longleftrightarrow> files_inv names (w_files s) w \<and>
     w_nlefttoconn s = how_many waiting (w_files s) \<and> w_nconn s = how_many running (w_files s) \<and>
     w_nlefttoread s = how_many unread (w_files s) \<and> w_nconn s \<le> max 0 m \<and>
     open_socks (trace w) = w_nconn s"

lemmas flag_defs = F_CONNECTING_def F_READING_def F_DONE_def

lemma file_ok_append: "file_ok tr f \<Longrightarrow> file_ok (tr @ tr') f"
  by (auto simp: file_ok_def requested_append fetched_append)

lemma files_inv_later: "files_inv names fs w \<Longrightarrow> trace v = trace w @ tr \<Longrightarrow> files_inv names fs v"
  by (auto simp: files_inv_def file_ok_append)

lemma files_inv_update:
  assumes "files_inv names fs w" and "i < length fs" and "f_name f = f_name (fs ! i)" and "file_ok (trace w) f"
  shows "files_inv names (fs[i := f]) w"
  using assms set_update_subset_insert [of fs i f]
  by (auto simp: files_inv_def map_update list_update_id map_update [symmetric] nth_map [symmetric] simp del: nth_map)

section \<open>The counters\<close>

text \<open>What \<open>write_get_cmd\<close> and \<open>start_connect\<close> do to the list of files: the entry is at a later stage,
  nothing else has changed.\<close>

definition moved :: "byte list list \<Rightarrow> nat \<Rightarrow> web \<Rightarrow> int \<Rightarrow> web \<Rightarrow> world \<Rightarrow> bool" where
  "moved names i s k s' w \<longleftrightarrow> open_socks (trace w) = k \<and> files_inv names (w_files s') w \<and>
     (\<exists>f. w_files s' = (w_files s)[i := f] \<and> running f) \<and>
     w_nlefttoconn s' = w_nlefttoconn s \<and> w_nconn s' = w_nconn s \<and> w_nlefttoread s' = w_nlefttoread s"

abbreviation "nothing_found \<equiv> ''nlefttoconn = %d but nothing found''"

text \<open>How the program may stop: not because the counters are wrong, and with at most \<open>k\<close> sockets open.\<close>

definition stops :: "int \<Rightarrow> stop \<Rightarrow> world \<Rightarrow> bool" where
  "stops k e w \<longleftrightarrow> e \<noteq> Exit 1 nothing_found \<and> open_socks (trace w) \<le> k"

lemma write_cmd_wp:
  assumes "\<And>v tr. trace v = trace w @ tr \<Longrightarrow> \<forall>ev\<in>set tr. writes_of fd ev \<Longrightarrow> sent fd tr = cmd_line cmd \<Longrightarrow> Q () v"
    and "\<And>e v. stops (open_socks (trace w)) e v \<Longrightarrow> E e v"
  shows "wp (write_cmd fd cmd) Q E w"
proof -
  have "length (cmd_line cmd) \<le> MAXLINE" by (simp add: cmd_line_def MAXLINE_def)
  then show ?thesis
    unfolding write_cmd_def by (intro wp_intros) (use assms in \<open>auto simp: stops_def\<close>)
qed

lemma write_get_cmd_wp:
  assumes inv: "files_inv names (w_files s) w" and i: "i < length (w_files s)"
  shows "wp (write_get_cmd i s) (moved names i s (open_socks (trace w))) (stops (open_socks (trace w))) w"
  unfolding write_get_cmd_def Let_def fd_set_def
proof (intro wp_intros write_cmd_wp)
  fix v :: world and tr
  let ?f = "w_files s ! i"
  assume tr: "trace v = trace w @ tr" "\<forall>ev\<in>set tr. writes_of (f_fd ?f) ev" "sent (f_fd ?f) tr = cmd_line (get_cmd (f_name ?f))"
  let ?p = "Print ''wrote a%d bytes for %s'' (int (length (get_cmd (f_name ?f))) # map uint (f_name ?f))"
  let ?v = "v\<lparr>trace := trace v @ [?p]\<rparr>"
  let ?g = "?f\<lparr>f_flags := F_READING\<rparr>"
  have "requested (f_fd ?f) (f_name ?f) (trace ?v)"
    unfolding requested_def using tr by (intro exI [of _ "trace w"] exI [of _ tr] exI [of _ "[?p]"]) simp
  then have "file_ok (trace ?v) ?g" by (simp add: file_ok_def flag_defs)
  moreover have "files_inv names (w_files s) ?v"
    by (rule files_inv_later [OF inv, of _ "tr @ [?p]"]) (simp add: tr)
  ultimately have "files_inv names ((w_files s)[i := ?g]) ?v"
    by (intro files_inv_update i) simp_all
  then show "moved names i s (open_socks (trace w)) (s\<lparr>w_files := (w_files s)[i := ?g], w_rset := insert (f_fd ?f) (w_rset s),
      w_maxfd := max (f_fd ?f) (w_maxfd s)\<rparr>) ?v"
    using tr by (auto simp: moved_def flag_defs intro!: exI [of _ ?g])
qed (auto simp: stops_def)

lemma start_connect_wp:
  assumes inv: "files_inv names (w_files s) w" and i: "i < length (w_files s)" and fresh: "waiting (w_files s ! i)"
  shows "wp (start_connect i s) (moved names i s (open_socks (trace w) + 1)) (stops (open_socks (trace w) + 1)) w"
proof -
  have later: "files_inv names ((w_files s)[i := (w_files s ! i)\<lparr>f_fd := fd\<rparr>]) v"
    if "trace v = trace w @ tr" for v :: world and tr fd
    using files_inv_update [OF files_inv_later [OF inv that] i, of "(w_files s ! i)\<lparr>f_fd := fd\<rparr>"] fresh
    by (simp add: file_ok_def flag_defs)
  have connecting: "files_inv names ((w_files s)[i := (w_files s ! i)\<lparr>f_fd := fd, f_flags := F_CONNECTING\<rparr>]) v"
    if "trace v = trace w @ tr" for v :: world and tr fd
    using files_inv_update [OF files_inv_later [OF inv that] i, of "(w_files s ! i)\<lparr>f_fd := fd, f_flags := F_CONNECTING\<rparr>"]
    by (simp add: file_ok_def flag_defs)
  show ?thesis
    unfolding start_connect_def Let_def Host_serv_def fd_set_def sys_int_def
    by (intro wp_intros; (rule wp_mono [OF write_get_cmd_wp [where names = names]])?)
      (use i in \<open>auto simp: moved_def stops_def flag_defs intro: later connecting [unfolded flag_defs]\<close>)
qed

lemma next_file_Some:
  assumes "next_file s = Some i"
  shows "i < length (w_files s)" "waiting (w_files s ! i)"
  using assms unfolding next_file_def find_Some_iff by auto

lemma next_file_None:
  assumes "next_file s = None"
  shows "how_many waiting (w_files s) = 0"
proof -
  have "\<not> waiting f" if "f \<in> set (w_files s)" for f
    using that assms unfolding next_file_def find_None_iff by (metis atLeast0LessThan atLeast_upt in_set_conv_nth lessThan_iff)
  then show ?thesis by (simp add: how_many_def filter_empty_conv)
qed

lemma moved_web_inv:
  assumes "web_inv m names s w" and "moved names i s k s' v" and "i < length (w_files s)"
  shows "waiting (w_files s ! i) \<Longrightarrow> w_nconn s < m \<Longrightarrow> k = w_nconn s + 1 \<Longrightarrow>
      web_inv m names (s'\<lparr>w_nconn := w_nconn s' + 1, w_nlefttoconn := w_nlefttoconn s' - 1\<rparr>) v"
    and "running (w_files s ! i) \<Longrightarrow> k = w_nconn s \<Longrightarrow> web_inv m names s' v"
  using assms by (auto simp: web_inv_def moved_def how_many_update flag_defs)

lemma web_inv_stops: "web_inv m names s w \<Longrightarrow> trace v = trace w @ tr \<Longrightarrow> open_socks tr \<le> 0 \<Longrightarrow>
    e \<noteq> Exit 1 nothing_found \<Longrightarrow> stops (max 0 m) e v"
  by (simp add: web_inv_def stops_def)

lemma inv_length: "web_inv m names s w \<Longrightarrow> length (w_files s) = length names"
  by (auto simp: web_inv_def files_inv_def)

lemma inv_open: "web_inv m names s w \<Longrightarrow> open_socks (trace w) = w_nconn s \<and> w_nconn s \<le> max 0 m"
  by (simp add: web_inv_def)

lemma web_inv_later:
  "web_inv m names s w \<Longrightarrow> trace v = trace w @ tr \<Longrightarrow> open_socks tr = 0 \<Longrightarrow> web_inv m names s v"
  by (auto simp: web_inv_def files_inv_later)

lemma web_connects_wp:
  assumes "web_inv m names s w"
  shows "wp (web_connects m s) (web_inv m names) (stops (max 0 m)) w"
  unfolding web_connects_def
proof (rule connect_w.loop_wp [where I = "web_inv m names", OF assms])
  fix s w
  assume inv: "web_inv m names s w"
  show "wp (connect_round m s) (\<lambda>z v. case z of Inl y \<Rightarrow> web_inv m names y v | Inr a \<Rightarrow> web_inv m names a v)
      (stops (max 0 m)) w"
    unfolding connect_round_def
  proof (intro wp_intros)
    assume more: "w_nconn s < m \<and> 0 < w_nlefttoconn s"
    show "stops (max 0 m) (Exit 1 nothing_found) v" if "next_file s = None" for v
      using inv more next_file_None [OF that] by (simp add: web_inv_def)
    fix i
    assume i: "next_file s = Some i"
    have "wp (start_connect i s) (moved names i s (open_socks (trace w) + 1)) (stops (open_socks (trace w) + 1)) w"
      using inv next_file_Some [OF i] by (intro start_connect_wp) (auto simp: web_inv_def)
    then show "wp (start_connect i s) (\<lambda>s. wp (again (s\<lparr>w_nconn := w_nconn s + 1, w_nlefttoconn := w_nlefttoconn s - 1\<rparr>))
        (\<lambda>z v. case z of Inl y \<Rightarrow> web_inv m names y v | Inr a \<Rightarrow> web_inv m names a v)
        (stops (max 0 m))) (stops (max 0 m)) w"
      using next_file_Some [OF i] more inv_open [OF inv]
      by (elim wp_mono) (auto intro!: wp_ret moved_web_inv(1) [OF inv] simp: stops_def)
  qed (use inv in auto)
qed

lemma scan_file_wp:
  assumes inv: "web_inv m names s w" and i: "i < length (w_files s)"
  shows "wp (scan_file rs ws i s) (web_inv m names) (stops (max 0 m)) w"
proof -
  let ?f = "w_files s ! i"
  have ok: "file_ok (trace w) ?f" using inv i by (auto simp: web_inv_def files_inv_def)
  have established: "wp (write_get_cmd i (s\<lparr>w_wset := S\<rparr>)) (web_inv m names) (stops (max 0 m)) v"
    if "f_flags ?f AND F_CONNECTING \<noteq> 0" and v: "trace v = trace w @ tr" "open_socks tr = 0" for v :: world and tr S
  proof -
    have run: "running ?f" using ok that(1) by (auto simp: file_ok_def flag_defs)
    have inv': "web_inv m names (s\<lparr>w_wset := S\<rparr>) v"
      using web_inv_later [OF inv v] by (simp add: web_inv_def)
    have "wp (write_get_cmd i (s\<lparr>w_wset := S\<rparr>)) (moved names i (s\<lparr>w_wset := S\<rparr>) (open_socks (trace v)))
        (stops (open_socks (trace v))) v"
      using inv' i by (intro write_get_cmd_wp) (auto simp: web_inv_def)
    then show ?thesis
      using i run inv_open [OF inv'] by (elim wp_mono) (auto intro!: moved_web_inv(2) [OF inv'] simp: stops_def)
  qed
  have finished: "web_inv m names (s\<lparr>w_files := (w_files s)[i := ?f\<lparr>f_flags := F_DONE\<rparr>], w_rset := S,
      w_nconn := w_nconn s - 1, w_nlefttoread := w_nlefttoread s - 1\<rparr>) v"
    if "f_flags ?f AND F_READING \<noteq> 0" and v: "trace v = trace w @ [Did (C_read (f_fd ?f) MAXLINE) r,
      Print ''end-of-file on %s'' (map uint (f_name ?f)), Did (C_close (f_fd ?f)) q]"
      and got: "got_len MAXLINE r \<noteq> -1" "got MAXLINE r = []" and q: "r_val q \<noteq> -1" for v :: world and r q S
  proof -
    have r: "0 \<le> r_val r" "got MAXLINE r = []" using got by (auto simp: got_len_def split: if_splits)
    have run: "f_flags ?f = F_READING" using ok that(1) by (auto simp: file_ok_def flag_defs)
    have "fetched (f_name ?f) (trace v)"
      unfolding fetched_def v
      by (intro exI [of _ "f_fd ?f"] exI [of _ "trace w"] exI [of _ "[]"] exI [of _ r] exI [of _ q])
        (use ok run r in \<open>simp add: file_ok_def flag_defs got_def MAXLINE_def split: if_splits\<close>)
    then have "files_inv names ((w_files s)[i := ?f\<lparr>f_flags := F_DONE\<rparr>]) v"
      using inv i by (intro files_inv_update files_inv_later [OF _ v]) (simp_all add: file_ok_def flag_defs web_inv_def)
    then show ?thesis
      using inv i run q by (auto simp: web_inv_def how_many_update flag_defs v)
  qed
  show ?thesis
    unfolding scan_file_def Let_def
    by (intro wp_intros established)
      (use inv in \<open>auto intro: finished web_inv_stops [OF inv] web_inv_later [OF inv]\<close>)
qed

lemma scan_files_wp:
  "web_inv m names s w \<Longrightarrow> \<forall>i\<in>set is. i < length names \<Longrightarrow>
     wp (scan_files rs ws is s) (web_inv m names) (stops (max 0 m)) w"
proof (induction "is" arbitrary: s w)
  case Nil
  then show ?case by (simp add: wp_def)
next
  case (Cons i "is")
  then have "i < length (w_files s)" by (auto simp: web_inv_def files_inv_def)
  with Cons show ?case
    by (auto intro!: wp_andThen wp_mono [OF scan_file_wp])
qed

lemma web_loop_wp:
  assumes "web_inv m names s w"
  shows "wp (loop (web_round m) s) (\<lambda>_ v. (\<forall>name\<in>set names. fetched name (trace v)) \<and> open_socks (trace v) \<le> max 0 m)
    (stops (max 0 m)) w"
proof (rule web_w.loop_wp [where I = "web_inv m names", OF assms])
  fix s w
  assume inv: "web_inv m names s w"
  let ?Q = "\<lambda>v. (\<forall>name\<in>set names. fetched name (trace v)) \<and> open_socks (trace v) \<le> max 0 m"
  have selected: "web_inv m names s (took (C_select A B C D) r v)" if "web_inv m names s v" for s A B C D r and v :: world
    by (rule web_inv_later [OF that]) auto
  have blocked: "stops (max 0 m) Blocked v" if "web_inv m names s v" for s and v :: world
    by (rule web_inv_stops [OF that, of _ "[]"]) simp_all
  have failed: "stops (max 0 m) e u" if "web_inv m names s v" "trace u = trace v @ tr" "open_socks tr = 0"
    "e = Blocked \<or> e = Exit 1 ''select error''" for s e tr and u v :: world
    using web_inv_stops [OF that(1,2)] that(3,4) by auto
  show "wp (web_round m s) (\<lambda>z v. case z of Inl y \<Rightarrow> web_inv m names y v | Inr a \<Rightarrow> ?Q v) (stops (max 0 m)) w"
    unfolding web_round_def
  proof (intro wp_intros wp_mono [OF web_connects_wp [OF inv]])
    assume "\<not> 0 < w_nlefttoread s"
    then have "filter unread (w_files s) = []"
      using inv by (simp add: web_inv_def how_many_def)
    then have "f_flags f = F_DONE" if "f \<in> set (w_files s)" for f
      using that by (auto simp: filter_empty_conv)
    moreover have "file_ok (trace w) f" if "f \<in> set (w_files s)" for f
      using that inv by (auto simp: web_inv_def files_inv_def)
    moreover have "names = map f_name (w_files s)" using inv by (simp add: web_inv_def files_inv_def)
    ultimately show "case Inr () of Inl y \<Rightarrow> web_inv m names y w | Inr a \<Rightarrow> ?Q w"
      using inv by (auto simp: file_ok_def web_inv_def)
  qed (auto intro!: wp_mono [OF scan_files_wp] wp_ret selected blocked simp: inv_length intro: failed)
qed

section \<open>The home page\<close>

text \<open>The home page has its own connection, which is closed before the others are begun.\<close>

lemma connect_try_wp:
  assumes "open_socks (trace w) = 0"
  shows "wp (tcp_connect_try a) (\<lambda>z v. open_socks (trace v) = (if z = None then 0 else 1)) (stops 1) w"
  using assms by (cases a) (auto simp: sys_int_def stops_def intro!: wp_intros)

lemma try_connect_wp:
  "open_socks (trace w) = 0 \<Longrightarrow>
     wp (try_addrs tcp_connect_try as) (\<lambda>z v. open_socks (trace v) = (if z = None then 0 else 1)) (stops 1) w"
proof (induction as arbitrary: w)
  case (Cons a as)
  then show ?case
    by (auto intro!: wp_andThen wp_mono [OF connect_try_wp] wp_ret split: option.split)
qed (auto intro: wp_ret)

lemma Tcp_connect_opens:
  assumes "open_socks (trace w) = 0"
  shows "wp (Tcp_connect host serv) (\<lambda>_ v. open_socks (trace v) = 1) (stops 1) w"
  unfolding Tcp_connect_def tcp_connect_def lookup_def
  by (intro wp_intros wp_mono [OF try_connect_wp]) (use assms in \<open>auto simp: stops_def intro!: wp_intros\<close>)

lemma page_wp:
  assumes "open_socks (trace w) = 1"
  shows "wp (loop (page_round fd) ()) (\<lambda>_ v. open_socks (trace v) = 1) (stops 1) w"
proof (rule page_w.loop_wp [where I = "\<lambda>_ v. open_socks (trace v) = 1", OF assms])
  fix x :: unit and v :: world
  assume "open_socks (trace v) = 1"
  then show "wp (page_round fd x) (\<lambda>z v. case z of Inl _ \<Rightarrow> open_socks (trace v) = 1 | Inr _ \<Rightarrow> open_socks (trace v) = 1)
      (stops 1) v"
    unfolding page_round_def by (intro wp_intros) (auto simp: stops_def)
qed

lemma home_page_wp:
  assumes "open_socks (trace w) = 0"
  shows "wp (home_page host fname) (\<lambda>_ v. open_socks (trace v) = 0) (stops 1) w"
  unfolding home_page_def
  by (intro wp_intros wp_mono [OF Tcp_connect_opens [OF assms]] wp_mono [OF page_wp] write_cmd_wp)
    (auto simp: stops_def)

lemma web_start_inv: "open_socks (trace w) = 0 \<Longrightarrow> web_inv m names (web_start host names) w"
proof -
  have "filter waiting fs = fs" "filter running fs = []" "filter unread fs = fs"
    if "\<forall>f\<in>set fs. f_flags f = 0" for fs
    using that by (induction fs) (auto simp: flag_defs)
  then show ?thesis if "open_socks (trace w) = 0"
    using that by (auto simp: web_inv_def web_start_def files_inv_def file_ok_def how_many_def flag_defs o_def)
qed

lemma web_main_wp:
  assumes "trace w = []"
  shows "wp (web_main argv) (\<lambda>_ v. (\<forall>name\<in>set (take MAXFILES (drop 4 argv)). fetched name (trace v)) \<and>
      open_socks (trace v) \<le> max 1 (strtol10 (argv ! 1))) (stops (max 1 (strtol10 (argv ! 1)))) w"
  unfolding web_main_def Let_def
  by (intro wp_intros wp_mono [OF home_page_wp] wp_mono [OF web_loop_wp] web_start_inv)
    (use assms in \<open>auto simp: stops_def intro: web_start_inv\<close>)

text \<open>(C34) The web client fetches every file: when it returns, each file named on the command line (the
  first twenty of them) has been requested on a connection whose end has then been read and which
  has been closed. The counters agree with the files throughout, so the exit
  \<open>nlefttoconn = %d but nothing found\<close> is dead code.\<close>

theorem web_client_fetches:
  assumes "web_main argv w = (res, w')" and "trace w = []"
  shows "(\<forall>n. res = Inr n \<longrightarrow> (\<forall>name\<in>set (take MAXFILES (drop 4 argv)). fetched name (trace w'))) \<and>
    res \<noteq> Inl (Exit 1 ''nlefttoconn = %d but nothing found'')"
  using assms(1) web_main_wp [OF assms(2), of argv] by (cases res) (auto simp: wp_def stops_def)

text \<open>(C35) The web client never has more sockets open than the number of connections it was given, or
  the one of the home page: however the run goes on, and at whatever call it is stopped.\<close>

theorem web_client_bounded:
  assumes "web_main argv w = (res, w')" and "trace w = []"
  shows "open_socks (trace w') \<le> max 1 (strtol10 (argv ! 1))"
  using assms(1) web_main_wp [OF assms(2), of argv] by (cases res) (auto simp: wp_def stops_def)

text \<open>A run: the home page, and one file on a connection that takes its time.\<close>

definition web_argv :: "byte list list" where
  "web_argv = [lit ''web'', lit ''1'', lit ''h'', lit ''/'', lit ''a'']"

definition web_example :: "resp list" where
  "web_example = [no_resp\<lparr>r_addrs := [(2, 1, 0, Sin 0 0)]\<rparr>, ok 3, ok 0, ok 18, gives [104], gives [], ok 0,
     no_resp\<lparr>r_addrs := [(2, 1, 0, Sin 0 0)]\<rparr>, ok 3, ok 0, ok 0, fails EINPROGRESS,
     no_resp\<lparr>r_wr := {3}\<rparr>, ok 0, ok 18, no_resp\<lparr>r_rd := {3}\<rparr>, gives [], ok 0]"

lemma web_main_apply: "web_main argv w = (if length argv < 5 then err_quit ''usage: web <#conns> <hostname> <homepage> <file1> ...''
      else let names = take MAXFILES (drop 4 argv) in
        seq (print ''nfiles = %d'' [int (length names)])
       (seq (home_page (argv ! 2) (argv ! 3))
       (seq (loop (web_round (strtol10 (argv ! 1))) (web_start (argv ! 2) names)) (ret 0)))) w"
  by (simp add: web_main_def)

lemma web_example_run: "\<exists>w'. web_main web_argv (start web_example) = (Inr 0, w')"
proof -
  have num: "strtol10 (lit ''1'') = 1" by code_simp
  have len: "length (get_cmd (lit ''/'')) = 18" "length (get_cmd (lit ''a'')) = 18"
    by (simp_all add: get_cmd_def)
  have line: "cmd_line (get_cmd (lit ''/'')) = get_cmd (lit ''/'')" "cmd_line (get_cmd (lit ''a'')) = get_cmd (lit ''a'')"
    by (simp_all add: cmd_line_def len MAXLINE_def)
  have sets: "{fd :: int. fd = 3 \<and> fd \<le> 3} = {3}" by auto
  have aux: "aux (ok 0) 0 = 0" by (simp add: aux_def resp_defs)
  show ?thesis
    by (simp add: web_main_apply web_argv_def num MAXFILES_def home_page_def write_cmd_def len line Let_def
        Tcp_connect_def tcp_connect_def lookup_def sys_int_def web_example_def andThen_apply sys_apply
        page_w.loop_unfold page_round_def web_w.loop_unfold web_round_def web_connects_def connect_w.loop_unfold
        connect_round_def next_file_def start_connect_def Host_serv_def Socket_def Fcntl_def fd_set_def
        scan_file_def write_get_cmd_def flag_defs Read_def Close_def Select_def ready_count_def sets FD_SETSIZE_def
        web_start_def Writen_def writen_def writen_loop.loop_unfold writen_round_apply writen_next_def
        got_def got_len_def put_len_def MAXLINE_def aux only_if_def)
qed

theorem web_client_fetches_witness:
  "\<exists>w'. web_main web_argv (start web_example) = (Inr 0, w') \<and> fetched (lit ''a'') (trace w')"
proof -
  obtain w' where run: "web_main web_argv (start web_example) = (Inr 0, w')"
    using web_example_run by blast
  with web_client_fetches [OF run] show ?thesis by (simp add: web_argv_def MAXFILES_def)
qed

theorem web_client_bounded_witness:
  "\<exists>w'. web_main web_argv (start web_example) = (Inr 0, w') \<and> open_socks (trace w') \<le> 1"
proof -
  obtain w' where run: "web_main web_argv (start web_example) = (Inr 0, w')"
    using web_example_run by blast
  moreover have "strtol10 (web_argv ! 1) = 1" unfolding web_argv_def by code_simp
  ultimately show ?thesis using web_client_bounded [OF run] by simp
qed

end
