(* ===== verification/Interfaces.thy ===== *)
theory Interfaces
  imports Datagram_Echo "HOL-Library.Multiset"
begin

text \<open>
  \<open>get_ifi_info.cpp\<close> with \<open>unpifi.h\<close>: the list of the interfaces and their addresses, read from the
  kernel's \<open>ioctl\<close> calls; and its client \<open>ioctl/main.cpp\<close>, which prints the hardware address of
  each; and the code of \<open>advio\<close> that asks which interface a datagram has come in on. The buffer that
  \<open>SIOCGIFCONF\<close> fills is a list of bytes, because the way the code steps through it matters. Built on Linux, without \<open>IPV6\<close>, \<open>HAVE_SOCKADDR_SA_LEN\<close>,
  \<open>HAVE_SOCKADDR_DL_STRUCT\<close> and \<open>HAVE_STRUCT_IFREQ_IFR_MTU\<close>, none of which the repository defines.
\<close>

section \<open>get_ifi_info\<close>

definition SIOCGIFCONF :: int where "SIOCGIFCONF = 35090"
definition SIOCGIFFLAGS :: int where "SIOCGIFFLAGS = 35091"
definition SIOCGIFDSTADDR :: int where "SIOCGIFDSTADDR = 35095"
definition SIOCGIFBRDADDR :: int where "SIOCGIFBRDADDR = 35097"
definition SIOCGARP :: int where "SIOCGARP = 35156"
definition IFF_UP :: int where "IFF_UP = 1"
definition IFF_BROADCAST :: int where "IFF_BROADCAST = 2"
definition IFF_POINTOPOINT :: int where "IFF_POINTOPOINT = 16"
definition IFI_ALIAS :: int where "IFI_ALIAS = 1"

text \<open>\<open>sizeof (struct ifreq)\<close> on x86-64 Linux: a name of 16 bytes and a union of 24.\<close>

definition sizeof_ifreq :: int where "sizeof_ifreq = 40"
definition sizeof_ifi_info :: int where "sizeof_ifi_info = 72"

text \<open>A structure of the list, with the addresses of what has been allocated for it.\<close>

record ifi_info =
  ifi_ptr :: int
  ifi_name :: "byte list"
  ifi_index :: int
  ifi_mtu :: int
  ifi_hlen :: int
  ifi_flags :: int
  ifi_myflags :: int
  ifi_addr :: "(int \<times> sockaddr) option"
  ifi_brdaddr :: "(int \<times> sockaddr) option"
  ifi_dstaddr :: "(int \<times> sockaddr) option"

definition free_ptr :: "int \<Rightarrow> (world, unit) prog" where
  "free_ptr p = seq (sys (C_lib ''free'' [p] [])) (ret ())"

text \<open>The buffer is enlarged until two calls in turn have stored the same number of bytes.\<close>

definition ifconf_round ::
  "int \<Rightarrow> int \<times> int \<Rightarrow> (world, int \<times> int + int \<times> byte list \<times> int) prog" where
  "ifconf_round sockfd = (\<lambda>(len, lastlen). andThen (Malloc len) (\<lambda>buf.
     andThen (sys (C_ioctl sockfd SIOCGIFCONF)) (\<lambda>r. andThen get_errno (\<lambda>errno.
       let ifc_len = aux r 0 in
       if r_val r < 0 then
         if errno \<noteq> EINVAL \<or> lastlen \<noteq> 0 then err_sys ''ioctl error''
         else seq (free_ptr buf) (again (len + 10 * sizeof_ifreq, lastlen))
       else if ifc_len = lastlen then leave (buf, r_data r, ifc_len)
       else seq (free_ptr buf) (again (len + 10 * sizeof_ifreq, ifc_len))))))"

text \<open>The fields of the entry at \<open>ptr\<close>; the name is cut at a colon. The next entry is taken to be
  \<open>sizeof (ifr_name) + sizeof (struct sockaddr)\<close> bytes further.\<close>

definition ifr_byte :: "byte list \<Rightarrow> nat \<Rightarrow> byte" where
  "ifr_byte buf i = (if i < length buf then buf ! i else 0)"

definition ifr_family :: "byte list \<Rightarrow> nat \<Rightarrow> int" where
  "ifr_family buf ptr = uint (le16 (ifr_byte buf (ptr + 16)) (ifr_byte buf (ptr + 17)))"

definition ifr_name :: "byte list \<Rightarrow> nat \<Rightarrow> byte list" where
  "ifr_name buf ptr = takeWhile (\<lambda>b. b \<noteq> 58) (cstr (map (\<lambda>i. ifr_byte buf (ptr + i)) [0..<16]))"

definition ifr_addr :: "byte list \<Rightarrow> nat \<Rightarrow> sockaddr" where
  "ifr_addr buf ptr = (let b = (\<lambda>i. ifr_byte buf (ptr + 16 + i)); port = le16 (b 2) (b 3) in
     if ifr_family buf ptr = AF_INET then Sin port (le32 (b 4) (b 5) (b 6) (b 7))
     else if ifr_family buf ptr = AF_INET6 then Sin6 port (map b [8..<24])
     else Sother (ifr_family buf ptr))"

definition ifr_step :: nat where "ifr_step = 16 + 16"

definition ifr_ptrs :: "int \<Rightarrow> nat list" where
  "ifr_ptrs ifc_len = map (\<lambda>k. ifr_step * k) [0..<(nat ifc_len + ifr_step - 1) div ifr_step]"

text \<open>An address that another \<open>ioctl\<close> stores in \<open>ifrcopy\<close> is copied to memory of its own.\<close>

definition ifi_other :: "int \<Rightarrow> int \<Rightarrow> (world, (int \<times> sockaddr) option) prog" where
  "ifi_other sockfd request = andThen (Ioctl sockfd request) (\<lambda>(_, r).
     andThen (Calloc 1 16) (\<lambda>p. ret (Some (p, r_addr r))))"

text \<open>The addresses of an interface. The 28 bytes of a \<open>sockaddr_in6\<close> are more than the union of
  \<open>ifrcopy\<close> holds.\<close>

definition ifi_addrs :: "int \<Rightarrow> int \<Rightarrow> sockaddr \<Rightarrow> ifi_info \<Rightarrow> (world, ifi_info) prog" where
  "ifi_addrs sockfd flags sa ifi =
     (if sa_family sa = AF_INET then
        andThen (Calloc 1 16) (\<lambda>a.
        andThen (if flags AND IFF_BROADCAST \<noteq> 0 then ifi_other sockfd SIOCGIFBRDADDR else ret None) (\<lambda>brd.
        andThen (if flags AND IFF_POINTOPOINT \<noteq> 0 then ifi_other sockfd SIOCGIFDSTADDR else ret None) (\<lambda>dst.
          ret (ifi\<lparr>ifi_addr := Some (a, sa), ifi_brdaddr := brd, ifi_dstaddr := dst\<rparr>))))
      else if sa_family sa = AF_INET6 then
        andThen (Calloc 1 28) (\<lambda>a.
        seq (only_if (flags AND IFF_POINTOPOINT \<noteq> 0)
              (seq (Ioctl sockfd SIOCGIFDSTADDR) (seq (Calloc 1 28) (halt (Undef ''ifrcopy'')))))
            (ret (ifi\<lparr>ifi_addr := Some (a, sa)\<rparr>)))
      else ret ifi)"

text \<open>One entry of the buffer: \<open>lastname\<close> is the name of the last interface that was looked at. Without
  \<open>sockaddr_dl\<close> there is no index and no hardware address.\<close>

definition ifi_entry ::
  "int \<Rightarrow> int \<Rightarrow> int \<Rightarrow> byte list \<Rightarrow> nat \<Rightarrow> byte list \<Rightarrow> (world, byte list \<times> ifi_info option) prog" where
  "ifi_entry sockfd family doaliases buf ptr lastname =
     (if ifr_family buf ptr \<noteq> family then ret (lastname, None)
      else let name = ifr_name buf ptr in
        if lastname = name \<and> doaliases = 0 then ret (lastname, None)
        else andThen (Ioctl sockfd SIOCGIFFLAGS) (\<lambda>(_, r).
          let flags = sint (word_of_int (aux r 0) :: u16) in
          if flags AND IFF_UP = 0 then ret (name, None)
          else andThen (Calloc 1 sizeof_ifi_info) (\<lambda>p.
            andThen (ifi_addrs sockfd flags (ifr_addr buf ptr) \<lparr>ifi_ptr = p, ifi_name = take 15 name,
                ifi_index = 0, ifi_mtu = 0, ifi_hlen = 0, ifi_flags = flags,
                ifi_myflags = (if lastname = name then IFI_ALIAS else 0),
                ifi_addr = None, ifi_brdaddr = None, ifi_dstaddr = None\<rparr>) (\<lambda>ifi.
              ret (name, Some ifi)))))"

fun ifi_entries ::
  "int \<Rightarrow> int \<Rightarrow> int \<Rightarrow> byte list \<Rightarrow> nat list \<Rightarrow> byte list \<Rightarrow> (world, ifi_info list) prog" where
  "ifi_entries sockfd family doaliases buf [] lastname = ret []"
| "ifi_entries sockfd family doaliases buf (ptr # ptrs) lastname =
     andThen (ifi_entry sockfd family doaliases buf ptr lastname) (\<lambda>(lastname, ifi).
     andThen (ifi_entries sockfd family doaliases buf ptrs lastname) (\<lambda>rest.
       ret (case ifi of None \<Rightarrow> rest | Some i \<Rightarrow> i # rest)))"

definition get_ifi_info :: "int \<Rightarrow> int \<Rightarrow> (world, ifi_info list) prog" where
  "get_ifi_info family doaliases = andThen (Socket AF_INET SOCK_DGRAM 0) (\<lambda>sockfd.
     andThen (loop (ifconf_round sockfd) (100 * sizeof_ifreq, 0)) (\<lambda>(p, buf, ifc_len).
     andThen (ifi_entries sockfd family doaliases buf (ifr_ptrs ifc_len) []) (\<lambda>ifihead.
     seq (free_ptr p) (ret ifihead))))"

definition Get_ifi_info :: "int \<Rightarrow> int \<Rightarrow> (world, ifi_info list) prog" where
  "Get_ifi_info family doaliases = andThen (get_ifi_info family doaliases) (\<lambda>ifi.
     if ifi = [] then err_quit ''get_ifi_info error'' else ret ifi)"

text \<open>\<open>free_ifi_info\<close> gives back what the list has allocated.\<close>

definition free_addr :: "(int \<times> sockaddr) option \<Rightarrow> (world, unit) prog" where
  "free_addr a = (case a of None \<Rightarrow> ret () | Some (p, _) \<Rightarrow> free_ptr p)"

fun free_ifi_info :: "ifi_info list \<Rightarrow> (world, unit) prog" where
  "free_ifi_info [] = ret ()"
| "free_ifi_info (ifi # ifinext) =
     seq (free_addr (ifi_addr ifi)) (seq (free_addr (ifi_brdaddr ifi)) (seq (free_addr (ifi_dstaddr ifi))
    (seq (free_ptr (ifi_ptr ifi)) (free_ifi_info ifinext))))"

section \<open>ioctl\<close>

text \<open>\<open>%x\<close> of a \<open>char\<close>, which is signed: the bytes are printed as 32-bit numbers with their sign. An
  interface whose entry is not found is skipped.\<close>

definition hex_char :: "byte \<Rightarrow> int" where
  "hex_char b = uint (scast b :: u32)"

fun print_arps :: "int \<Rightarrow> ifi_info list \<Rightarrow> (world, unit) prog" where
  "print_arps sockfd [] = ret ()"
| "print_arps sockfd (ifi # rest) = seq (case ifi_addr ifi of
       None \<Rightarrow> halt (Undef ''ifi_addr'')
     | Some (_, sa) \<Rightarrow> andThen (Sock_ntop False (\<lambda>_. []) sa 16) (\<lambda>s.
         seq (print ''%s: '' (map of_char s))
        (andThen (sys (C_ioctl sockfd SIOCGARP)) (\<lambda>r.
           if r_val r < 0 then err_ret ''ioctl SIOCGARP''
           else print ''%x:%x:%x:%x:%x:%x'' (map (\<lambda>i. hex_char (ifr_byte (r_data r) i)) [0..<6])))))
     (print_arps sockfd rest)"

definition ioctl_main :: "(world, int) prog" where
  "ioctl_main = andThen (Socket AF_INET SOCK_DGRAM 0) (\<lambda>sockfd.
     andThen (get_ifi_info AF_INET 0) (\<lambda>ifis. seq (print_arps sockfd ifis) (ret 0)))"

section \<open>Datagrams with their destination\<close>

text \<open>\<open>if_indextoname.cpp\<close> is a placeholder that knows no interface. \<open>advio/recvfromflags.cpp\<close>, without
  \<open>HAVE_MSGHDR_MSG_CONTROL\<close>, returns no flags and a \<open>pktinfo\<close> of zeros (a pair of the address and the
  index); \<open>advio/dgechoaddr.cpp\<close> redefines \<open>MAXLINE\<close> as 20, and is built for Linux, which has \<open>MSG_TRUNC\<close>
  and \<open>MSG_CTRUNC\<close> but none of the other macros it tests.\<close>

definition if_indextoname :: "int \<Rightarrow> byte list option" where
  "if_indextoname index = None"

definition If_indextoname :: "int \<Rightarrow> (world, byte list) prog" where
  "If_indextoname index = (case if_indextoname index of
     None \<Rightarrow> err_quit ''if_indextoname error for %d'' | Some ptr \<Rightarrow> ret ptr)"

definition recvfrom_flags ::
  "int \<Rightarrow> nat \<Rightarrow> int \<Rightarrow> (world, int \<times> byte list \<times> int \<times> sockaddr \<times> u32 \<times> int) prog" where
  "recvfrom_flags fd nbytes flags = andThen (sys (C_recvmsg fd nbytes flags)) (\<lambda>r.
     if r_val r < 0 then ret (-1, [], flags, Sother 0, 0, 0)
     else ret (got_len nbytes r, got nbytes r, 0, r_addr r, 0, 0))"

definition Recvfrom_flags ::
  "int \<Rightarrow> nat \<Rightarrow> int \<Rightarrow> (world, byte list \<times> int \<times> sockaddr \<times> u32 \<times> int) prog" where
  "Recvfrom_flags fd nbytes flags = andThen (recvfrom_flags fd nbytes flags) (\<lambda>(n, bs, flags, sa, addr, ifindex).
     if n < 0 then err_quit ''recvfrom_flags error'' else ret (bs, flags, sa, addr, ifindex))"

definition MSG_TRUNC :: int where "MSG_TRUNC = 32"
definition MSG_CTRUNC :: int where "MSG_CTRUNC = 8"

definition de_echo_round :: "int \<Rightarrow> unit \<Rightarrow> (world, unit) prog" where
  "de_echo_round sockfd _ = andThen (Recvfrom_flags sockfd 20 0) (\<lambda>(mesg, flags, cliaddr, addr, ifindex).
     andThen (Sock_ntop False (\<lambda>_. []) cliaddr (sa_len cliaddr)) (\<lambda>str.
     seq (print ''%d-byte datagram from %s'' (int (length mesg) # map of_char str))
    (seq (only_if (addr \<noteq> 0) (andThen (Inet_ntop AF_INET (bytes32 addr) False 46) (\<lambda>s. print '', to %s'' (map uint s))))
    (seq (only_if (0 < ifindex) (andThen (If_indextoname ifindex) (\<lambda>s. print '', recv i/f = %s'' (map uint s))))
    (seq (only_if (flags AND MSG_TRUNC \<noteq> 0) (print ''(datagram truncated)'' []))
    (seq (only_if (flags AND MSG_CTRUNC \<noteq> 0) (print ''(control info truncated)'' []))
    (seq (print '''' []) (Sendto sockfd mesg 0 cliaddr))))))))"

definition de_echo :: "int \<Rightarrow> (world, unit) prog" where
  "de_echo sockfd = forever (de_echo_round sockfd) ()"

text \<open>No datagram is ever annotated: every round is an echo of its first 20 bytes.\<close>

lemma de_echo_round_plain:
  "de_echo_round sockfd u = andThen (Recvfrom_flags sockfd 20 0) (\<lambda>(mesg, _, cliaddr, _).
     andThen (Sock_ntop False (\<lambda>_. []) cliaddr (sa_len cliaddr)) (\<lambda>str.
     seq (print ''%d-byte datagram from %s'' (int (length mesg) # map of_char str))
    (seq (print '''' []) (Sendto sockfd mesg 0 cliaddr))))"
  by (rule ext) (auto simp: de_echo_round_def Recvfrom_flags_def recvfrom_flags_def only_if_def andThen_apply
      sys_apply split: list.split prod.split sum.split)

lemma eats_de_echo: "eats P (de_echo_round sockfd u)"
  by (auto simp: de_echo_round_def Recvfrom_flags_def recvfrom_flags_def If_indextoname_def Inet_ntop_def
      intro!: eats_first eats_intros lawful_intros split: option.split)

section \<open>What the list contains\<close>

lemma lawful_free [lawful_intros]: "lawful (free_ptr p)"
  unfolding free_ptr_def by (intro lawful_intros)

interpretation ifconf_w: consuming "ifconf_round sockfd" for sockfd
  by unfold_locales (auto simp: ifconf_round_def Let_def intro!: eats_first eats_intros lawful_intros)

text \<open>The flags that the kernel has reported, in a trace; and the memory taken and given back.\<close>

definition short :: "int \<Rightarrow> int" where
  "short i = sint (word_of_int i :: u16)"

definition flag_resps :: "event list \<Rightarrow> int list" where
  "flag_resps tr = concat (map (\<lambda>ev. case ev of
     Did (C_ioctl fd request) r \<Rightarrow> if request = SIOCGIFFLAGS then [short (aux r 0)] else [] | _ \<Rightarrow> []) tr)"

definition taken :: "event list \<Rightarrow> int multiset" where
  "taken tr = mset (concat (map (\<lambda>ev. case ev of
     Did (C_lib f args bs) r \<Rightarrow> if f = ''malloc'' \<or> f = ''calloc'' then [r_val r] else [] | _ \<Rightarrow> []) tr))"

definition given :: "event list \<Rightarrow> int multiset" where
  "given tr = mset (concat (map (\<lambda>ev. case ev of
     Did (C_lib f args bs) r \<Rightarrow> if f = ''free'' then args else [] | _ \<Rightarrow> []) tr))"

lemma views_simps [simp]:
  "flag_resps [] = []" "flag_resps (tr @ tr') = flag_resps tr @ flag_resps tr'"
  "taken [] = {#}" "taken (tr @ tr') = taken tr + taken tr'"
  "given [] = {#}" "given (tr @ tr') = given tr + given tr'"
  by (simp_all add: flag_resps_def taken_def given_def)

lemma views_Cons [simp]:
  "NO_MATCH [] tr \<Longrightarrow> flag_resps (ev # tr) = flag_resps [ev] @ flag_resps tr"
  "NO_MATCH [] tr \<Longrightarrow> taken (ev # tr) = taken [ev] + taken tr"
  "NO_MATCH [] tr \<Longrightarrow> given (ev # tr) = given [ev] + given tr"
  by (simp_all add: flag_resps_def taken_def given_def)

lemma views_event [simp]:
  "flag_resps [Did (C_ioctl fd request) r] = (if request = SIOCGIFFLAGS then [short (aux r 0)] else [])"
  "flag_resps [Did (C_lib f args bs) r] = []"
  "taken [Did (C_ioctl fd request) r] = {#}" "given [Did (C_ioctl fd request) r] = {#}"
  "taken [Did (C_lib f args bs) r] = (if f = ''malloc'' \<or> f = ''calloc'' then {#r_val r#} else {#})"
  "given [Did (C_lib f args bs) r] = (if f = ''free'' then mset args else {#})"
  by (simp_all add: flag_resps_def taken_def given_def)

text \<open>The specification: the entries of the family, the aliases among them marked or left out; of these
  the ones that are up.\<close>

fun wanted :: "int \<Rightarrow> int \<Rightarrow> byte list \<Rightarrow> nat list \<Rightarrow> byte list \<Rightarrow> (byte list \<times> int \<times> sockaddr) list" where
  "wanted family doaliases buf [] lastname = []"
| "wanted family doaliases buf (ptr # ptrs) lastname =
     (if ifr_family buf ptr \<noteq> family then wanted family doaliases buf ptrs lastname
      else let name = ifr_name buf ptr in
        if lastname = name \<and> doaliases = 0 then wanted family doaliases buf ptrs lastname
        else (name, if lastname = name then IFI_ALIAS else 0, ifr_addr buf ptr) #
          wanted family doaliases buf ptrs name)"

definition up_ones :: "(byte list \<times> int \<times> sockaddr) list \<Rightarrow> int list \<Rightarrow> (byte list \<times> int \<times> int \<times> sockaddr option) list" where
  "up_ones es fs = map (\<lambda>((name, my, sa), flags). (take 15 name, my, flags, Some sa))
     (filter (\<lambda>(_, flags). flags AND IFF_UP \<noteq> 0) (zip es fs))"

definition ifi_view :: "ifi_info \<Rightarrow> byte list \<times> int \<times> int \<times> sockaddr option" where
  "ifi_view i = (ifi_name i, ifi_myflags i, ifi_flags i, map_option snd (ifi_addr i))"

definition addr_owns :: "(int \<times> sockaddr) option \<Rightarrow> int multiset" where
  "addr_owns a = (case a of None \<Rightarrow> {#} | Some (p, _) \<Rightarrow> {#p#})"

definition ifi_owns :: "ifi_info \<Rightarrow> int multiset" where
  "ifi_owns i = {#ifi_ptr i#} + addr_owns (ifi_addr i) + addr_owns (ifi_brdaddr i) + addr_owns (ifi_dstaddr i)"

definition owned :: "ifi_info list \<Rightarrow> int multiset" where
  "owned l = (\<Sum>i\<leftarrow>l. ifi_owns i)"

text \<open>What has happened since \<open>w\<close>: these flags were asked for, this memory was taken and that given back.\<close>

definition since :: "world \<Rightarrow> int list \<Rightarrow> int multiset \<Rightarrow> int multiset \<Rightarrow> world \<Rightarrow> bool" where
  "since w fs t g v \<longleftrightarrow> (\<exists>tr. trace v = trace w @ tr \<and> flag_resps tr = fs \<and> taken tr = t \<and> given tr = g)"

lemma since_trans: "since w fs t g v \<Longrightarrow> since v fs' t' g' u \<Longrightarrow> since w (fs @ fs') (t + t') (g + g') u"
  by (auto simp: since_def)

lemma since_refl [simp]: "since w [] {#} {#} w"
  by (auto simp: since_def)

lemma ifr_addr_inet: "ifr_family buf ptr = AF_INET \<Longrightarrow> \<exists>p a. ifr_addr buf ptr = Sin p a"
  by (simp add: ifr_addr_def Let_def)

lemma ifi_addrs_wp:
  "wp (ifi_addrs sockfd flags (Sin port a) ifi)
     (\<lambda>i v. ifi_view i = (ifi_name ifi, ifi_myflags ifi, ifi_flags ifi, Some (Sin port a)) \<and> ifi_ptr i = ifi_ptr ifi \<and>
        since w [] (addr_owns (ifi_addr i) + addr_owns (ifi_brdaddr i) + addr_owns (ifi_dstaddr i)) {#} v) (\<lambda>_ _. True) w"
  unfolding ifi_addrs_def ifi_other_def
  by (intro wp_intros)
    (auto simp: ifi_view_def since_def addr_owns_def SIOCGIFFLAGS_def SIOCGIFBRDADDR_def SIOCGIFDSTADDR_def)

lemma ifi_entry_wp:
  "wp (ifi_entry sockfd AF_INET d buf ptr lastname)
     (\<lambda>(last', ifi) v.
        if ifr_family buf ptr \<noteq> AF_INET \<or> lastname = ifr_name buf ptr \<and> d = 0
        then last' = lastname \<and> ifi = None \<and> since w [] {#} {#} v
        else last' = ifr_name buf ptr \<and> (\<exists>f. case ifi of
            None \<Rightarrow> f AND IFF_UP = 0 \<and> since w [f] {#} {#} v
          | Some i \<Rightarrow> f AND IFF_UP \<noteq> 0 \<and> since w [f] (ifi_owns i) {#} v \<and>
              ifi_view i = (take 15 (ifr_name buf ptr), if lastname = ifr_name buf ptr then IFI_ALIAS else 0, f,
                Some (ifr_addr buf ptr)))) (\<lambda>_ _. True) w"
proof (cases "ifr_family buf ptr = AF_INET")
  case True
  then obtain p a where sa: "ifr_addr buf ptr = Sin p a" using ifr_addr_inet by blast
  show ?thesis
    unfolding ifi_entry_def Let_def sa
    by (intro wp_intros wp_mono [OF ifi_addrs_wp])
      (use True in \<open>auto simp: sa ifi_view_def since_def ifi_owns_def short_def [symmetric]\<close>)
qed (simp add: ifi_entry_def wp_def)

lemma up_ones_Cons:
  "up_ones ((name, my, sa) # es) (f # fs) =
     (if f AND IFF_UP \<noteq> 0 then [(take 15 name, my, f, Some sa)] else []) @ up_ones es fs"
  by (simp add: up_ones_def)

lemma ifi_entries_wp:
  "wp (ifi_entries sockfd AF_INET d buf ptrs lastname)
     (\<lambda>l v. \<exists>fs. length fs = length (wanted AF_INET d buf ptrs lastname) \<and>
        map ifi_view l = up_ones (wanted AF_INET d buf ptrs lastname) fs \<and> since w fs (owned l) {#} v) (\<lambda>_ _. True) w"
proof (induction ptrs arbitrary: lastname w)
  case Nil
  then show ?case by (simp add: wp_def up_ones_def owned_def)
next
  case (Cons ptr ptrs)
  have rest: "wp (ifi_entries sockfd AF_INET d buf ptrs l') (\<lambda>rest. wp (ret (case ifi of None \<Rightarrow> rest | Some i \<Rightarrow> i # rest))
      (\<lambda>l v. \<exists>fs. length fs = length (wanted AF_INET d buf (ptr # ptrs) lastname) \<and>
        map ifi_view l = up_ones (wanted AF_INET d buf (ptr # ptrs) lastname) fs \<and> since w fs (owned l) {#} v)
      (\<lambda>_ _. True)) (\<lambda>_ _. True) u"
    if entry: "if ifr_family buf ptr \<noteq> AF_INET \<or> lastname = ifr_name buf ptr \<and> d = 0
        then l' = lastname \<and> ifi = None \<and> since w [] {#} {#} u
        else l' = ifr_name buf ptr \<and> (\<exists>f. case ifi of
            None \<Rightarrow> f AND IFF_UP = 0 \<and> since w [f] {#} {#} u
          | Some i \<Rightarrow> f AND IFF_UP \<noteq> 0 \<and> since w [f] (ifi_owns i) {#} u \<and>
              ifi_view i = (take 15 (ifr_name buf ptr), if lastname = ifr_name buf ptr then IFI_ALIAS else 0, f,
                Some (ifr_addr buf ptr)))" for l' ifi and u :: world
    using entry
    by (intro wp_mono [OF Cons.IH] wp_ret)
      (fastforce simp: Let_def up_ones_Cons owned_def length_Suc_conv split: if_splits option.splits
        dest: since_trans)+
  show ?case
    unfolding ifi_entries.simps
    by (intro wp_andThen wp_mono [OF ifi_entry_wp]) (auto intro!: wp_andThen rest simp del: wanted.simps split: prod.splits)
qed

text \<open>The buffers that were too small have been given back, the last one is still there; and it is what
  an \<open>ioctl\<close> of the trace has stored.\<close>

definition conf_read :: "int \<Rightarrow> byte list \<Rightarrow> int \<Rightarrow> event list \<Rightarrow> bool" where
  "conf_read sockfd buf len tr \<longleftrightarrow>
     (\<exists>r. Did (C_ioctl sockfd SIOCGIFCONF) r \<in> set tr \<and> 0 \<le> r_val r \<and> buf = r_data r \<and> len = aux r 0)"

lemma ifconf_loop_wp:
  "wp (loop (ifconf_round sockfd) x)
     (\<lambda>(p, buf, len) v. \<exists>g tr. trace v = trace w @ tr \<and> flag_resps tr = [] \<and> taken tr = add_mset p g \<and>
        given tr = g \<and> conf_read sockfd buf len tr) (\<lambda>_ _. True) w"
proof (rule ifconf_w.loop_wp [where I = "\<lambda>_ v. \<exists>tr. trace v = trace w @ tr \<and> flag_resps tr = [] \<and> taken tr = given tr"])
  fix x and v :: world
  assume "\<exists>tr. trace v = trace w @ tr \<and> flag_resps tr = [] \<and> taken tr = given tr"
  then obtain tr where tr: "trace v = trace w @ tr" "flag_resps tr = []" "taken tr = given tr" by blast
  show "wp (ifconf_round sockfd x) (\<lambda>z v. case z of
      Inl _ \<Rightarrow> \<exists>tr. trace v = trace w @ tr \<and> flag_resps tr = [] \<and> taken tr = given tr
    | Inr a \<Rightarrow> (case a of (p, buf, len) \<Rightarrow> \<lambda>v. \<exists>g tr. trace v = trace w @ tr \<and> flag_resps tr = [] \<and>
        taken tr = add_mset p g \<and> given tr = g \<and> conf_read sockfd buf len tr) v) (\<lambda>_ _. True) v"
    unfolding ifconf_round_def Let_def free_ptr_def
    by (cases x, simp only: prod.case, intro wp_intros)
      (auto simp: tr SIOCGIFFLAGS_def SIOCGIFCONF_def conf_read_def)
qed simp

lemma conf_read_append: "conf_read sockfd buf len tr \<Longrightarrow> conf_read sockfd buf len (tr @ tr')"
  "conf_read sockfd buf len tr \<Longrightarrow> conf_read sockfd buf len (tr' @ tr)"
  "conf_read sockfd buf len tr \<Longrightarrow> conf_read sockfd buf len (ev # tr)"
  by (auto simp: conf_read_def)

lemma free_addr_wp: "wp (free_addr a) (\<lambda>_. since w [] {#} (addr_owns a)) (\<lambda>_ _. True) w"
  unfolding free_addr_def free_ptr_def
  by (cases a) (auto simp: addr_owns_def since_def intro!: wp_intros)

lemma free_ifi_info_wp: "wp (free_ifi_info l) (\<lambda>_. since w [] {#} (owned l)) (\<lambda>_ _. True) w"
proof (induction l arbitrary: w)
  case Nil
  then show ?case by (simp add: wp_def owned_def)
next
  case (Cons i l)
  show ?case
    unfolding free_ifi_info.simps free_ptr_def
    by (intro wp_intros wp_mono [OF free_addr_wp] wp_mono [OF Cons.IH])
      (auto simp: since_def owned_def ifi_owns_def union_assoc union_commute union_lcomm)
qed

definition ifi_result :: "int \<Rightarrow> ifi_info list \<Rightarrow> event list \<Rightarrow> bool" where
  "ifi_result d l tr \<longleftrightarrow> (\<exists>sockfd buf len. conf_read sockfd buf len tr \<and>
     (let es = wanted AF_INET d buf (ifr_ptrs len) [] in
        length (flag_resps tr) = length es \<and> map ifi_view l = up_ones es (flag_resps tr)))"

lemma ifi_result_since:
  assumes "ifi_result d l (trace w)" and "since w [] t g v"
  shows "ifi_result d l (trace v)"
  using assms by (fastforce simp: ifi_result_def since_def intro: conf_read_append)

lemma get_ifi_info_wp:
  assumes "trace w = []"
  shows "wp (get_ifi_info AF_INET d) (\<lambda>l v. ifi_result d l (trace v) \<and> taken (trace v) = owned l + given (trace v))
    (\<lambda>_ _. True) w"
proof -
  have rest: "wp (andThen (ifi_entries fd AF_INET d buf (ifr_ptrs len) []) (\<lambda>l. seq (free_ptr p) (ret l)))
      (\<lambda>l v. ifi_result d l (trace v) \<and> taken (trace v) = owned l + given (trace v)) (\<lambda>_ _. True) v"
    if tr: "flag_resps (trace v) = []" "taken (trace v) = add_mset p (given (trace v))" "conf_read fd buf len (trace v)"
    for fd buf len p and v :: world
    unfolding free_ptr_def
  proof (intro wp_intros wp_mono [OF ifi_entries_wp])
    fix l r and u :: world
    assume "\<exists>fs. length fs = length (wanted AF_INET d buf (ifr_ptrs len) []) \<and>
        map ifi_view l = up_ones (wanted AF_INET d buf (ifr_ptrs len) []) fs \<and> since v fs (owned l) {#} u"
    then obtain fs where fs: "length fs = length (wanted AF_INET d buf (ifr_ptrs len) [])"
      "map ifi_view l = up_ones (wanted AF_INET d buf (ifr_ptrs len) []) fs" "since v fs (owned l) {#} u" by blast
    then have "ifi_result d l (trace u)"
      unfolding ifi_result_def Let_def using tr
      by (intro exI [of _ fd] exI [of _ buf] exI [of _ len]) (auto simp: since_def intro: conf_read_append)
    moreover from fs(3) tr(2) have "taken (trace u) = add_mset p (owned l + given (trace u))"
      by (auto simp: since_def)
    moreover have "ifi_result d l (trace (took (C_lib ''free'' [p] []) r u))"
      by (rule ifi_result_since [OF calculation(1), of "{#}" "{#p#}"]) (simp add: since_def)
    ultimately show "ifi_result d l (trace (took (C_lib ''free'' [p] []) r u)) \<and>
        taken (trace (took (C_lib ''free'' [p] []) r u)) = owned l + given (trace (took (C_lib ''free'' [p] []) r u))"
      by simp
  qed simp_all
  show ?thesis
    unfolding get_ifi_info_def
  proof (intro wp_andThen socket_w.wp_call)
    fix r
    let ?v = "took (C_socket AF_INET SOCK_DGRAM 0) r w"
    have none: "flag_resps (trace ?v) = []" "taken (trace ?v) = {#}" "given (trace ?v) = {#}"
      using assms by (simp_all add: flag_resps_def taken_def given_def)
    show "wp (loop (ifconf_round (r_val r)) (100 * sizeof_ifreq, 0)) (\<lambda>x. wp (case x of (p, buf, ifc_len) \<Rightarrow>
        andThen (ifi_entries (r_val r) AF_INET d buf (ifr_ptrs ifc_len) []) (\<lambda>l. seq (free_ptr p) (ret l)))
        (\<lambda>l v. ifi_result d l (trace v) \<and> taken (trace v) = owned l + given (trace v)) (\<lambda>_ _. True)) (\<lambda>_ _. True) ?v"
      by (rule wp_mono [OF ifconf_loop_wp]) (use none in \<open>auto intro!: rest simp: conf_read_def\<close>)
  qed simp_all
qed

lemma get_then_free_wp:
  assumes "trace w = []"
  shows "wp (andThen (get_ifi_info AF_INET d) (\<lambda>l. seq (free_ifi_info l) (ret l)))
    (\<lambda>l v. ifi_result d l (trace v) \<and> given (trace v) = taken (trace v)) (\<lambda>_ _. True) w"
proof (intro wp_andThen wp_mono [OF get_ifi_info_wp [OF assms]])
  fix l and v :: world
  assume got: "ifi_result d l (trace v) \<and> taken (trace v) = owned l + given (trace v)"
  show "wp (free_ifi_info l) (\<lambda>_. wp (ret l) (\<lambda>l v. ifi_result d l (trace v) \<and> given (trace v) = taken (trace v))
      (\<lambda>_ _. True)) (\<lambda>_ _. True) v"
  proof (rule wp_mono [OF free_ifi_info_wp])
    fix u :: world
    assume freed: "since v [] {#} (owned l) u"
    with got have "ifi_result d l (trace u)" using ifi_result_since by blast
    moreover have "given (trace u) = taken (trace u)"
      using got freed by (auto simp: since_def union_commute)
    ultimately show "wp (ret l) (\<lambda>l v. ifi_result d l (trace v) \<and> given (trace v) = taken (trace v)) (\<lambda>_ _. True) u"
      by (intro wp_ret) simp
  qed simp
qed simp

section \<open>The step through the table\<close>

text \<open>The table as the kernel stores it: one entry after the other, each of \<open>stride\<close> bytes. On x86-64
  Linux these are the 40 bytes of a \<open>struct ifreq\<close>, whose union is longer than a \<open>sockaddr\<close>.\<close>

definition kernel_entry :: "nat \<Rightarrow> byte list \<times> u16 \<times> u32 \<Rightarrow> byte list" where
  "kernel_entry stride = (\<lambda>(name, port, a). name @ replicate (16 - length name) 0 @ [2, 0] @
     bytes16 port @ bytes32 a @ replicate (stride - 24) 0)"

definition kernel_table :: "nat \<Rightarrow> (byte list \<times> u16 \<times> u32) list \<Rightarrow> byte list" where
  "kernel_table stride es = concat (map (kernel_entry stride) es)"


text \<open>Names with the label of an alias, like \<open>eth0:1\<close>; what is before the colon is the interface.\<close>

definition label_name :: "nat \<Rightarrow> byte list \<Rightarrow> bool" where
  "label_name k name \<longleftrightarrow> name \<noteq> [] \<and> length name \<le> k \<and> k \<le> 15 \<and> (\<forall>b\<in>set name. 32 < b)"

definition interface_of :: "byte list \<Rightarrow> byte list" where
  "interface_of name = takeWhile (\<lambda>b. b \<noteq> 58) name"


lemma length_kernel_entry: "length (fst e) \<le> 16 \<Longrightarrow> 24 \<le> stride \<Longrightarrow> length (kernel_entry stride e) = stride"
  by (cases e) (simp add: kernel_entry_def)

lemma byte_at_table:
  assumes "\<forall>e\<in>set es. label_name k (fst e)" and "24 \<le> stride" and "q < length es" and "r < stride"
  shows "ifr_byte (kernel_table stride es) (stride * q + r) = kernel_entry stride (es ! q) ! r"
  using assms(1,3)
proof (induction es arbitrary: q)
  case (Cons e es)
  have len: "length (kernel_entry stride e) = stride"
    using Cons.prems(1) assms(2) by (intro length_kernel_entry) (auto simp: label_name_def)
  show ?case
  proof (cases q)
    case 0
    then show ?thesis using len assms(4) by (simp add: kernel_table_def ifr_byte_def nth_append)
  next
    case (Suc m)
    then have "ifr_byte (kernel_table stride (e # es)) (stride * q + r) = ifr_byte (kernel_table stride es) (stride * m + r)"
      using len by (simp add: kernel_table_def ifr_byte_def nth_append algebra_simps)
    then show ?thesis using Cons Suc by simp
  qed
qed simp

lemma le16_2: "uint (le16 a b) = 2 \<longleftrightarrow> a = 2 \<and> b = 0"
proof
  assume "uint (le16 a b) = 2"
  then have "le16 a b = 2" by (metis word_of_int_numeral word_of_int_uint)
  then have "[a, b] = bytes16 2" by (metis bytes16_le16)
  then show "a = 2 \<and> b = 0" by (simp add: bytes16_def)
next
  assume "a = 2 \<and> b = 0"
  then show "uint (le16 a b) = 2" by (simp add: le16_def)
qed

lemma kernel_entry_nth:
  assumes "label_name k (fst e)" and "24 \<le> stride"
  shows "r < 16 \<Longrightarrow> kernel_entry stride e ! r = (if r < length (fst e) then fst e ! r else 0)"
    and "kernel_entry stride e ! 16 = 2" "kernel_entry stride e ! 17 = 0"
    and "24 \<le> r \<Longrightarrow> r < stride \<Longrightarrow> kernel_entry stride e ! r = 0"
    and "i < 2 \<Longrightarrow> kernel_entry stride e ! (18 + i) = bytes16 (fst (snd e)) ! i"
    and "i < 4 \<Longrightarrow> kernel_entry stride e ! (20 + i) = bytes32 (snd (snd e)) ! i"
  using assms by (cases e; auto simp: kernel_entry_def label_name_def nth_append)+

lemma entry_at_table:
  assumes es: "\<forall>e\<in>set es. label_name k (fst e)" and "24 \<le> stride" and q: "q < length es"
  shows "ifr_family (kernel_table stride es) (stride * q) = AF_INET"
    and "ifr_name (kernel_table stride es) (stride * q) = interface_of (fst (es ! q))"
    and "ifr_addr (kernel_table stride es) (stride * q) = Sin (fst (snd (es ! q))) (snd (snd (es ! q)))"
proof -
  have label: "label_name k (fst (es ! q))" using es q by auto
  note at = byte_at_table [OF es assms(2) q]
  show inet: "ifr_family (kernel_table stride es) (stride * q) = AF_INET"
    using assms(2) at [of 16] at [of 17] kernel_entry_nth(2,3) [OF label assms(2)]
    by (simp add: ifr_family_def AF_INET_def le16_2)
  let ?n = "fst (es ! q)"
  have "map (\<lambda>i. ifr_byte (kernel_table stride es) (stride * q + i)) [0..<16] = ?n @ replicate (16 - length ?n) 0"
    using label assms(2) at kernel_entry_nth(1) [OF label assms(2)]
    by (intro nth_equalityI) (auto simp: label_name_def nth_append)
  moreover have "cstr (?n @ replicate (16 - length ?n) 0) = ?n"
    using label by (cases "16 - length ?n") (auto simp: label_name_def intro!: cstr_id)
  ultimately show "ifr_name (kernel_table stride es) (stride * q) = interface_of ?n"
    by (simp add: ifr_name_def interface_of_def)
  have "ifr_byte (kernel_table stride es) (stride * q + (18 + i)) = bytes16 (fst (snd (es ! q))) ! i" if "i < 2" for i
    using that assms(2) at [of "18 + i"] kernel_entry_nth(5) [OF label assms(2) that] by simp
  from this [of 0] this [of 1] have "le16 (ifr_byte (kernel_table stride es) (stride * q + 18)) (ifr_byte (kernel_table stride es) (stride * q + 19)) =
      fst (snd (es ! q))"
    by (simp add: bytes16_def le16_bytes16)
  moreover have "ifr_byte (kernel_table stride es) (stride * q + (20 + i)) = bytes32 (snd (snd (es ! q))) ! i" if "i < 4" for i
    using that assms(2) at [of "20 + i"] kernel_entry_nth(6) [OF label assms(2) that] by simp
  from this [of 0] this [of 1] this [of 2] this [of 3]
  have "le32 (ifr_byte (kernel_table stride es) (stride * q + 20)) (ifr_byte (kernel_table stride es) (stride * q + 21))
      (ifr_byte (kernel_table stride es) (stride * q + 22)) (ifr_byte (kernel_table stride es) (stride * q + 23)) = snd (snd (es ! q))"
    by (simp add: bytes32_def le32_bytes32)
  ultimately show "ifr_addr (kernel_table stride es) (stride * q) = Sin (fst (snd (es ! q))) (snd (snd (es ! q)))"
    using inet by (simp add: ifr_addr_def Let_def add.assoc)
qed



lemma missed_at_table:
  assumes es: "\<forall>e\<in>set es. label_name 8 (fst e)" and j: "4 * j + 3 < length es" and i: "i \<in> {1, 2, 3, 4}"
  shows "ifr_family (kernel_table 40 es) (32 * (5 * j + i)) \<noteq> AF_INET"
proof -
  have at: "ifr_byte (kernel_table 40 es) (40 * q + r) = kernel_entry 40 (es ! q) ! r" if "q < length es" "r < 40" for q r
    by (rule byte_at_table [OF es _ that]) simp
  have plain: "label_name 8 (fst (es ! q))" if "q < length es" for q using es that by auto
  have zero: "kernel_entry 40 (es ! q) ! r = 0" if "q < length es" "24 \<le> r \<or> 8 \<le> r \<and> r < 16" "r < 40" for q r
    using kernel_entry_nth(1,4) [OF plain [OF that(1)], of 40 r] plain [OF that(1)] that(2,3)
    by (auto simp: label_name_def)
  have first: "kernel_entry 40 (es ! q) ! 0 \<noteq> 2" if "q < length es" for q
  proof -
    have "32 < fst (es ! q) ! 0" "fst (es ! q) \<noteq> []"
      using plain [OF that] by (auto simp: label_name_def)
    then show ?thesis
      using kernel_entry_nth(1) [OF plain [OF that], of 40 0] by auto
  qed
  have split: "32 * (5 * j + 1) + 16 = 40 * (4 * j + 1) + 8" "32 * (5 * j + 2) + 16 = 40 * (4 * j + 2) + 0"
    "32 * (5 * j + 3) + 16 = 40 * (4 * j + 2) + 32" "32 * (5 * j + 4) + 16 = 40 * (4 * j + 3) + 24" by simp_all
  have "ifr_byte (kernel_table 40 es) (32 * (5 * j + i) + 16) \<noteq> 2"
    using i j split at [of "4 * j + 1" 8] at [of "4 * j + 2" 0] at [of "4 * j + 2" 32] at [of "4 * j + 3" 24]
      zero [of "4 * j + 1" 8] zero [of "4 * j + 2" 32] zero [of "4 * j + 3" 24] first [of "4 * j + 2"]
    by (elim insertE) auto
  then show ?thesis by (simp add: ifr_family_def AF_INET_def le16_2)
qed

lemma filter_fifths:
  assumes "\<And>j. j < n \<Longrightarrow> P (32 * (5 * j))" and "\<And>j i. j < n \<Longrightarrow> i \<in> {1, 2, 3, 4} \<Longrightarrow> \<not> P (32 * (5 * j + i))"
  shows "filter P (map ((*) 32) [0..<5 * n]) = map (\<lambda>j. 32 * (5 * j)) [0..<n]"
  using assms
proof (induction n)
  case (Suc n)
  have "[0..<5 * Suc n] = [0..<5 * n] @ map (\<lambda>i. 5 * n + i) [0, 1, 2, 3, 4]"
    using upt_add_eq_append [of 0 "5 * n" 5] by (simp add: upt_conv_Cons add.commute [of 5])
  moreover have "filter P (map ((*) 32) (map (\<lambda>i. 5 * n + i) [0, 1, 2, 3, 4])) = [32 * (5 * n)]"
    using Suc.prems(1) [of n] Suc.prems(2) [of n 1] Suc.prems(2) [of n 2] Suc.prems(2) [of n 3] Suc.prems(2) [of n 4]
    by simp
  ultimately show ?case using Suc by simp
qed simp

text \<open>Where the code finds entries: at all of them when they are 32 bytes apart, at every fourth of the 40-byte
  entries of x86-64 Linux.\<close>

lemma found_32:
  assumes "\<forall>e\<in>set es. label_name k (fst e)"
  shows "filter (\<lambda>p. ifr_family (kernel_table 32 es) p = AF_INET) (ifr_ptrs (32 * int (length es))) = map ((*) 32) [0..<length es]"
proof -
  have "ifr_ptrs (32 * int (length es)) = map ((*) 32) [0..<length es]"
    by (simp add: ifr_ptrs_def ifr_step_def nat_mult_distrib)
  then show ?thesis using entry_at_table(1) [OF assms, of 32] by (auto simp: filter_id_conv)
qed

lemma found_40:
  assumes es: "\<forall>e\<in>set es. label_name 8 (fst e)" and n: "length es = 4 * n"
  shows "filter (\<lambda>p. ifr_family (kernel_table 40 es) p = AF_INET) (ifr_ptrs (40 * int (length es))) = map (\<lambda>j. 40 * (4 * j)) [0..<n]"
proof -
  have "(nat (40 * int (length es)) + ifr_step - 1) div ifr_step = 5 * n"
    using n by (simp add: ifr_step_def nat_mult_distrib)
  then have ptrs: "ifr_ptrs (40 * int (length es)) = map ((*) 32) [0..<5 * n]" by (simp add: ifr_ptrs_def ifr_step_def)
  have at: "32 * (5 * j) = 40 * (4 * j)" for j :: nat by simp
  have "filter (\<lambda>p. ifr_family (kernel_table 40 es) p = AF_INET) (map ((*) 32) [0..<5 * n]) = map (\<lambda>j. 32 * (5 * j)) [0..<n]"
    using n by (intro filter_fifths missed_at_table [OF es]; (subst at, intro entry_at_table(1) [OF es])?) auto
  then show ?thesis unfolding ptrs by simp
qed


section \<open>The list of the interfaces\<close>

text \<open>The specification, on the entries as the kernel means them: for each the interface, without the label
  after the colon, whether it is a further address of the interface before it (which is left out unless
  aliases are asked for), and its address.\<close>

fun listed :: "bool \<Rightarrow> byte list \<Rightarrow> (byte list \<times> u16 \<times> u32) list \<Rightarrow> (byte list \<times> int \<times> sockaddr) list" where
  "listed aliases prev [] = []"
| "listed aliases prev ((name, port, a) # es) =
     (if interface_of name \<noteq> prev then (interface_of name, 0, Sin port a) # listed aliases (interface_of name) es
      else if aliases then (prev, IFI_ALIAS, Sin port a) # listed aliases prev es
      else listed aliases prev es)"

lemma wanted_filter:
  "wanted family d buf ptrs prev = wanted family d buf (filter (\<lambda>p. ifr_family buf p = family) ptrs) prev"
  by (induction ptrs arbitrary: prev) (auto simp: Let_def)

lemma wanted_listed:
  assumes "list_all2 (\<lambda>p e. ifr_family buf p = AF_INET \<and> ifr_name buf p = interface_of (fst e) \<and>
    ifr_addr buf p = Sin (fst (snd e)) (snd (snd e))) ptrs es"
  shows "wanted AF_INET d buf ptrs prev = listed (d \<noteq> 0) prev es"
  using assms by (induction arbitrary: prev rule: list_all2_induct) (auto simp: Let_def)

text \<open>What of the table the code sees, for each of the two sizes of an entry.\<close>

definition seen_entries :: "nat \<Rightarrow> (byte list \<times> u16 \<times> u32) list \<Rightarrow> (byte list \<times> u16 \<times> u32) list" where
  "seen_entries stride es = (if stride = 32 then es else map (\<lambda>j. es ! (4 * j)) [0..<length es div 4])"

lemma wanted_at_table:
  assumes "stride = 32 \<and> (\<forall>e\<in>set es. label_name 15 (fst e)) \<or>
      stride = 40 \<and> (\<forall>e\<in>set es. label_name 8 (fst e)) \<and> 4 dvd length es"
  shows "wanted AF_INET d (kernel_table stride es) (ifr_ptrs (int (stride * length es))) [] = listed (d \<noteq> 0) [] (seen_entries stride es)"
  using assms
proof (elim disjE conjE)
  assume stride: "stride = 32" and es: "\<forall>e\<in>set es. label_name 15 (fst e)"
  note at = entry_at_table [OF es, of 32]
  show ?thesis
    unfolding stride by (subst wanted_filter, rule wanted_listed)
      (simp add: found_32 [OF es] seen_entries_def list_all2_conv_all_nth at)
next
  assume stride: "stride = 40" and es: "\<forall>e\<in>set es. label_name 8 (fst e)" and "4 dvd length es"
  then obtain n where n: "length es = 4 * n" by (auto elim: dvdE)
  note at = entry_at_table [OF es, of 40]
  have found: "filter (\<lambda>p. ifr_family (kernel_table 40 es) p = AF_INET) (ifr_ptrs (int (40 * length es))) =
      map (\<lambda>j. 40 * (4 * j)) [0..<n]"
    using found_40 [OF es n] by simp
  have "ifr_family (kernel_table 40 es) (40 * (4 * j)) = AF_INET"
    "ifr_name (kernel_table 40 es) (40 * (4 * j)) = interface_of (fst (es ! (4 * j)))"
    "ifr_addr (kernel_table 40 es) (40 * (4 * j)) = Sin (fst (snd (es ! (4 * j)))) (snd (snd (es ! (4 * j))))" if "j < n" for j
    by (rule entry_at_table [OF es]; use that n in simp)+
  then show ?thesis
    unfolding stride by (subst wanted_filter, subst found, intro wanted_listed)
      (simp add: seen_entries_def list_all2_conv_all_nth n)
qed

text \<open>(C36) What \<open>get_ifi_info\<close> makes of the kernel's table of IPv4 addresses, a list of entries with a
  name, which may carry the label of an alias, a port and an address, stored one after the other. For each
  entry it sees it asks for the flags once, and it lists, in the order of the table, those that are up: the
  interface without the label, whether it is an alias, the flags and exactly the entry's address;
  a further entry of the same interface is marked as an alias, or left out when aliases are not asked
  for. It sees every entry if they are 32 bytes apart, and every fourth if they are 40 bytes
  apart, as on x86-64 Linux. Its memory is exactly what the list owns: freeing the list gives back
  everything that was allocated, once. (For the family \<open>AF_INET\<close>; names of at most 15 characters, 8 in the
  second case.)\<close>

theorem get_ifi_info_lists:
  assumes "andThen (get_ifi_info AF_INET doaliases) (\<lambda>l. seq (free_ifi_info l) (ret l)) w = (Inr l, w')" and "trace w = []"
    and table: "\<forall>fd r. Did (C_ioctl fd SIOCGIFCONF) r \<in> set (trace w') \<and> 0 \<le> r_val r \<longrightarrow>
      r_data r = kernel_table stride es \<and> aux r 0 = int (stride * length es)"
    and stride: "stride = 32 \<and> (\<forall>e\<in>set es. label_name 15 (fst e)) \<or>
      stride = 40 \<and> (\<forall>e\<in>set es. label_name 8 (fst e)) \<and> 4 dvd length es"
  shows "length (flag_resps (trace w')) = length (listed (doaliases \<noteq> 0) [] (seen_entries stride es)) \<and>
    map ifi_view l = up_ones (listed (doaliases \<noteq> 0) [] (seen_entries stride es)) (flag_resps (trace w')) \<and>
    given (trace w') = taken (trace w')"
proof -
  from wp_returns [OF get_then_free_wp [OF assms(2)] assms(1)] obtain fd buf len where
    conf: "conf_read fd buf len (trace w')" and "length (flag_resps (trace w')) = length (wanted AF_INET doaliases buf (ifr_ptrs len) [])"
    "map ifi_view l = up_ones (wanted AF_INET doaliases buf (ifr_ptrs len) []) (flag_resps (trace w'))"
    "given (trace w') = taken (trace w')"
    unfolding ifi_result_def Let_def by blast
  moreover from conf table have "buf = kernel_table stride es" "len = int (stride * length es)"
    unfolding conf_read_def by auto
  ultimately show ?thesis using wanted_at_table [OF stride, of doaliases] by simp
qed

text \<open>A table with two addresses of one interface.\<close>

definition eth_entries :: "(byte list \<times> u16 \<times> u32) list" where
  "eth_entries = [(lit ''eth0'', 0, 16777343), (lit ''eth0:1'', 0, 33554559)]"

definition eth_conf :: resp where
  "eth_conf = no_resp\<lparr>r_data := kernel_table 32 eth_entries, r_aux := [64]\<rparr>"

definition eth_example :: "resp list" where
  "eth_example = [ok 3, ok 1, eth_conf, ok 0, ok 1, eth_conf, no_resp\<lparr>r_aux := [73]\<rparr>, ok 2, ok 5,
     no_resp\<lparr>r_aux := [73]\<rparr>, ok 6, ok 7, ok 0, ok 0, ok 0, ok 0, ok 0]"

lemma ifconf_round_apply: "ifconf_round sockfd x w = (case x of (len, lastlen) \<Rightarrow> andThen (Malloc len) (\<lambda>buf.
     andThen (sys (C_ioctl sockfd SIOCGIFCONF)) (\<lambda>r. andThen get_errno (\<lambda>errno.
       let ifc_len = aux r 0 in
       if r_val r < 0 then
         if errno \<noteq> EINVAL \<or> lastlen \<noteq> 0 then err_sys ''ioctl error''
         else seq (free_ptr buf) (again (len + 10 * sizeof_ifreq, lastlen))
       else if ifc_len = lastlen then leave (buf, r_data r, ifc_len)
       else seq (free_ptr buf) (again (len + 10 * sizeof_ifreq, ifc_len)))))) w"
  by (simp add: ifconf_round_def split: prod.split)

theorem get_ifi_info_lists_witness:
  "\<exists>l w'. andThen (get_ifi_info AF_INET 1) (\<lambda>l. seq (free_ifi_info l) (ret l)) (start eth_example) = (Inr l, w') \<and>
     map ifi_view l = [(lit ''eth0'', 0, 73, Some (Sin 0 16777343)), (lit ''eth0'', IFI_ALIAS, 73, Some (Sin 0 33554559))] \<and>
     given (trace w') = taken (trace w')"
proof -
  have conf: "aux eth_conf 0 = 64" "r_val eth_conf = 0" "r_data eth_conf = kernel_table 32 eth_entries"
    by (simp_all add: eth_conf_def aux_def)
  have up: "aux (no_resp\<lparr>r_aux := [73]\<rparr>) 0 = 73" by (simp add: aux_def)
  let ?t = "kernel_table 32 eth_entries"
  have table: "ifr_family ?t 0 = AF_INET" "ifr_family ?t 32 = AF_INET" "ifr_name ?t 0 = lit ''eth0''" "ifr_name ?t 32 = lit ''eth0''"
    "ifr_addr ?t 0 = Sin 0 16777343" "ifr_addr ?t 32 = Sin 0 33554559"
    by code_simp+
  have ptrs: "ifr_ptrs 64 = [0, 32]" by (simp add: ifr_ptrs_def ifr_step_def upt_rec)
  have flags: "(73 :: int) AND IFF_UP \<noteq> 0" "(73 :: int) AND IFF_BROADCAST = 0" "(73 :: int) AND IFF_POINTOPOINT = 0"
    by (simp_all add: IFF_UP_def IFF_BROADCAST_def IFF_POINTOPOINT_def)
  have eth: "lit ''eth0'' \<noteq> []" by (simp add: lit_def)
  have "\<exists>l w'. andThen (get_ifi_info AF_INET 1) (\<lambda>l. seq (free_ifi_info l) (ret l)) (start eth_example) = (Inr l, w') \<and>
     flag_resps (trace w') = [73, 73] \<and>
     (\<forall>fd r. Did (C_ioctl fd SIOCGIFCONF) r \<in> set (trace w') \<and> 0 \<le> r_val r \<longrightarrow> r = eth_conf)"
    by (simp add: get_ifi_info_def Socket_def andThen_apply sys_apply eth_example_def ifconf_w.loop_unfold
        ifconf_round_apply Malloc_def Let_def conf free_ptr_def ptrs ifi_entry_def table Ioctl_def flags Calloc_def
        ifi_addrs_def free_addr_def up AF_INET_def eth)
      (auto simp: SIOCGIFCONF_def SIOCGIFFLAGS_def short_def flag_resps_def up)
  then obtain l w' where run: "andThen (get_ifi_info AF_INET 1) (\<lambda>l. seq (free_ifi_info l) (ret l)) (start eth_example) = (Inr l, w')"
    and fl: "flag_resps (trace w') = [73, 73]"
    and reads: "\<forall>fd r. Did (C_ioctl fd SIOCGIFCONF) r \<in> set (trace w') \<and> 0 \<le> r_val r \<longrightarrow> r = eth_conf" by blast
  have len: "length eth_entries = 2" by (simp add: eth_entries_def)
  have "list_all (\<lambda>e. label_name 15 (fst e)) eth_entries" by code_simp
  then have labels: "\<forall>e\<in>set eth_entries. label_name 15 (fst e)" by (simp add: list_all_iff)
  have "listed True [] eth_entries = [(lit ''eth0'', 0, Sin 0 16777343), (lit ''eth0'', IFI_ALIAS, Sin 0 33554559)]"
    by code_simp
  moreover have "length (flag_resps (trace w')) = length (listed True [] (seen_entries 32 eth_entries)) \<and>
      map ifi_view l = up_ones (listed True [] (seen_entries 32 eth_entries)) (flag_resps (trace w')) \<and>
      given (trace w') = taken (trace w')"
    by (rule get_ifi_info_lists [OF run, of 32 eth_entries, simplified]) (use reads conf len labels in auto)
  ultimately show ?thesis
    using run flags by (auto simp: fl seen_entries_def up_ones_def lit_def)
qed


end
