(* ===== verification/Multicast.thy ===== *)
theory Multicast
  imports Datagram_Echo
begin

text \<open>
  Multicast: \<open>mcast_join.cpp\<close> and \<open>mcast_set_loop.cpp\<close>, as built on Linux, which has the
  protocol-independent options \<open>MCAST_JOIN_GROUP\<close> and so on; the programs \<open>mcast/recv_send\<close>, which sends
  and receives, \<open>mcast/mysdr\<close>, which prints session announcements, and \<open>mcast/sntp\<close>, which compares
  its clock with that of a time server (built without \<open>MCAST\<close>).
\<close>

section \<open>Joining a group\<close>

definition MCAST_JOIN_GROUP :: int where "MCAST_JOIN_GROUP = 42"
definition MCAST_BLOCK_SOURCE :: int where "MCAST_BLOCK_SOURCE = 43"
definition MCAST_UNBLOCK_SOURCE :: int where "MCAST_UNBLOCK_SOURCE = 44"
definition MCAST_JOIN_SOURCE_GROUP :: int where "MCAST_JOIN_SOURCE_GROUP = 46"
definition IP_MULTICAST_LOOP :: int where "IP_MULTICAST_LOOP = 34"

text \<open>An address as part of an option value; a request is the interface with one or two of them.\<close>

fun sa_value :: "sockaddr \<Rightarrow> int list" where
  "sa_value (Sin p a) = [AF_INET, uint p, uint a]"
| "sa_value (Sin6 p a) = AF_INET6 # uint p # map uint a"
| "sa_value (Sun path) = AF_UNIX # map uint path"
| "sa_value (Sother f) = [f]"

definition sizeof_sockaddr_storage :: nat where "sizeof_sockaddr_storage = 128"

definition the_interface :: "byte list option \<Rightarrow> int \<Rightarrow> (world, int option) prog" where
  "the_interface ifname ifindex =
     (if 0 < ifindex then ret (Some ifindex)
      else case ifname of
          Some name \<Rightarrow> andThen (sys_int (C_lib ''if_nametoindex'' [] name)) (\<lambda>i.
            if i = 0 then seq (set_errno ENXIO) (ret None) else ret (Some i))
        | None \<Rightarrow> ret (Some 0))"

definition mcast_join ::
  "bool \<Rightarrow> int \<Rightarrow> sockaddr \<Rightarrow> nat \<Rightarrow> byte list option \<Rightarrow> int \<Rightarrow> (world, int) prog" where
  "mcast_join ipv6 sockfd grp grplen ifname ifindex =
     andThen (the_interface ifname ifindex) (\<lambda>gr_interface. case gr_interface of
         None \<Rightarrow> ret (-1)
       | Some i \<Rightarrow>
           if sizeof_sockaddr_storage < grplen then seq (set_errno EINVAL) (ret (-1))
           else sys_int (C_setsockopt sockfd (family_to_level ipv6 (sa_family grp)) MCAST_JOIN_GROUP
             (i # sa_value grp)))"

definition Mcast_join ::
  "bool \<Rightarrow> int \<Rightarrow> sockaddr \<Rightarrow> nat \<Rightarrow> byte list option \<Rightarrow> int \<Rightarrow> (world, unit) prog" where
  "Mcast_join ipv6 sockfd grp grplen ifname ifindex =
     andThen (mcast_join ipv6 sockfd grp grplen ifname ifindex) (\<lambda>n.
       if n < 0 then err_sys ''mcast_join error'' else ret ())"

definition mcast_join_source_group ::
  "bool \<Rightarrow> int \<Rightarrow> sockaddr \<Rightarrow> nat \<Rightarrow> sockaddr \<Rightarrow> nat \<Rightarrow> byte list option \<Rightarrow> int \<Rightarrow> (world, int) prog" where
  "mcast_join_source_group ipv6 sockfd src srclen grp grplen ifname ifindex =
     andThen (the_interface ifname ifindex) (\<lambda>gsr_interface. case gsr_interface of
         None \<Rightarrow> ret (-1)
       | Some i \<Rightarrow>
           if sizeof_sockaddr_storage < grplen \<or> sizeof_sockaddr_storage < srclen then
             seq (set_errno EINVAL) (ret (-1))
           else sys_int (C_setsockopt sockfd (family_to_level ipv6 (sa_family grp)) MCAST_JOIN_SOURCE_GROUP
             (i # sa_value grp @ sa_value src)))"

definition Mcast_join_source_group ::
  "bool \<Rightarrow> int \<Rightarrow> sockaddr \<Rightarrow> nat \<Rightarrow> sockaddr \<Rightarrow> nat \<Rightarrow> byte list option \<Rightarrow> int \<Rightarrow> (world, unit) prog" where
  "Mcast_join_source_group ipv6 sockfd src srclen grp grplen ifname ifindex =
     andThen (mcast_join_source_group ipv6 sockfd src srclen grp grplen ifname ifindex) (\<lambda>n.
       if n < 0 then err_sys ''mcast_join_source_group error'' else ret ())"

text \<open>Blocking and unblocking a source differ in the option only.\<close>

definition source_request ::
  "int \<Rightarrow> bool \<Rightarrow> int \<Rightarrow> sockaddr \<Rightarrow> nat \<Rightarrow> sockaddr \<Rightarrow> nat \<Rightarrow> (world, int) prog" where
  "source_request optname ipv6 sockfd src srclen grp grplen =
     (if sizeof_sockaddr_storage < grplen \<or> sizeof_sockaddr_storage < srclen then
        seq (set_errno EINVAL) (ret (-1))
      else sys_int (C_setsockopt sockfd (family_to_level ipv6 (sa_family grp)) optname
        (0 # sa_value grp @ sa_value src)))"

definition mcast_block_source :: "bool \<Rightarrow> int \<Rightarrow> sockaddr \<Rightarrow> nat \<Rightarrow> sockaddr \<Rightarrow> nat \<Rightarrow> (world, int) prog" where
  "mcast_block_source = source_request MCAST_BLOCK_SOURCE"

definition Mcast_block_source :: "bool \<Rightarrow> int \<Rightarrow> sockaddr \<Rightarrow> nat \<Rightarrow> sockaddr \<Rightarrow> nat \<Rightarrow> (world, unit) prog" where
  "Mcast_block_source ipv6 sockfd src srclen grp grplen =
     andThen (mcast_block_source ipv6 sockfd src srclen grp grplen) (\<lambda>n.
       if n < 0 then err_sys ''mcast_block_source error'' else ret ())"

definition mcast_unblock_source :: "bool \<Rightarrow> int \<Rightarrow> sockaddr \<Rightarrow> nat \<Rightarrow> sockaddr \<Rightarrow> nat \<Rightarrow> (world, int) prog" where
  "mcast_unblock_source = source_request MCAST_UNBLOCK_SOURCE"

definition Mcast_unblock_source :: "bool \<Rightarrow> int \<Rightarrow> sockaddr \<Rightarrow> nat \<Rightarrow> sockaddr \<Rightarrow> nat \<Rightarrow> (world, unit) prog" where
  "Mcast_unblock_source ipv6 sockfd src srclen grp grplen =
     andThen (mcast_unblock_source ipv6 sockfd src srclen grp grplen) (\<lambda>n.
       if n < 0 then err_sys ''mcast_unblock_source error'' else ret ())"

text \<open>The option takes an unsigned character.\<close>

definition mcast_set_loop :: "bool \<Rightarrow> int \<Rightarrow> int \<Rightarrow> (world, int) prog" where
  "mcast_set_loop ipv6 sockfd onoff = andThen (sockfd_to_family sockfd) (\<lambda>family.
     if family = AF_INET then sys_int (C_setsockopt sockfd 0 IP_MULTICAST_LOOP [uint (word_of_int onoff :: byte)])
     else if ipv6 \<and> family = AF_INET6 then
       sys_int (C_setsockopt sockfd 41 19 [uint (word_of_int onoff :: u32)])
     else seq (set_errno EAFNOSUPPORT) (ret (-1)))"

definition Mcast_set_loop :: "bool \<Rightarrow> int \<Rightarrow> int \<Rightarrow> (world, unit) prog" where
  "Mcast_set_loop ipv6 sockfd onoff = andThen (mcast_set_loop ipv6 sockfd onoff) (\<lambda>n.
     if n < 0 then err_sys ''mcast_set_loop error'' else ret ())"

section \<open>recv_send\<close>

text \<open>\<open>line\<close> has \<open>MAXLINE\<close> bytes, so the null byte after a datagram that fills it lies outside.\<close>

definition mcast_send_round :: "int \<Rightarrow> byte list \<Rightarrow> sockaddr \<Rightarrow> unit \<Rightarrow> (world, unit) prog" where
  "mcast_send_round sendfd line sadest _ = seq (Sendto sendfd line 0 sadest) (seq (sys (C_lib ''sleep'' [5] [])) (ret ()))"

definition send_all :: "int \<Rightarrow> sockaddr \<Rightarrow> (world, unit) prog" where
  "send_all sendfd sadest = andThen (sys (C_lib ''uname'' [] [])) (\<lambda>r.
     if r_val r < 0 then err_sys ''uname error''
     else andThen (sys_int (C_lib ''getpid'' [] [])) (\<lambda>pid.
       let line = take (MAXLINE - 1) (cstr (r_data r) @ lit '', '' @ lit (dec_int pid) @ [NEWLINE]) in
       forever (mcast_send_round sendfd line sadest) ()))"

definition mcast_recv_round :: "int \<Rightarrow> unit \<Rightarrow> (world, unit) prog" where
  "mcast_recv_round recvfd _ = andThen (Recvfrom recvfd MAXLINE 0) (\<lambda>(line, safrom).
     if length line = MAXLINE then halt (Undef ''line'')
     else andThen (Sock_ntop False (\<lambda>_. []) safrom (sa_len safrom)) (\<lambda>s.
       print ''from %s:%s'' (map of_char s @ map uint (cstr line))))"

definition recv_all :: "int \<Rightarrow> int \<Rightarrow> (world, unit) prog" where
  "recv_all recvfd salen = seq (Malloc salen) (forever (mcast_recv_round recvfd) ())"

definition recv_send_main :: "byte list list \<Rightarrow> (world, int) prog" where
  "recv_send_main argv =
     (if length argv \<noteq> 3 then err_quit ''usage: sendrecv <IP-multicast-address> <port#>''
      else andThen (Udp_client (argv ! 1) (argv ! 2)) (\<lambda>(sendfd, sasend, salen).
        andThen (Socket (sa_family sasend) SOCK_DGRAM 0) (\<lambda>recvfd.
        seq (Setsockopt recvfd SOL_SOCKET SO_REUSEADDR [1])
       (seq (Malloc (int salen))
       (seq (Bind recvfd sasend)
       (seq (Mcast_join False recvfd sasend salen None 0)
       (seq (Mcast_set_loop False sendfd 0)
       (andThen Fork (\<lambda>pid.
          seq (only_if (pid = 0) (recv_all recvfd (int salen)))
         (seq (send_all sendfd sasend) (ret 0)))))))))))"

section \<open>mysdr\<close>

definition SAP_VERSION_MASK :: u32 where "SAP_VERSION_MASK = 0xe0000000"
definition SAP_VERSION_SHIFT :: nat where "SAP_VERSION_SHIFT = 29"
definition SAP_IPV6 :: u32 where "SAP_IPV6 = 0x10000000"
definition SAP_DELETE :: u32 where "SAP_DELETE = 0x04000000"
definition SAP_ENCRYPTED :: u32 where "SAP_ENCRYPTED = 0x02000000"
definition SAP_COMPRESSED :: u32 where "SAP_COMPRESSED = 0x01000000"
definition SAP_AUTHLEN_MASK :: u32 where "SAP_AUTHLEN_MASK = 0x00ff0000"
definition SAP_AUTHLEN_SHIFT :: nat where "SAP_AUTHLEN_SHIFT = 16"
definition SAP_HASH_MASK :: u32 where "SAP_HASH_MASK = 0x0000ffff"

lemmas sap_defs = SAP_VERSION_MASK_def SAP_VERSION_SHIFT_def SAP_IPV6_def SAP_DELETE_def SAP_ENCRYPTED_def
  SAP_COMPRESSED_def SAP_AUTHLEN_MASK_def SAP_AUTHLEN_SHIFT_def SAP_HASH_MASK_def

definition sizeof_sap_packet :: nat where "sizeof_sap_packet = 4 + 4 + BUFFSIZE"

text \<open>What the packet's memory holds after a datagram: its bytes and a null byte over what was there,
  with the header converted to the order of the host.\<close>

definition sap_store :: "byte list \<Rightarrow> byte list \<Rightarrow> byte list" where
  "sap_store buf bs = (let buf = bs @ [NUL] @ drop (Suc (length bs)) buf in
     bytes32 (ntohl (addr4 buf)) @ drop 4 buf)"

definition sap_header :: "byte list \<Rightarrow> u32" where
  "sap_header buf = addr4 buf"

text \<open>Where the payload begins: after the authentication data, and after the type of the payload when
  it is \<open>application/sdp\<close>.\<close>

definition sap_payload :: "byte list \<Rightarrow> byte list" where
  "sap_payload buf = (let p = drop (8 + unat (drop_bit SAP_AUTHLEN_SHIFT (sap_header buf AND SAP_AUTHLEN_MASK))) buf in
     cstr (if strcmp p (lit ''application/sdp'' @ [NUL]) = 0 then drop 16 p else p))"

definition sap_show :: "byte list \<Rightarrow> (world, unit) prog" where
  "sap_show buf = (let header = sap_header buf in
     if 1 < drop_bit SAP_VERSION_SHIFT (header AND SAP_VERSION_MASK) then err_msg ''... version field not 1 (0x%08x)''
     else if header AND SAP_IPV6 \<noteq> 0 then err_msg ''...IPv6''
     else if header AND (SAP_DELETE OR SAP_ENCRYPTED OR SAP_COMPRESSED) \<noteq> 0 then
       err_msg ''... can't parse this packet type (0x%08x)''
     else print ''%s'' (map uint (sap_payload buf)))"

definition sdr_round :: "int \<Rightarrow> byte list \<Rightarrow> (world, byte list) prog" where
  "sdr_round sockfd buf = andThen (Recvfrom sockfd (sizeof_sap_packet - 1) 0) (\<lambda>(bs, sa).
     let buf = sap_store buf bs in
     andThen (Sock_ntop False (\<lambda>_. []) sa (sa_len sa)) (\<lambda>s.
     seq (print ''From %s hash 0x%04x'' (map of_char s @ [uint (sap_header buf AND SAP_HASH_MASK)]))
    (seq (sap_show buf) (ret buf))))"

text \<open>\<open>garbage\<close> is what the packet's memory holds at first.\<close>

definition sdr_loop :: "byte list \<Rightarrow> int \<Rightarrow> int \<Rightarrow> (world, unit) prog" where
  "sdr_loop garbage sockfd salen = seq (Malloc salen) (forever (sdr_round sockfd) garbage)"

definition mysdr_main :: "byte list \<Rightarrow> byte list list \<Rightarrow> (world, int) prog" where
  "mysdr_main garbage argv = seq (print ''Hello, World!'' [])
     (andThen (if length argv = 1 then Udp_client (lit ''sap.mcast.net'') (lit ''9875'')
         else if length argv = 4 then Udp_client (argv ! 1) (argv ! 2)
         else err_quit ''usage: mysdr <mcast-addr> <port#> <interface-name>'') (\<lambda>(sockfd, sa, salen).
       seq (Setsockopt sockfd SOL_SOCKET SO_REUSEADDR [1])
      (seq (Bind sockfd sa)
      (seq (Mcast_join False sockfd sa salen (if length argv = 4 then Some (argv ! 3) else None) 0)
      (seq (sdr_loop garbage sockfd (int salen)) (ret 0))))))"

section \<open>sntp\<close>

definition JAN_1970 :: u64 where "JAN_1970 = 2208988800"
definition VERSION_MASK :: byte where "VERSION_MASK = 0x38"
definition MODE_MASK :: byte where "MODE_MASK = 0x07"
definition MODE_CLIENT :: byte where "MODE_CLIENT = 3"
definition sizeof_ntpdata :: int where "sizeof_ntpdata = 48"

text \<open>The 32-bit word at an offset of the packet. The fraction of a second is converted to microseconds
  in \<open>double\<close>s; no step of it loses a bit, because the product has at most 52, so the conversion back
  to an integer is a division that rounds down.\<close>

definition ntp_word :: "byte list \<Rightarrow> nat \<Rightarrow> u32" where
  "ntp_word buf i = addr4 (drop i buf)"

definition frac_usec :: "u32 \<Rightarrow> u32" where
  "frac_usec fraction = word_of_nat (unat fraction * 1000000 div 2 ^ 32)"

definition sntp_diff :: "u32 \<Rightarrow> u32 \<Rightarrow> int \<times> int \<Rightarrow> u32" where
  "sntp_diff int_part fraction now =
     (let nsec = ucast (ucast int_part - JAN_1970 :: u64) :: u32;
          useci = frac_usec fraction;
          tv_sec = fst now - uint nsec;
          tv_usec = snd now - uint useci;
          (tv_sec, tv_usec) = (if tv_usec < 0 then (tv_sec - 1, tv_usec + 1000000) else (tv_sec, tv_usec))
      in word_of_int (tv_sec * 1000000 + tv_usec))"

definition sntp_proc :: "byte list \<Rightarrow> int \<Rightarrow> int \<times> int \<Rightarrow> (world, unit) prog" where
  "sntp_proc buf n now =
     (if n < sizeof_ntpdata then print ''packet too small: %ld bytes'' [n]
      else let status = buf ! 0; version = drop_bit 3 (status AND VERSION_MASK); mode = status AND MODE_MASK in
        seq (print ''v%d, mode %d, strat %d, '' [uint version, uint mode, uint (buf ! 1)])
       (if mode = MODE_CLIENT then print ''client'' []
        else print ''clock difference = %d usec''
          [sint (sntp_diff (ntohl (ntp_word buf 40)) (ntohl (ntp_word buf 44)) now)]))"

definition sntp_round :: "int \<Rightarrow> unit \<Rightarrow> (world, unit) prog" where
  "sntp_round sockfd _ = andThen (Recvfrom sockfd MAXLINE 0) (\<lambda>(buf, _).
     andThen Gettimeofday (\<lambda>now. sntp_proc buf (int (length buf)) now))"

definition sntp_main :: "byte list list \<Rightarrow> (world, int) prog" where
  "sntp_main argv =
     (if length argv \<noteq> 2 then err_quit ''usage: ssntp <IPAddress>''
      else andThen (Udp_client (argv ! 1) (lit ''ntp'')) (\<lambda>(sockfd, mcastsa, salen).
        seq (Malloc (int salen))
       (seq (Bind sockfd (sock_set_wild False mcastsa))
       (seq (Malloc (int salen)) (forever (sntp_round sockfd) ())))))"

section \<open>The loops make progress\<close>

lemma lawful_shows [lawful_intros]: "lawful (sap_show buf)" "lawful (sntp_proc buf n now)"
  unfolding sap_show_def sntp_proc_def Let_def by (intro lawful_intros)+

lemma eats_multicast [eats_intros]:
  "eats P (mcast_send_round fd line sa u)" "eats Q (mcast_recv_round fd u)" "eats R (sdr_round fd buf)" "eats S (sntp_round fd u)"
  unfolding mcast_send_round_def mcast_recv_round_def sdr_round_def sntp_round_def Let_def
  by (auto intro!: eats_first eats_intros lawful_intros)

section \<open>What the programs print\<close>

text \<open>The time of the server in microseconds since 1970, as the packet gives it: 32 bits of seconds since
  1900 and a 32-bit fraction.\<close>

definition server_usec :: "byte list \<Rightarrow> int" where
  "server_usec buf = (uint (ntohl (ntp_word buf 40)) - 2208988800) mod 2 ^ 32 * 1000000 +
     uint (ntohl (ntp_word buf 44)) * 1000000 div 2 ^ 32"

lemma uint_frac_usec: "uint (frac_usec f) = uint f * 1000000 div 2 ^ 32"
proof -
  have "unat f < 2 ^ 32" using unsigned_less [of f, where ?'a = nat] by simp
  then have "unat f * 1000000 div 2 ^ 32 < 2 ^ 32" by (simp add: less_mult_imp_div_less)
  then have "uint (frac_usec f) = int (unat f * 1000000 div 2 ^ 32)"
    by (simp only: frac_usec_def unsigned_of_nat take_bit_nat_eq_self_iff) (simp add: take_bit_nat_eq_self)
  then show ?thesis by (simp add: zdiv_int)
qed

lemma uint_nsec: "uint (ucast (ucast x - JAN_1970 :: u64) :: u32) = (uint (x :: u32) - 2208988800) mod 2 ^ 32"
proof -
  have "uint (ucast x - JAN_1970 :: u64) = (uint x - 2208988800) mod 2 ^ 64"
    by (simp add: JAN_1970_def uint_word_ariths unsigned_ucast_eq take_bit_eq_mod mod_diff_left_eq)
  then show ?thesis
    by (simp add: unsigned_ucast_eq take_bit_eq_mod mod_mod_cancel)
qed

lemma sntp_diff_wraps: "sntp_diff i f (sec, usec) =
    word_of_int (sec * 1000000 + usec - ((uint i - 2208988800) mod 2 ^ 32 * 1000000 + uint f * 1000000 div 2 ^ 32))"
  by (simp add: sntp_diff_def Let_def uint_nsec uint_frac_usec algebra_simps)

text \<open>(C38) For every packet of a server \<open>sntp_proc\<close> prints its version, mode and stratum and the difference
  of the clocks in microseconds. It computes the difference in 32 bits: what it prints is the number
  between \<open>- (2 ^ 31)\<close> and \<open>2 ^ 31\<close> that is congruent to the difference modulo \<open>2 ^ 32\<close>. So whenever the
  clocks differ by less than \<open>2 ^ 31\<close> microseconds, about 36 minutes, it is exact, whatever wraps in
  between.\<close>

theorem sntp_clock_difference:
  assumes "48 \<le> length buf" and "buf ! 0 AND MODE_MASK \<noteq> MODE_CLIENT"
  shows "let diff = sec * 1000000 + usec - server_usec buf; shown = (diff + 2 ^ 31) mod 2 ^ 32 - 2 ^ 31 in
    sntp_proc buf (int (length buf)) (sec, usec) w = (Inr (), w\<lparr>trace := trace w @
      [Print ''v%d, mode %d, strat %d, '' [uint (drop_bit 3 (buf ! 0 AND VERSION_MASK)), uint (buf ! 0 AND MODE_MASK), uint (buf ! 1)],
       Print ''clock difference = %d usec'' [shown]]\<rparr>) \<and>
    - (2 ^ 31) \<le> shown \<and> shown < 2 ^ 31 \<and> (shown - diff) mod 2 ^ 32 = 0 \<and>
    (- (2 ^ 31) \<le> diff \<and> diff < 2 ^ 31 \<longrightarrow> shown = diff)"
proof -
  define diff where "diff = sec * 1000000 + usec - server_usec buf"
  define shown where "shown = (diff + 2 ^ 31) mod 2 ^ 32 - 2 ^ 31"
  have "sint (word_of_int diff :: u32) = shown"
    by (simp only: sint_sbintrunc') (simp add: signed_take_bit_eq_take_bit_shift take_bit_eq_mod shown_def)
  then have "sint (sntp_diff (ntohl (ntp_word buf 40)) (ntohl (ntp_word buf 44)) (sec, usec)) = shown"
    unfolding sntp_diff_wraps server_usec_def diff_def .
  with assms(1,2) have "sntp_proc buf (int (length buf)) (sec, usec) w = (Inr (), w\<lparr>trace := trace w @
      [Print ''v%d, mode %d, strat %d, '' [uint (drop_bit 3 (buf ! 0 AND VERSION_MASK)), uint (buf ! 0 AND MODE_MASK), uint (buf ! 1)],
       Print ''clock difference = %d usec'' [shown]]\<rparr>)"
    by (simp add: sntp_proc_def sizeof_ntpdata_def andThen_apply Let_def del: drop_bit_and)
  moreover have "- (2 ^ 31) \<le> shown" "shown < 2 ^ 31" by (simp_all add: shown_def)
  moreover have "shown - diff = - (2 ^ 32 * ((diff + 2 ^ 31) div 2 ^ 32))"
    by (simp add: shown_def minus_mult_div_eq_mod [symmetric])
  then have "(shown - diff) mod 2 ^ 32 = 0" by simp
  moreover have "shown = diff" if "- (2 ^ 31) \<le> diff" "diff < 2 ^ 31" using that by (simp add: shown_def)
  ultimately show ?thesis
    unfolding Let_def shown_def [symmetric] diff_def [symmetric] by blast
qed

text \<open>The clock of the server is a second and a half ahead.\<close>

definition ntp_example :: "byte list" where
  "ntp_example = [0x24, 1] @ replicate 38 0 @ [0xe8, 0, 0, 1, 0x80, 0, 0, 0]"

theorem sntp_clock_difference_witness:
  "sntp_proc ntp_example 48 (1683325312, 500000) (start []) = (Inr (), (start [])\<lparr>trace :=
     [Print ''v%d, mode %d, strat %d, '' [4, 4, 1], Print ''clock difference = %d usec'' [-1000000]]\<rparr>)"
proof -
  have "length ntp_example = 48" by (simp add: ntp_example_def)
  moreover have "server_usec ntp_example = 1683325313500000" by code_simp
  moreover have "ntp_example ! 0 AND MODE_MASK \<noteq> MODE_CLIENT" "uint (drop_bit 3 (ntp_example ! 0 AND VERSION_MASK)) = 4"
    "uint (ntp_example ! 0 AND MODE_MASK) = 4" "uint (ntp_example ! 1) = 1"
    by code_simp+
  ultimately show ?thesis
    using sntp_clock_difference [of ntp_example 1683325312 500000 "start []"] by (simp add: Let_def)
qed

text \<open>An announcement (RFC 2974): the header in network order, the source, the authentication data, the type
  of the payload if it is given, and the payload. The length of the authentication data in the
  header counts words of 32 bits.\<close>

definition sap_packet :: "u32 \<Rightarrow> byte list \<Rightarrow> byte list \<Rightarrow> bool \<Rightarrow> byte list \<Rightarrow> byte list" where
  "sap_packet header src auth typed sdp =
     bytes32 (htonl header) @ src @ auth @ (if typed then lit ''application/sdp'' @ [NUL] else []) @ sdp"

definition auth_words :: "u32 \<Rightarrow> nat" where
  "auth_words header = unat (drop_bit SAP_AUTHLEN_SHIFT (header AND SAP_AUTHLEN_MASK))"

lemma sap_store_packet:
  assumes "4 \<le> length bs"
  shows "sap_store buf bs = bytes32 (ntohl (addr4 bs)) @ drop 4 bs @ [NUL] @ drop (Suc (length bs)) buf"
proof -
  obtain a b c d cs where "bs = a # b # c # d # cs"
    using assms by (cases bs rule: addr4.cases) auto
  then show ?thesis by (simp add: sap_store_def Let_def)
qed

text \<open>An announcement that can be parsed: version 0 or 1, an IPv4 source, not a deletion, neither encrypted
  nor compressed.\<close>

definition sap_parses :: "u32 \<Rightarrow> bool" where
  "sap_parses header \<longleftrightarrow> drop_bit SAP_VERSION_SHIFT (header AND SAP_VERSION_MASK) \<le> 1 \<and> header AND SAP_IPV6 = 0 \<and>
     header AND (SAP_DELETE OR SAP_ENCRYPTED OR SAP_COMPRESSED) = 0"

lemma sap_show_parsed:
  assumes "sap_parses (sap_header buf)"
  shows "sap_show buf = print ''%s'' (map uint (sap_payload buf))"
proof -
  have "\<not> 1 < drop_bit SAP_VERSION_SHIFT (sap_header buf AND SAP_VERSION_MASK)"
    using assms by (simp only: sap_parses_def not_less)
  with assms show ?thesis
    unfolding sap_show_def Let_def sap_parses_def by (simp only: if_False not_not simp_thms)
qed

text \<open>The string that starts where the code looks for the payload.\<close>

lemma sap_payload_at:
  assumes "drop (8 + auth_words (sap_header buf)) buf = s @ [NUL] @ rest" and "NUL \<notin> set (lit ''application/sdp'')"
  shows "cstr s \<noteq> lit ''application/sdp'' \<Longrightarrow> sap_payload buf = cstr s"
    and "s = lit ''application/sdp'' @ [NUL] @ t \<Longrightarrow> sap_payload buf = cstr t"
proof -
  have len: "length (lit ''application/sdp'') = 15" by code_simp
  have c: "cstr (s @ [NUL] @ rest) = cstr s" by (induction s) (simp_all add: cstr_def)
  have no_nul: "NUL \<notin> set (cstr x)" for x by (auto simp: cstr_def dest: set_takeWhileD)
  have "strcmp x (lit ''application/sdp'' @ [NUL]) = 0 \<longleftrightarrow> cstr x = lit ''application/sdp''" for x
    using strcmp_eq_0 [of "cstr x" "lit ''application/sdp''"] assms(2)
      no_nul by (simp add: strcmp_def cstr_id)
  then show "cstr s \<noteq> lit ''application/sdp'' \<Longrightarrow> sap_payload buf = cstr s"
    and "s = lit ''application/sdp'' @ [NUL] @ t \<Longrightarrow> sap_payload buf = cstr t"
    using c assms len by (simp_all add: sap_payload_def Let_def auth_words_def cstr_id)
qed

text \<open>(C39) What \<open>mysdr\<close> prints of an announcement it can parse, whatever earlier packets have left in the
  memory of the packet. Without authentication data it is exactly the payload, whether its type is given
  or not. With authentication data it is not: the code takes their length, which the protocol counts
  in words of 32 bits, for a number of bytes. It starts to print a quarter into the authentication
  data, and stops at the first null byte there, if there is one, without showing any of the payload;
  if there is none, these bytes are shown in front of the payload, or of its type instead of it.\<close>

theorem sdr_shows_payload:
  assumes "sap_parses header" and "length src = 4" and "length auth = 4 * auth_words header" and "NUL \<notin> set sdp"
    and "\<not> typed \<Longrightarrow> sdp \<noteq> lit ''application/sdp''"
  shows "(auth = [] \<longrightarrow> sap_show (sap_store garbage (sap_packet header src auth typed sdp)) = print ''%s'' (map uint sdp)) \<and>
    (let rest = drop (length auth div 4) auth in
       auth \<noteq> [] \<and> NUL \<in> set rest \<and> cstr rest \<noteq> lit ''application/sdp'' \<longrightarrow>
         sap_show (sap_store garbage (sap_packet header src auth typed sdp)) = print ''%s'' (map uint (cstr rest))) \<and>
    (let rest = drop (length auth div 4) auth in
       auth \<noteq> [] \<and> NUL \<notin> set rest \<and> (typed \<or> rest @ sdp \<noteq> lit ''application/sdp'') \<longrightarrow>
         sap_show (sap_store garbage (sap_packet header src auth typed sdp)) =
           print ''%s'' (map uint (rest @ (if typed then lit ''application/sdp'' else sdp))))"
proof -
  let ?type = "if typed then lit ''application/sdp'' @ [NUL] else []"
  let ?pkt = "sap_packet header src auth typed sdp" and ?rest = "drop (length auth div 4) auth"
  define buf where "buf = sap_store garbage ?pkt"
  define stale where "stale = drop (Suc (length ?pkt)) garbage"
  have bytes: "buf = bytes32 header @ src @ auth @ ?type @ sdp @ [NUL] @ stale"
    unfolding buf_def by (subst sap_store_packet) (simp_all add: sap_packet_def stale_def)
  then have header: "sap_header buf = header" by (simp add: sap_header_def)
  have "drop (8 + auth_words header) buf = drop (auth_words header) (auth @ ?type @ sdp @ [NUL] @ stale)"
    unfolding bytes using assms(2) by simp
  then have start: "drop (8 + auth_words (sap_header buf)) buf = (?rest @ ?type @ sdp) @ [NUL] @ stale"
    unfolding header using assms(3) by simp
  have printed: "sap_show buf = print ''%s'' (map uint (sap_payload buf))"
    by (rule sap_show_parsed) (simp add: header assms(1))
  have lit: "NUL \<notin> set (lit ''application/sdp'')" by code_simp
  note payload = sap_payload_at [OF start lit]
  have "sap_payload buf = sdp" if "auth = []"
    using payload(1) payload(2) [of sdp] that assms(4,5) by (cases typed) (simp_all add: cstr_id)
  moreover have "sap_payload buf = cstr ?rest" if "NUL \<in> set ?rest" "cstr ?rest \<noteq> lit ''application/sdp''"
  proof -
    have "cstr (?rest @ xs) = cstr ?rest" for xs
      unfolding cstr_def using that(1) by (intro takeWhile_append1) auto
    with payload(1) that(2) show ?thesis by simp
  qed
  moreover have "sap_payload buf = ?rest @ (if typed then lit ''application/sdp'' else sdp)"
    if "auth \<noteq> []" "NUL \<notin> set ?rest" "typed \<or> ?rest @ sdp \<noteq> lit ''application/sdp''"
  proof (cases typed)
    case True
    have "cstr (?rest @ lit ''application/sdp'' @ [NUL] @ sdp) = ?rest @ lit ''application/sdp''"
      using that(2) lit cstr_append_NUL [of "?rest @ lit ''application/sdp''" sdp] by (simp add: cstr_id)
    moreover have "?rest \<noteq> []" using that(1) assms(3) by (cases "auth_words header") simp_all
    ultimately show ?thesis using payload(1) True by simp
  next
    case False
    with payload(1) that assms(4) show ?thesis by (simp add: cstr_id)
  qed
  ultimately show ?thesis unfolding buf_def [symmetric] printed Let_def by simp
qed

text \<open>Two announcements of \<open>v=0\<close>, without and with a word of authentication data.\<close>

theorem sdr_shows_payload_witness:
  "sap_show (sap_store [1, 2, 3] (sap_packet 0x20000007 [10, 0, 0, 1] [] True [118, 61, 48])) = print ''%s'' [118, 61, 48] \<and>
   sap_show (sap_store [1, 2, 3] (sap_packet 0x20010007 [10, 0, 0, 1] [9, 33, 34, 0] True [118, 61, 48])) = print ''%s'' [33, 34]"
proof -
  have parses: "sap_parses 0x20000007" "sap_parses 0x20010007" "auth_words 0x20000007 = 0" "auth_words 0x20010007 = 1"
    by (simp_all add: sap_parses_def auth_words_def sap_defs)
  have "[33, 34] \<noteq> lit ''application/sdp''" by code_simp
  then show ?thesis
    using sdr_shows_payload [where header = "0x20000007" and src = "[10, 0, 0, 1]" and auth = "[]" and sdp = "[118, 61, 48]"
        and typed = True and garbage = "[1, 2, 3]"]
      sdr_shows_payload [where header = "0x20010007" and src = "[10, 0, 0, 1]" and auth = "[9, 33, 34, 0]" and sdp = "[118, 61, 48]"
        and typed = True and garbage = "[1, 2, 3]"] parses
    by (simp add: cstr_def)
qed

end
