(* ===== verification/Multicast_Compat.thy ===== *)
theory Multicast_Compat
  imports Multicast
begin

text \<open>
  \<open>mcast_join.cpp\<close> on a system without the protocol-independent options \<open>MCAST_JOIN_GROUP\<close>,
  \<open>MCAST_JOIN_SOURCE_GROUP\<close>, \<open>MCAST_BLOCK_SOURCE\<close> and \<open>MCAST_UNBLOCK_SOURCE\<close>: the branches after
  \<open>#else\<close>, which use the options of IPv4 and, with \<open>IPV6\<close>, that of IPv6. An IPv4 membership names its
  interface by its address, so an index is turned into a name and a name into an address.
\<close>

section \<open>The branches after #else\<close>

definition IP_ADD_MEMBERSHIP :: int where "IP_ADD_MEMBERSHIP = 35"
definition IP_UNBLOCK_SOURCE :: int where "IP_UNBLOCK_SOURCE = 37"
definition IP_BLOCK_SOURCE :: int where "IP_BLOCK_SOURCE = 38"
definition IP_ADD_SOURCE_MEMBERSHIP :: int where "IP_ADD_SOURCE_MEMBERSHIP = 39"
definition IPV6_JOIN_GROUP :: int where "IPV6_JOIN_GROUP = 20"
definition SIOCGIFADDR :: int where "SIOCGIFADDR = 0x8915"
definition IFNAMSIZ :: nat where "IFNAMSIZ = 16"

text \<open>\<open>((struct sockaddr_in *) sa)->sin_addr\<close>. The callers pass IPv4 addresses, and \<open>SIOCGIFADDR\<close> stores
  one; of another the four bytes at that place are not modelled.\<close>

fun sin_addr :: "sockaddr \<Rightarrow> u32" where
  "sin_addr (Sin port a) = a"
| "sin_addr _ = 0"

text \<open>The address of the interface whose name is in \<open>ifr_name\<close>, which \<open>strncpy\<close> may have cut.\<close>

definition doioctl :: "int \<Rightarrow> byte list \<Rightarrow> (world, u32 option) prog" where
  "doioctl sockfd ifr_name = andThen (sys (C_lib ''ioctl'' [sockfd, SIOCGIFADDR] ifr_name)) (\<lambda>r.
     if r_val r < 0 then ret None else ret (Some (sin_addr (r_addr r))))"

definition imr_interface :: "int \<Rightarrow> byte list option \<Rightarrow> int \<Rightarrow> (world, u32 option) prog" where
  "imr_interface sockfd ifname ifindex =
     (if 0 < ifindex then
        andThen (sys (C_lib ''if_indextoname'' [ifindex] [])) (\<lambda>r.
          if r_val r = 0 then seq (set_errno ENXIO) (ret None) else doioctl sockfd (cstr (r_data r)))
      else case ifname of
          Some name \<Rightarrow> doioctl sockfd (take IFNAMSIZ (cstr name))
        | None \<Rightarrow> ret (Some (htonl INADDR_ANY)))"

definition mcast_join_else ::
  "bool \<Rightarrow> int \<Rightarrow> sockaddr \<Rightarrow> byte list option \<Rightarrow> int \<Rightarrow> (world, int) prog" where
  "mcast_join_else ipv6 sockfd grp ifname ifindex =
     (if sa_family grp = AF_INET then
        andThen (imr_interface sockfd ifname ifindex) (\<lambda>imr. case imr of
            None \<Rightarrow> ret (-1)
          | Some i \<Rightarrow> sys_int (C_setsockopt sockfd 0 IP_ADD_MEMBERSHIP [uint (sin_addr grp), uint i]))
      else if ipv6 \<and> sa_family grp = AF_INET6 then
        andThen (the_interface ifname ifindex) (\<lambda>ipv6mr. case ipv6mr of
            None \<Rightarrow> ret (-1)
          | Some i \<Rightarrow> sys_int (C_setsockopt sockfd 41 IPV6_JOIN_GROUP
              ((case grp of Sin6 port a \<Rightarrow> map uint a | _ \<Rightarrow> []) @ [i])))
      else seq (set_errno EAFNOSUPPORT) (ret (-1)))"

text \<open>The three fields of \<open>struct ip_mreq_source\<close> in the order of Linux: group, interface, source.\<close>

definition mcast_join_source_group_else ::
  "int \<Rightarrow> sockaddr \<Rightarrow> sockaddr \<Rightarrow> byte list option \<Rightarrow> int \<Rightarrow> (world, int) prog" where
  "mcast_join_source_group_else sockfd src grp ifname ifindex =
     (if sa_family grp = AF_INET then
        andThen (imr_interface sockfd ifname ifindex) (\<lambda>imr. case imr of
            None \<Rightarrow> ret (-1)
          | Some i \<Rightarrow> sys_int (C_setsockopt sockfd 0 IP_ADD_SOURCE_MEMBERSHIP
              [uint (sin_addr grp), uint i, uint (sin_addr src)]))
      else seq (set_errno EAFNOSUPPORT) (ret (-1)))"

definition source_request_else :: "int \<Rightarrow> int \<Rightarrow> sockaddr \<Rightarrow> sockaddr \<Rightarrow> (world, int) prog" where
  "source_request_else optname sockfd src grp =
     (if sa_family grp = AF_INET then
        sys_int (C_setsockopt sockfd 0 optname [uint (sin_addr grp), uint (htonl INADDR_ANY), uint (sin_addr src)])
      else seq (set_errno EAFNOSUPPORT) (ret (-1)))"

definition mcast_block_source_else :: "int \<Rightarrow> sockaddr \<Rightarrow> sockaddr \<Rightarrow> (world, int) prog" where
  "mcast_block_source_else = source_request_else IP_BLOCK_SOURCE"

definition mcast_unblock_source_else :: "int \<Rightarrow> sockaddr \<Rightarrow> sockaddr \<Rightarrow> (world, int) prog" where
  "mcast_unblock_source_else = source_request_else IP_UNBLOCK_SOURCE"

section \<open>What is asked of the kernel\<close>

text \<open>The options a run sets, in order, and the addresses \<open>SIOCGIFADDR\<close> has given.\<close>

fun option_set :: "event \<Rightarrow> (int \<times> int \<times> int list) list" where
  "option_set (Did (C_setsockopt fd level opt v) r) = [(fd, opt, v)]"
| "option_set _ = []"

definition options_set :: "event list \<Rightarrow> (int \<times> int \<times> int list) list" where
  "options_set tr = concat (map option_set tr)"

fun addr_given :: "event \<Rightarrow> (byte list \<times> u32) list" where
  "addr_given (Did (C_lib nm args name) r) =
     (if nm = ''ioctl'' \<and> 0 \<le> r_val r then [(name, sin_addr (r_addr r))] else [])"
| "addr_given _ = []"

definition addrs_given :: "event list \<Rightarrow> (byte list \<times> u32) list" where
  "addrs_given tr = concat (map addr_given tr)"

lemma given_simps [simp]:
  "options_set [] = []" "options_set (ev # tr) = option_set ev @ options_set tr"
  "addrs_given [] = []" "addrs_given (ev # tr) = addr_given ev @ addrs_given tr"
  "options_set (tr @ tr') = options_set tr @ options_set tr'" "addrs_given (tr @ tr') = addrs_given tr @ addrs_given tr'"
  by (simp_all add: options_set_def addrs_given_def)

text \<open>The interface of a membership: any one when none is asked for, and otherwise the one whose address
  the kernel has given, under the first 16 bytes of the name that was asked for.\<close>

definition interface_asked :: "byte list option \<Rightarrow> int \<Rightarrow> event list \<Rightarrow> u32 \<Rightarrow> bool" where
  "interface_asked ifname ifindex tr i \<longleftrightarrow>
     (if 0 < ifindex then \<exists>name. addrs_given tr = [(name, i)]
      else case ifname of
          Some name \<Rightarrow> addrs_given tr = [(take IFNAMSIZ (cstr name), i)]
        | None \<Rightarrow> i = 0)"

lemma any_addr [simp]: "htonl INADDR_ANY = 0"
  by (simp add: INADDR_ANY_def htonl_def le32_def)

lemma imr_interface_wp:
  "wp (imr_interface sockfd ifname ifindex)
    (\<lambda>imr v. \<exists>tr. trace v = trace w @ tr \<and> options_set tr = [] \<and>
       (\<forall>i. imr = Some i \<longrightarrow> interface_asked ifname ifindex tr i)) (\<lambda>_ _. True) w"
  unfolding imr_interface_def doioctl_def
  by (cases ifname) (auto intro!: wp_intros simp: interface_asked_def )

lemma interface_asked_option [simp]:
  "interface_asked ifname ifindex (tr @ [Did (C_setsockopt fd level opt v) r]) i = interface_asked ifname ifindex tr i"
  by (simp add: interface_asked_def split: option.split)

text \<open>A request after the interface has been found: one option, or none when there is no such interface.\<close>

lemma imr_request_wp:
  "wp (andThen (imr_interface sockfd ifname ifindex) (\<lambda>imr. case imr of
         None \<Rightarrow> ret (-1) | Some i \<Rightarrow> sys_int (C_setsockopt sockfd 0 opt (value i))))
    (\<lambda>n v. \<exists>tr. trace v = trace w @ tr \<and>
       (n = -1 \<and> options_set tr = [] \<or>
        (\<exists>i. options_set tr = [(sockfd, opt, value i)] \<and> interface_asked ifname ifindex tr i)))
    (\<lambda>_ _. True) w"
  unfolding sys_int_def by (intro wp_intros wp_mono [OF imr_interface_wp]) auto

text \<open>What \<open>mcast_join\<close> reports is what the kernel says to one request for the group, on the interface that
  was asked for; when that is not found, nothing is requested and it reports -1.\<close>

theorem mcast_join_else_asks:
  assumes "mcast_join_else ipv6 sockfd (Sin port a) ifname ifindex w = (Inr n, w')"
  shows "\<exists>tr. trace w' = trace w @ tr \<and>
    (n = -1 \<and> options_set tr = [] \<or>
     (\<exists>i. options_set tr = [(sockfd, IP_ADD_MEMBERSHIP, [uint a, uint i])] \<and> interface_asked ifname ifindex tr i))"
  using wp_returns [OF imr_request_wp assms [unfolded mcast_join_else_def, simplified]] .

text \<open>An interface by its index.\<close>

theorem mcast_join_else_asks_witness:
  "\<exists>w'. mcast_join_else False 3 (Sin 0 0xe0) None 2
      (start [(ok 1)\<lparr>r_data := [101, 116, 104, 48]\<rparr>, (ok 0)\<lparr>r_addr := Sin 0 5\<rparr>, ok 0]) = (Inr 0, w') \<and>
    options_set (trace w') = [(3, IP_ADD_MEMBERSHIP, [0xe0, 5])]"
proof -
  let ?w = "start [(ok 1)\<lparr>r_data := [101, 116, 104, 48]\<rparr>, (ok 0)\<lparr>r_addr := Sin 0 5\<rparr>, ok 0]"
  have "\<exists>w'. mcast_join_else False 3 (Sin 0 0xe0) None 2 ?w = (Inr 0, w') \<and> addrs_given (trace w') = [([101, 116, 104, 48], 5)]"
    by (simp add: mcast_join_else_def imr_interface_def doioctl_def sys_int_def andThen_apply sys_apply cstr_def)
  then obtain w' where run: "mcast_join_else False 3 (Sin 0 0xe0) None 2 ?w = (Inr 0, w')"
    and given: "addrs_given (trace w') = [([101, 116, 104, 48], 5)]" by blast
  from mcast_join_else_asks [OF run] given run show ?thesis
    by (auto simp: interface_asked_def)
qed

section \<open>The two ways to ask\<close>

text \<open>What the kernel is asked for, however it is asked: joining, blocking or unblocking, the group, the
  interface (any, or one by its index or by its address) and the source.\<close>

datatype verb = Join | Join_source | Block | Unblock
datatype interface = Any | Index int | Address u32

definition iface_index :: "int \<Rightarrow> interface" where "iface_index i = (if i = 0 then Any else Index i)"
definition iface_addr :: "u32 \<Rightarrow> interface" where "iface_addr a = (if a = 0 then Any else Address a)"

fun request :: "int \<times> int \<times> int list \<Rightarrow> (int \<times> verb \<times> u32 \<times> interface \<times> u32 option) option" where
  "request (fd, opt, [a, b]) =
     (if opt = IP_ADD_MEMBERSHIP then Some (fd, Join, word_of_int a, iface_addr (word_of_int b), None) else None)"
| "request (fd, opt, [a, b, c]) =
     (if opt = IP_ADD_SOURCE_MEMBERSHIP then Some (fd, Join_source, word_of_int a, iface_addr (word_of_int b), Some (word_of_int c))
      else if opt = IP_BLOCK_SOURCE then Some (fd, Block, word_of_int a, iface_addr (word_of_int b), Some (word_of_int c))
      else if opt = IP_UNBLOCK_SOURCE then Some (fd, Unblock, word_of_int a, iface_addr (word_of_int b), Some (word_of_int c))
      else None)"
| "request (fd, opt, [i, f, p, a]) =
     (if opt = MCAST_JOIN_GROUP \<and> f = AF_INET then Some (fd, Join, word_of_int a, iface_index i, None) else None)"
| "request (fd, opt, [i, f, p, a, g, q, b]) =
     (if f \<noteq> AF_INET \<or> g \<noteq> AF_INET then None
      else if opt = MCAST_JOIN_SOURCE_GROUP then Some (fd, Join_source, word_of_int a, iface_index i, Some (word_of_int b))
      else if opt = MCAST_BLOCK_SOURCE then Some (fd, Block, word_of_int a, iface_index i, Some (word_of_int b))
      else if opt = MCAST_UNBLOCK_SOURCE then Some (fd, Unblock, word_of_int a, iface_index i, Some (word_of_int b))
      else None)"
| "request _ = None"

definition requests :: "event list \<Rightarrow> (int \<times> verb \<times> u32 \<times> interface \<times> u32 option) option list" where
  "requests tr = map request (options_set tr)"

text \<open>With no interface given, each of the four functions asks the kernel for the same thing in its two
  versions and reports what it answers.\<close>

definition asks_alike :: "(world, int) prog \<Rightarrow> (world, int) prog \<Rightarrow> bool" where
  "asks_alike m n \<longleftrightarrow> (\<forall>w. fst (m w) = fst (n w) \<and>
     (\<exists>tr tr'. trace (snd (m w)) = trace w @ tr \<and> trace (snd (n w)) = trace w @ tr' \<and> requests tr = requests tr'))"

lemma asks_alike_setsockopt:
  assumes "request (fd, opt, v) = request (fd, opt', v')"
  shows "asks_alike (sys_int (C_setsockopt fd level opt v)) (sys_int (C_setsockopt fd level' opt' v'))"
  using assms
  by (auto simp: asks_alike_def sys_int_def andThen_apply sys_apply requests_def split: list.split)

lemma no_interface [simp]: "the_interface None 0 = ret (Some 0)" "imr_interface fd None 0 = ret (Some 0)"
  by (simp_all add: the_interface_def imr_interface_def)

lemmas option_names = AF_INET_def MCAST_JOIN_GROUP_def MCAST_JOIN_SOURCE_GROUP_def MCAST_BLOCK_SOURCE_def
  MCAST_UNBLOCK_SOURCE_def IP_ADD_MEMBERSHIP_def IP_ADD_SOURCE_MEMBERSHIP_def IP_BLOCK_SOURCE_def IP_UNBLOCK_SOURCE_def

lemma any_interface [simp]: "iface_index 0 = Any" "iface_addr 0 = Any"
  by (simp_all add: iface_index_def iface_addr_def)

theorem mcast_versions_alike:
  assumes "grplen \<le> 128" and "srclen \<le> 128"
  shows "asks_alike (mcast_join ipv6 fd (Sin p a) grplen None 0) (mcast_join_else ipv6 fd (Sin p a) None 0) \<and>
    asks_alike (mcast_join_source_group ipv6 fd (Sin q b) srclen (Sin p a) grplen None 0)
      (mcast_join_source_group_else fd (Sin q b) (Sin p a) None 0) \<and>
    asks_alike (mcast_block_source ipv6 fd (Sin q b) srclen (Sin p a) grplen) (mcast_block_source_else fd (Sin q b) (Sin p a)) \<and>
    asks_alike (mcast_unblock_source ipv6 fd (Sin q b) srclen (Sin p a) grplen) (mcast_unblock_source_else fd (Sin q b) (Sin p a))"
  using assms
  by (auto simp: mcast_join_def mcast_join_else_def mcast_join_source_group_def mcast_join_source_group_else_def
      mcast_block_source_def mcast_block_source_else_def mcast_unblock_source_def mcast_unblock_source_else_def
      source_request_def source_request_else_def sizeof_sockaddr_storage_def option_names intro!: asks_alike_setsockopt)

theorem mcast_versions_alike_witness:
  "asks_alike (mcast_join False 3 (Sin 0 0xe0) 16 None 0) (mcast_join_else False 3 (Sin 0 0xe0) None 0)"
  using mcast_versions_alike [of 16 16] by simp

end
