(* ===== verification/Socket_Options.thy ===== *)
theory Socket_Options
  imports Connect
begin

text \<open>
  \<open>sockopt/checkopts.cpp\<close>, which prints the default value of every socket option of a table, and
  \<open>route/checkudpsum/main.cpp\<close>, which prints whether UDP checksums are switched on. The four functions that
  turn the value of an option into text are declared in \<open>checkopts.cpp\<close> and defined nowhere: they are a
  parameter, like the number of \<open>SO_USELOOPBACK\<close>, which Linux has not, and the macros \<open>SO_REUSEPORT\<close> and
  \<open>IPV6\<close>. The command \<open>sysctl\<close> for \<open>UDPCTL_CHECKSUM\<close> exists on BSD only.
\<close>

section \<open>checkopts\<close>

definition IPPROTO_IP :: int where "IPPROTO_IP = 0"
definition IPPROTO_TCP :: int where "IPPROTO_TCP = 6"
definition IPPROTO_IPV6 :: int where "IPPROTO_IPV6 = 41"
definition IPPROTO_SCTP :: int where "IPPROTO_SCTP = 132"
definition SOCK_SEQPACKET :: int where "SOCK_SEQPACKET = 5"

text \<open>\<open>opt_val_str\<close> is a function or the null pointer; the value of an option is its bytes.\<close>

record sock_opts =
  opt_str :: string
  opt_level :: int
  opt_name :: int
  opt_val_str :: "(byte list \<Rightarrow> string) option"

definition opt :: "string \<Rightarrow> int \<Rightarrow> int \<Rightarrow> (byte list \<Rightarrow> string) option \<Rightarrow> sock_opts" where
  "opt str level name val = \<lparr>opt_str = str, opt_level = level, opt_name = name, opt_val_str = val\<rparr>"

record value_printers =
  sock_str_flag :: "byte list \<Rightarrow> string"
  sock_str_int :: "byte list \<Rightarrow> string"
  sock_str_linger :: "byte list \<Rightarrow> string"
  sock_str_timeval :: "byte list \<Rightarrow> string"

definition arr_sock_opts :: "bool \<Rightarrow> int \<Rightarrow> value_printers \<Rightarrow> sock_opts list" where
  "arr_sock_opts so_reuseport so_useloopback pr =
     (let flag = Some (sock_str_flag pr); num = Some (sock_str_int pr); linger = Some (sock_str_linger pr);
          timeval = Some (sock_str_timeval pr)
      in [opt ''SO_BROADCAST'' SOL_SOCKET 6 flag,
          opt ''SO_DEBUG'' SOL_SOCKET 1 flag,
          opt ''SO_DONTROUTE'' SOL_SOCKET 5 flag,
          opt ''SO_ERROR'' SOL_SOCKET 4 num,
          opt ''SO_KEEPALIVE'' SOL_SOCKET 9 flag,
          opt ''SO_LINGER'' SOL_SOCKET 13 linger,
          opt ''SO_OOBINLINE'' SOL_SOCKET 10 flag,
          opt ''SO_RCVBUF'' SOL_SOCKET 8 num,
          opt ''SO_SNDBUF'' SOL_SOCKET 7 num,
          opt ''SO_RCVLOWAT'' SOL_SOCKET 18 num,
          opt ''SO_SNDLOWAT'' SOL_SOCKET 19 num,
          opt ''SO_RCVTIMEO'' SOL_SOCKET 20 timeval,
          opt ''SO_SNDTIMEO'' SOL_SOCKET 21 timeval,
          opt ''SO_REUSEADDR'' SOL_SOCKET 2 flag,
          (if so_reuseport then opt ''SO_REUSEPORT'' SOL_SOCKET 15 flag else opt ''SO_REUSEPORT'' 0 0 None),
          opt ''SO_TYPE'' SOL_SOCKET 3 num,
          opt ''SO_USELOOPBACK'' SOL_SOCKET so_useloopback flag,
          opt ''IP_TOS'' IPPROTO_IP 1 num,
          opt ''IP_TTL'' IPPROTO_IP 2 num,
          opt ''IPV6_DONTFRAG'' IPPROTO_IPV6 62 flag,
          opt ''IPV6_UNICAST_HOPS'' IPPROTO_IPV6 16 flag,
          opt ''IPV6_V6ONLY'' IPPROTO_IPV6 26 flag,
          opt ''TCP_MAXSEG'' IPPROTO_TCP 2 num,
          opt ''TCP_NODELAY'' IPPROTO_TCP 1 flag,
          opt ''SCTP_AUTOCLOSE'' IPPROTO_SCTP 4 num,
          opt ''SCTP_MAXBURST'' IPPROTO_SCTP 20 num,
          opt ''SCTP_MAXSEG'' IPPROTO_SCTP 13 num,
          opt ''SCTP_NODELAY'' IPPROTO_SCTP 3 flag])"

definition opt_socket :: "bool \<Rightarrow> int \<Rightarrow> (world, int) prog" where
  "opt_socket ipv6 level =
     (if level = SOL_SOCKET \<or> level = IPPROTO_IP \<or> level = IPPROTO_TCP then Socket AF_INET SOCK_STREAM 0
      else if ipv6 \<and> level = IPPROTO_IPV6 then Socket AF_INET6 SOCK_STREAM 0
      else if level = IPPROTO_SCTP then Socket AF_INET SOCK_SEQPACKET IPPROTO_SCTP
      else err_quit ''Can't create fd for level %d'')"

definition check_opt :: "bool \<Rightarrow> sock_opts \<Rightarrow> (world, unit) prog" where
  "check_opt ipv6 op = seq (print (opt_str op) []) (case opt_val_str op of
     None \<Rightarrow> print ''undefined'' []
   | Some show_val \<Rightarrow>
       andThen (opt_socket ipv6 (opt_level op)) (\<lambda>fd.
       andThen (sys (C_getsockopt fd (opt_level op) (opt_name op))) (\<lambda>r.
       seq (if r_val r = -1 then err_ret ''getsockopt error''
            else print ''default = '' (map of_char (show_val (r_data r))))
         (seq (sys (C_close fd)) (ret ())))))"

fun check_opts :: "bool \<Rightarrow> sock_opts list \<Rightarrow> (world, unit) prog" where
  "check_opts ipv6 [] = ret ()"
| "check_opts ipv6 (op # ops) = seq (check_opt ipv6 op) (check_opts ipv6 ops)"

definition checkopts_main :: "bool \<Rightarrow> bool \<Rightarrow> int \<Rightarrow> value_printers \<Rightarrow> (world, int) prog" where
  "checkopts_main ipv6 so_reuseport so_useloopback pr =
     seq (check_opts ipv6 (arr_sock_opts so_reuseport so_useloopback pr)) (halt (Exit 0 []))"

section \<open>checkudpsum\<close>

definition checkudpsum_main :: "int \<Rightarrow> (world, int) prog" where
  "checkudpsum_main udpctl_checksum = andThen (Sysctl [4, AF_INET, 17, udpctl_checksum]) (\<lambda>val.
     seq (print ''udp checksum flag: %d'' (take 1 val)) (ret 0))"

section \<open>Which options are asked for\<close>

fun asks :: "event \<Rightarrow> (int \<times> int) list" where
  "asks (Did (C_getsockopt fd level name) r) = [(level, name)]"
| "asks _ = []"

definition asked :: "world \<Rightarrow> (int \<times> int) list" where
  "asked w = concat (map asks (trace w))"

lemma asks_log [simp]: "is_log ev \<Longrightarrow> asks ev = []"
  by (cases ev) simp_all

lemma asked_simps [simp]:
  "asked (took c r w) = asked w @ asks (Did c r)"
  "asked (v\<lparr>trace := tr @ [ev]\<rparr>) = concat (map asks tr) @ asks ev"
  "asked (v\<lparr>trace := tr @ [ev], errno_v := err\<rparr>) = concat (map asks tr) @ asks ev"
  "asked (v\<lparr>trace := tr @ [ev, ev']\<rparr>) = concat (map asks tr) @ asks ev @ asks ev'"
  "asked (v\<lparr>trace := tr @ [ev, ev'], errno_v := err\<rparr>) = concat (map asks tr) @ asks ev @ asks ev'"
  by (simp_all add: asked_def)

definition printable :: "sock_opts list \<Rightarrow> (int \<times> int) list" where
  "printable ops = map (\<lambda>op. (opt_level op, opt_name op)) (filter (\<lambda>op. opt_val_str op \<noteq> None) ops)"

text \<open>One option: it is asked for, on a socket of a suitable kind, or the program ends.\<close>

lemma check_opt_wp:
  assumes "\<And>e v. e \<noteq> Exit 0 [] \<Longrightarrow> \<exists>xs. asked v = asked w @ xs \<and> set xs \<subseteq> set (printable [op]) \<and>
      (xs = [] \<or> opt_level op \<noteq> IPPROTO_IPV6 \<or> ipv6) \<Longrightarrow> E e v"
    and "\<And>v. asked v = asked w @ printable [op] \<Longrightarrow> opt_val_str op = None \<or> opt_level op \<noteq> IPPROTO_IPV6 \<or> ipv6 \<Longrightarrow> Q () v"
  shows "wp (check_opt ipv6 op) Q E w"
  unfolding check_opt_def opt_socket_def
  by (cases "opt_val_str op")
    (auto intro!: wp_intros assms simp: asked_def printable_def SOL_SOCKET_def IPPROTO_IP_def IPPROTO_TCP_def
      IPPROTO_IPV6_def IPPROTO_SCTP_def)

lemma printable_simps [simp]:
  "printable [] = []" "printable (op # ops) = (if opt_val_str op = None then [] else [(opt_level op, opt_name op)]) @ printable ops"
  "printable (ops @ ops') = printable ops @ printable ops'"
  by (simp_all add: printable_def)

lemma check_opts_wp:
  "wp (check_opts ipv6 ops) (\<lambda>_ v. asked v = asked w @ printable ops)
    (\<lambda>e v. e \<noteq> Exit 0 [] \<and> (\<exists>xs. asked v = asked w @ xs \<and> set xs \<subseteq> set (printable ops))) w"
proof (induction ops arbitrary: w)
  case Nil
  show ?case by (simp add: wp_def)
next
  case (Cons op ops)
  show ?case
    unfolding check_opts.simps by (intro wp_intros check_opt_wp wp_mono [OF Cons.IH]) auto
qed

lemma check_opts_stop_wp:
  assumes "opt_level op = IPPROTO_IPV6" and "opt_val_str op \<noteq> None"
  shows "wp (check_opts False (pre @ op # post)) (\<lambda>_ _. False)
    (\<lambda>e v. e \<noteq> Exit 0 [] \<and> (\<exists>xs. asked v = asked w @ xs \<and> set xs \<subseteq> set (printable pre))) w"
proof (induction pre arbitrary: w)
  case Nil
  show ?case
    unfolding append_Nil check_opts.simps using assms by (intro wp_intros check_opt_wp) auto
next
  case (Cons o' pre)
  show ?case
    unfolding append_Cons check_opts.simps by (intro wp_intros check_opt_wp wp_mono [OF Cons.IH]) auto
qed

text \<open>Without \<open>IPV6\<close>, as the program is built, it never ends by itself: the first option of IPv6 has no
  kind of socket, and the options of TCP and SCTP after it are never asked for.\<close>

theorem checkopts_stops_at_ipv6:
  assumes "checkopts_main False so_reuseport so_useloopback pr w = (res, w')"
  shows "res \<noteq> Inl (Exit 0 []) \<and>
    (\<exists>xs. asked w' = asked w @ xs \<and> (\<forall>(level, name)\<in>set xs. level = SOL_SOCKET \<or> level = IPPROTO_IP))"
proof -
  let ?ops = "arr_sock_opts so_reuseport so_useloopback pr"
  have ops: "?ops = take 19 ?ops @ opt ''IPV6_DONTFRAG'' IPPROTO_IPV6 62 (Some (sock_str_flag pr)) # drop 20 ?ops"
    by (simp add: arr_sock_opts_def Let_def)
  have levels: "\<forall>(level, name)\<in>set (printable (take 19 ?ops)). level = SOL_SOCKET \<or> level = IPPROTO_IP"
    by (simp add: arr_sock_opts_def opt_def Let_def)
  have "wp (check_opts False ?ops) (\<lambda>_ _. False)
      (\<lambda>e v. e \<noteq> Exit 0 [] \<and> (\<exists>xs. asked v = asked w @ xs \<and> set xs \<subseteq> set (printable (take 19 ?ops)))) w"
    by (subst ops, rule check_opts_stop_wp) (simp_all add: opt_def)
  then have "wp (checkopts_main False so_reuseport so_useloopback pr) (\<lambda>_ _. False)
      (\<lambda>e v. e \<noteq> Exit 0 [] \<and> (\<exists>xs. asked v = asked w @ xs \<and> set xs \<subseteq> set (printable (take 19 ?ops)))) w"
    unfolding checkopts_main_def by (intro wp_intros) (auto elim: wp_mono)
  with assms obtain e xs where "res = Inl e" "e \<noteq> Exit 0 []" "asked w' = asked w @ xs"
    and "set xs \<subseteq> set (printable (take 19 ?ops))"
    by (cases res) (auto simp: wp_def)
  with levels show ?thesis by blast
qed

text \<open>With \<open>IPV6\<close>, a run that ends by itself has asked for every option of the table, in order.\<close>

theorem checkopts_asks_all:
  assumes "checkopts_main True so_reuseport so_useloopback pr w = (Inl (Exit 0 []), w')"
  shows "asked w' = asked w @ printable (arr_sock_opts so_reuseport so_useloopback pr)"
proof -
  have "wp (checkopts_main True so_reuseport so_useloopback pr) (\<lambda>_ _. False)
      (\<lambda>e v. e = Exit 0 [] \<longrightarrow> asked v = asked w @ printable (arr_sock_opts so_reuseport so_useloopback pr)) w"
    unfolding checkopts_main_def by (intro wp_intros wp_mono [OF check_opts_wp]) auto
  from wp_stops [OF this assms] show ?thesis by simp
qed

end
