(* ===== verification/Local_Sockets.thy ===== *)
theory Local_Sockets
  imports Tcp_Programs
begin

text \<open>
  The programs of \<open>unixdomain\<close> on local sockets: the stream server and client, the datagram server
  and client, \<open>unixbind\<close>, and \<open>readcred\<close> with its own \<open>str_echo\<close>, which asks for the credentials of
  the sender. (Passing descriptors is in \<open>Descriptor_Pool\<close>.)
\<close>

definition UNIXSTR_PATH :: "byte list" where "UNIXSTR_PATH = lit ''/tmp/unix.str''"
definition UNIXDG_PATH :: "byte list" where "UNIXDG_PATH = lit ''/tmp/unix.dg''"

definition unlink :: "byte list \<Rightarrow> (world, unit) prog" where
  "unlink path = seq (sys (C_lib ''unlink'' [] path)) (ret ())"

section \<open>Streams\<close>

text \<open>The server forks before it serves a connection.\<close>

definition strserver01_round :: "int \<Rightarrow> unit \<Rightarrow> (world, unit) prog" where
  "strserver01_round listenfd _ = andThen (sys_int (C_accept listenfd)) (\<lambda>connfd. andThen get_errno (\<lambda>errno.
     if connfd < 0 then (if errno = EINTR then ret () else err_sys ''accept error'')
     else andThen Fork (\<lambda>childpid.
       if childpid = 0 then seq (Close listenfd) (seq (str_echo connfd) exit0) else Close connfd)))"

definition strserver01_main :: "(world, int) prog" where
  "strserver01_main = andThen (Socket AF_UNIX SOCK_STREAM 0) (\<lambda>listenfd.
     seq (unlink UNIXSTR_PATH)
    (seq (Bind listenfd (Sun UNIXSTR_PATH))
    (seq (Listen listenfd LISTENQ)
    (seq (Signal SIGCHLD 1) (forever (strserver01_round listenfd) ())))))"

definition strclient01_main :: "rl \<Rightarrow> (world, int) prog" where
  "strclient01_main s = andThen (Socket AF_UNIX SOCK_STREAM 0) (\<lambda>sockfd.
     seq (Connect sockfd (Sun UNIXSTR_PATH)) (seq (str_cli sockfd s) (ret 0)))"

section \<open>Datagrams\<close>

definition dgserver01_main :: "(world, int) prog" where
  "dgserver01_main = andThen (Socket AF_UNIX SOCK_DGRAM 0) (\<lambda>sockfd.
     seq (unlink UNIXDG_PATH) (seq (Bind sockfd (Sun UNIXDG_PATH)) (seq (dg_echo sockfd) (ret 0))))"

text \<open>The client binds the name that \<open>mkstemp\<close> has made of its template, whose file it removes.\<close>

definition dgclient01_main :: "(world, int) prog" where
  "dgclient01_main = andThen (Socket AF_UNIX SOCK_DGRAM 0) (\<lambda>sockfd.
     andThen (sys (C_lib ''mkstemp'' [] (lit ''/tmp/temp.XXXXXX''))) (\<lambda>r.
       if r_val r = -1 then err_quit ''create tmp file failed.''
       else let fnTemplate = cstr (r_data r) in
         seq (unlink fnTemplate) (seq (Bind sockfd (Sun fnTemplate))
        (seq (dg_cli sockfd (Sun UNIXDG_PATH)) (ret 0)))))"

text \<open>\<open>unixbind\<close>: the name is cut to the 107 bytes that \<open>sun_path\<close> holds beside its null byte. The kernel
  also returns the length of the address.\<close>

definition sun_bytes :: "sockaddr \<Rightarrow> byte list" where
  "sun_bytes sa = (case sa of Sun path \<Rightarrow> cstr path | _ \<Rightarrow> [])"

definition unixbind_main :: "byte list list \<Rightarrow> (world, int) prog" where
  "unixbind_main argv =
     (if length argv \<noteq> 2 then err_quit ''usage: unixbind <pathname>''
      else andThen (Socket AF_UNIX SOCK_STREAM 0) (\<lambda>sockfd.
        seq (unlink (argv ! 1))
       (seq (Bind sockfd (Sun (take 107 (cstr (argv ! 1)))))
       (andThen (sys (C_getsockname sockfd)) (\<lambda>r.
          if r_val r < 0 then err_sys ''getsockname error''
          else seq (print ''bound name = %s, returned len = %d'' (map uint (sun_bytes (r_addr r)) @ [aux r 0]))
            (ret 0))))))"

section \<open>Credentials\<close>

text \<open>A message with the credentials of its sender: \<open>recvmsg\<close> stores the length of the control data,
  then the length, level and type of the control message and the three credentials. Without control
  data the caller's structure is left alone.\<close>

definition CONTROL_LEN :: int where "CONTROL_LEN = 28"
definition SCM_CREDENTIALS :: int where "SCM_CREDENTIALS = 2"

type_synonym ucred = "int \<times> int \<times> int"

definition read_cred ::
  "int \<Rightarrow> nat \<Rightarrow> ucred option \<Rightarrow> (world, int \<times> byte list \<times> ucred option) prog" where
  "read_cred fd nbytes cred = andThen (sys (C_recvmsg fd nbytes 0)) (\<lambda>r.
     if r_val r < 0 then ret (-1, [], cred)
     else if 0 < aux r 0 then
       if aux r 1 < CONTROL_LEN then err_quit ''control length = %d''
       else if aux r 2 \<noteq> SOL_SOCKET then err_quit ''control level != SOL_SOCKET''
       else if aux r 3 \<noteq> SCM_CREDENTIALS then err_quit ''control type != SCM_CREDS''
       else ret (got_len nbytes r, got nbytes r, Some (aux r 4, aux r 5, aux r 6))
     else ret (got_len nbytes r, got nbytes r, cred))"

text \<open>\<open>cred\<close> is not initialised (\<open>None\<close>) until credentials have come.\<close>

definition str_echo_cred_round :: "int \<Rightarrow> ucred option \<Rightarrow> (world, ucred option + unit) prog" where
  "str_echo_cred_round sockfd cred = andThen (read_cred sockfd MAXLINE cred) (\<lambda>(n, buf, cred). andThen get_errno (\<lambda>errno.
     if 0 < n then
       case cred of
         None \<Rightarrow> halt (Undef ''cred'')
       | Some (pid, uid, gid) \<Rightarrow>
           seq (print ''PID of sender = %d'' [pid]) (seq (print ''real user ID = %d'' [uid])
          (seq (print ''real group ID = %d'' [gid]) (seq (Writen sockfd buf) (again cred))))
     else if n < 0 \<and> errno = EINTR then again cred
     else if n < 0 then err_sys ''str_echo: read error''
     else leave ()))"

definition str_echo_cred :: "int \<Rightarrow> (world, unit) prog" where
  "str_echo_cred sockfd = loop (str_echo_cred_round sockfd) None"

definition readcred_main :: "(world, int) prog" where
  "readcred_main = andThen (Socket AF_UNIX SOCK_STREAM 0) (\<lambda>sockfd.
     seq (Connect sockfd (Sun UNIXSTR_PATH)) (seq (str_echo_cred sockfd) (ret 0)))"

section \<open>The parent of the stream server\<close>

lemma lawful_unlink [lawful_intros]: "lawful (unlink path)"
  unfolding unlink_def by (intro lawful_intros)

lemma eats_strserver01: "eats P (strserver01_round l u)"
  by (auto simp: strserver01_round_def sys_int_def exit0_def intro!: eats_first eats_intros lawful_intros)

interpretation str_echo_cred_loop: consuming "str_echo_cred_round sockfd" for sockfd
  by unfold_locales (auto simp: str_echo_cred_round_def read_cred_def intro!: eats_first eats_intros lawful_intros split: option.split)

fun ev_io :: "event \<Rightarrow> bool" where
  "ev_io (Did (C_read fd n) r) \<longleftrightarrow> True"
| "ev_io (Did (C_write fd bs) r) \<longleftrightarrow> True"
| "ev_io ev \<longleftrightarrow> False"

lemma ev_io_log [simp]: "is_log ev \<Longrightarrow> \<not> ev_io ev"
  by (cases ev) simp_all

definition in_child :: "event list \<Rightarrow> bool" where
  "in_child tr \<longleftrightarrow> (\<exists>r. Did (C_lib ''fork'' [] []) r \<in> set tr \<and> r_val r = 0)"

lemma in_child_wp:
  assumes "lawful m" and "in_child (trace w)"
  shows "wp m (\<lambda>_ v. in_child (trace v)) (\<lambda>_ v. in_child (trace v)) w"
proof -
  obtain res v where m: "m w = (res, v)" by fastforce
  then have "\<exists>tr. trace v = trace w @ tr"
    using lawfulD [OF assms(1)] by (auto simp: extends_def)
  with assms(2) have "in_child (trace v)" by (auto simp: in_child_def)
  with m show ?thesis by (cases res) (simp_all add: wp_def)
qed

definition at_rest :: "world \<Rightarrow> bool" where
  "at_rest w \<longleftrightarrow> idle w \<and> (\<forall>ev\<in>set (trace w). \<not> ev_io ev)"

definition parent_ok :: "world \<Rightarrow> bool" where
  "parent_ok w \<longleftrightarrow> in_child (trace w) \<or> along ev_idle (trace w) \<and> (\<forall>ev\<in>set (trace w). \<not> ev_io ev)"

lemma strserver01_round_wp:
  assumes "at_rest w"
  shows "wp (strserver01_round l u) (\<lambda>_. at_rest) (\<lambda>_. parent_ok) w"
  unfolding strserver01_round_def sys_int_def exit0_def
  by (intro wp_intros wp_mono [OF in_child_wp]; (intro lawful_intros)?)
    (use assms in \<open>auto simp: at_rest_def idle_def parent_ok_def in_child_def along_append conns_fold\<close>)

lemma strserver01_wp:
  assumes "trace w = []"
  shows "wp strserver01_main (\<lambda>_ _. False) (\<lambda>_. parent_ok) w"
  unfolding strserver01_main_def Listen_def Let_def unlink_def
  by (intro wp_intros forever_wp [where I = "\<lambda>_. at_rest"] eats_strserver01 strserver01_round_wp)
    (use assms in \<open>auto simp: at_rest_def idle_def parent_ok_def along_def conns_def\<close>)

text \<open>(C25) The stream server of \<open>unixdomain/\<close> is concurrent, whatever clients connect and whatever
  calls fail: as long as no \<open>fork\<close> has returned 0, that is, in the parent, it has neither read from nor
  written to a connection wherever it stops, so that no client can keep it waiting, and it has closed
  every connection that it has accepted whenever it accepts the next. (The servers of \<open>StringEcho1\<close> to
  \<open>StringEcho3\<close>, which echo before they fork, do not have this property.)\<close>

theorem strserver01_parent_only_accepts:
  assumes "strserver01_main w = (res, w')" and "trace w = []"
    and "\<forall>r. Did (C_lib ''fork'' [] []) r \<in> set (trace w') \<longrightarrow> r_val r \<noteq> 0"
  shows "along ev_idle (trace w') \<and> (\<forall>ev\<in>set (trace w'). \<not> ev_io ev)"
  using assms(1,3) strserver01_wp [OF assms(2)]
  by (cases res) (auto simp: wp_def parent_ok_def in_child_def)

lemma strserver01_round_apply:
  "strserver01_round l u w = andThen (sys_int (C_accept l)) (\<lambda>connfd. andThen get_errno (\<lambda>errno.
     if connfd < 0 then (if errno = EINTR then ret () else err_sys ''accept error'')
     else andThen Fork (\<lambda>childpid.
       if childpid = 0 then seq (Close l) (seq (str_echo connfd) exit0) else Close connfd))) w"
  by (simp add: strserver01_round_def)

theorem strserver01_parent_only_accepts_witness:
  "\<exists>w'. strserver01_main (start [ok 3, ok 0, ok 0, ok 0, ok 0, ok 0, ok 4, ok 77, ok 0, ok 4, ok 78, ok 0]) = (Inl Blocked, w') \<and>
     along ev_idle (trace w') \<and> (\<forall>ev\<in>set (trace w'). \<not> ev_io ev)"
proof -
  let ?w = "start [ok 3, ok 0, ok 0, ok 0, ok 0, ok 0, ok 4, ok 77, ok 0, ok 4, ok 78, ok 0]"
  have "\<exists>w'. strserver01_main ?w = (Inl Blocked, w') \<and>
      (\<forall>r. Did (C_lib ''fork'' [] []) r \<in> set (trace w') \<longrightarrow> r_val r \<noteq> 0)"
    by (auto simp add: strserver01_main_def Socket_def Bind_def Listen_def Let_def unlink_def Signal_def signal_def
        andThen_apply sys_apply forever_unfold [OF eats_strserver01] strserver01_round_apply sys_int_def Fork_def Close_def)
  then obtain w' where run: "strserver01_main ?w = (Inl Blocked, w')"
    and "\<forall>r. Did (C_lib ''fork'' [] []) r \<in> set (trace w') \<longrightarrow> r_val r \<noteq> 0"
    by blast
  then have "along ev_idle (trace w') \<and> (\<forall>ev\<in>set (trace w'). \<not> ev_io ev)"
    using strserver01_parent_only_accepts [OF run] by simp
  with run show ?thesis by blast
qed

text \<open>Nothing asks the kernel for credentials (\<open>SO_PASSCRED\<close>); without them the first message leads to the
  uninitialised structure being printed.\<close>

lemma cred_uninitialised:
  assumes "resps w = r # rs" and "0 \<le> r_val r" and "aux r 0 \<le> 0" and "got MAXLINE r \<noteq> []"
  shows "fst (str_echo_cred fd w) = Inl (Undef ''cred'')"
  using assms
  by (simp add: str_echo_cred_def str_echo_cred_loop.loop_unfold str_echo_cred_round_def read_cred_def
      andThen_apply sys_apply got_len_def)

end
