(* ===== verification/Broadcast.thy ===== *)
theory Broadcast
  imports Datagram_Echo "HOL-Library.Sublist"
begin

text \<open>
  The clients of \<open>broadcast\<close>, which send each line of their input and show the replies of five seconds.
  They differ in how the alarm ends the wait: it interrupts \<open>pselect\<close>, it jumps out of \<open>recvfrom\<close>, or
  its handler writes to a pipe that \<open>select\<close> watches. And the programs of \<open>udp\<close>, which do not look at
  what their calls return.
\<close>

section \<open>The clients\<close>

definition SO_BROADCAST :: int where "SO_BROADCAST = 6"

text \<open>A reply is shown with its sender; \<open>recvline\<close> has a byte more than \<open>MAXLINE\<close>.\<close>

definition show_reply :: "byte list \<Rightarrow> sockaddr \<Rightarrow> (world, unit) prog" where
  "show_reply recvline sa = andThen (Sock_ntop_host False (\<lambda>_. []) sa (sa_len sa)) (\<lambda>host.
     print ''from %s:%s'' (map of_char host @ map uint (cstr recvline)))"

text \<open>With \<open>pselect\<close>, during which the alarm is not blocked. The two signal sets are 1 and 2.\<close>

definition pselect_round :: "int \<Rightarrow> unit \<Rightarrow> (world, unit + unit) prog" where
  "pselect_round sockfd _ = andThen (sys_int (C_lib ''pselect'' [sockfd + 1, sockfd] [])) (\<lambda>n. andThen get_errno (\<lambda>errno.
     if n < 0 then (if errno = EINTR then leave () else err_sys ''pselect error: returned %d'')
     else if n \<noteq> 1 then err_sys ''pselect error: returned %d''
     else andThen (Recvfrom sockfd MAXLINE 0) (\<lambda>(recvline, sa). seq (show_reply recvline sa) (again ()))))"

definition dg_cli_broadcast4 :: "int \<Rightarrow> int \<Rightarrow> sockaddr \<Rightarrow> (world, unit) prog" where
  "dg_cli_broadcast4 handler sockfd servaddr = seq (Malloc (int (sa_len servaddr)))
     (seq (Setsockopt sockfd SOL_SOCKET SO_BROADCAST [1])
     (seq (Sigemptyset 1) (seq (Sigemptyset 2) (seq (Sigaddset 2 SIGALRM) (seq (Signal SIGALRM handler)
     (each_line (\<lambda>sendline.
        seq (Sendto sockfd sendline 0 servaddr)
       (seq (Sigprocmask 0 2 0) (seq (sys (C_alarm 5)) (loop (pselect_round sockfd) ()))))))))))"

text \<open>With \<open>siglongjmp\<close>: the handler leaves the loop, from \<open>recvfrom\<close>, which is where the program waits and
  which is then answered with \<open>EINTR\<close>, or after \<open>recvfrom\<close> has returned (\<open>alarm_after\<close>) and before the reply
  has been shown.\<close>

definition longjmp_round :: "int \<Rightarrow> unit \<Rightarrow> (world, unit + unit) prog" where
  "longjmp_round sockfd _ = andThen (sys (C_recvfrom sockfd MAXLINE 0)) (\<lambda>r. andThen get_errno (\<lambda>errno.
     if r_val r < 0 then (if errno = EINTR then leave () else err_sys ''recvfrom error'')
     else if alarm_after r then leave ()
     else seq (show_reply (got MAXLINE r) (r_addr r)) (again ())))"

definition dg_cli_broadcast5 :: "int \<Rightarrow> int \<Rightarrow> sockaddr \<Rightarrow> (world, unit) prog" where
  "dg_cli_broadcast5 handler sockfd servaddr = seq (Malloc (int (sa_len servaddr)))
     (seq (Setsockopt sockfd SOL_SOCKET SO_BROADCAST [1]) (seq (Signal SIGALRM handler)
     (each_line (\<lambda>sendline.
        seq (Sendto sockfd sendline 0 servaddr) (seq (sys (C_alarm 5)) (loop (longjmp_round sockfd) ()))))))"

text \<open>With a pipe.\<close>

definition recvfrom_alarm :: "int \<Rightarrow> (world, unit) prog" where
  "recvfrom_alarm pipefd1 = Write pipefd1 [NUL]"

definition pipe_round :: "int \<Rightarrow> int \<Rightarrow> unit \<Rightarrow> (world, unit + unit) prog" where
  "pipe_round sockfd pipefd0 _ = andThen (sys_select {sockfd, pipefd0} {} {} None) (\<lambda>(n, rset, _). andThen get_errno (\<lambda>errno.
     if n < 0 then (if errno = EINTR then again () else err_sys ''select error'')
     else seq (if sockfd \<in> rset then
          andThen (Recvfrom sockfd MAXLINE 0) (\<lambda>(recvline, sa). show_reply recvline sa) else ret ())
       (if pipefd0 \<in> rset then seq (Read pipefd0 1) (leave ()) else again ())))"

definition dg_cli_broadcast6 :: "int \<Rightarrow> int \<Rightarrow> sockaddr \<Rightarrow> (world, unit) prog" where
  "dg_cli_broadcast6 handler sockfd servaddr = seq (Malloc (int (sa_len servaddr)))
     (seq (Setsockopt sockfd SOL_SOCKET SO_BROADCAST [1])
     (andThen Pipe (\<lambda>(pipefd0, pipefd1). seq (Signal SIGALRM handler)
     (each_line (\<lambda>sendline.
        seq (Sendto sockfd sendline 0 servaddr)
       (seq (sys (C_alarm 5)) (loop (pipe_round sockfd pipefd0) ())))))))"

definition broadcast_main :: "(int \<Rightarrow> sockaddr \<Rightarrow> (world, unit) prog) \<Rightarrow> (world, int) prog" where
  "broadcast_main cli = andThen (Inet_pton AF_INET (lit ''127.0.0.1'')) (\<lambda>addr.
     andThen (Socket AF_INET SOCK_DGRAM 0) (\<lambda>sockfd.
     seq (cli sockfd (Sin (htons 1234) (addr4 addr))) (ret 0)))"

definition broadcast4_main :: "(world, int) prog" where "broadcast4_main = broadcast_main (dg_cli_broadcast4 1)"
definition broadcast5_main :: "(world, int) prog" where "broadcast5_main = broadcast_main (dg_cli_broadcast5 1)"
definition broadcast6_main :: "(world, int) prog" where "broadcast6_main = broadcast_main (dg_cli_broadcast6 1)"

section \<open>The programs of udp\<close>

definition INADDR_BROADCAST :: u32 where "INADDR_BROADCAST = 0xffffffff"

text \<open>\<open>recvline\<close> is not initialised, so that it must contain a null byte that was received.\<close>

definition dg_serv :: "int \<Rightarrow> (world, unit) prog" where
  "dg_serv sockfd = seq (sys (C_setsockopt sockfd SOL_SOCKET SO_BROADCAST [1]))
     (seq (sys (C_sendto sockfd (lit ''hello'') 0 (Sin (htons 4321) INADDR_BROADCAST)))
     (andThen (sys_recvfrom sockfd 1023 0) (\<lambda>(n, recvline, _).
        if NUL \<in> set recvline then print ''received: .length is '' (map uint (cstr recvline) @ [n])
        else halt (Undef ''recvline''))))"

definition udpserver_main :: "(world, int) prog" where
  "udpserver_main = andThen (sys_int (C_socket AF_INET SOCK_DGRAM 0)) (\<lambda>sockfd.
     seq (sys (C_bind sockfd (Sin (htons 1234) INADDR_ANY))) (seq (dg_serv sockfd) (ret 0)))"

text \<open>The clients' own \<open>sock_ntop_host\<close> knows IPv4 only. The null byte after the data lies outside of
  \<open>recvline\<close> when 1024 bytes have come, and before it when \<open>recvfrom\<close> has failed.\<close>

fun sock_ntop_host_udp :: "sockaddr \<Rightarrow> nat \<Rightarrow> string" where
  "sock_ntop_host_udp (Sin port a) salen = dotted a"
| "sock_ntop_host_udp sa salen =
     snprintf 128 (''sock_ntop_host: unknown AF_xxx: '' @ dec_int (sa_family sa) @ '', len '' @ dec salen)"

definition udp_show :: "int \<Rightarrow> (world, unit) prog" where
  "udp_show sockfd = andThen (sys_recvfrom sockfd 1024 0) (\<lambda>(n, recvline, sa).
     if n < 0 \<or> 1024 \<le> n then halt (Undef ''recvline'')
     else seq (print ''from %s:'' (map of_char (sock_ntop_host_udp sa (sa_len sa)))) (print ''hex'' (map uint recvline)))"

definition vin_request :: "int \<Rightarrow> byte list \<Rightarrow> (world, unit) prog" where
  "vin_request sockfd bs = seq (sys (C_sendto sockfd bs 0 (Sin (htons 13400) INADDR_ANY))) (ret ())"

definition udpclient_dg_cli :: "int \<Rightarrow> (world, unit) prog" where
  "udpclient_dg_cli sockfd = seq (sys (C_lib ''malloc'' [16] []))
     (seq (sys (C_setsockopt sockfd SOL_SOCKET SO_BROADCAST [1])) (seq (udp_show sockfd)
     (seq (vin_request sockfd [0x02, 0xFD, 0x00, 0x09, 0x00, 0x00, 0x00, 0x00])
     (forever (\<lambda>_. udp_show sockfd) ()))))"

definition udpclient2_dg_cli :: "int \<Rightarrow> (world, unit) prog" where
  "udpclient2_dg_cli sockfd = seq (sys (C_lib ''malloc'' [16] []))
     (seq (vin_request sockfd [0x02, 0xFD, 0x40, 0x03, 0x00, 0x00, 0x00, 0x00])
     (forever (\<lambda>_. udp_show sockfd) ()))"

definition udp_main :: "(int \<Rightarrow> (world, unit) prog) \<Rightarrow> (world, int) prog" where
  "udp_main cli = andThen (sys_int (C_socket AF_INET SOCK_DGRAM 0)) (\<lambda>sockfd.
     seq (sys (C_bind sockfd (Sin (htons 4321) INADDR_ANY))) (seq (cli sockfd) (ret 0)))"

definition udpclient_main :: "(world, int) prog" where "udpclient_main = udp_main udpclient_dg_cli"
definition udpclient2_main :: "(world, int) prog" where "udpclient2_main = udp_main udpclient2_dg_cli"

section \<open>The loops make progress\<close>

lemma lawful_broadcast [lawful_intros]:
  "lawful (show_reply recvline sa)" "lawful (udp_show fd)" "lawful (vin_request fd bs)"
  unfolding show_reply_def udp_show_def vin_request_def by (intro lawful_intros)+

interpretation pselect_w: consuming "pselect_round sockfd" for sockfd
  by unfold_locales (auto simp: pselect_round_def sys_int_def intro!: eats_first eats_intros lawful_intros)

interpretation longjmp_w: consuming "longjmp_round sockfd" for sockfd
  by unfold_locales (auto simp: longjmp_round_def intro!: eats_first eats_intros lawful_intros)

interpretation pipe_w: consuming "pipe_round sockfd pipefd0" for sockfd pipefd0
  by unfold_locales (auto simp: pipe_round_def intro!: eats_first eats_intros lawful_intros)

lemma eats_udp_show: "eats P (udp_show fd)"
  unfolding udp_show_def by (intro eats_first eats_intros lawful_intros)

section \<open>Every reply is shown\<close>

fun ev_reply :: "event \<Rightarrow> int list list" where
  "ev_reply (Did (C_recvfrom fd n flags) r) = (if 0 \<le> r_val r then
     [map of_char (the (sock_ntop_host False (\<lambda>_. []) (r_addr r) (sa_len (r_addr r)))) @ map uint (cstr (got n r))] else [])"
| "ev_reply ev = []"

fun ev_shown :: "event \<Rightarrow> int list list" where
  "ev_shown (Print fmt args) = (if fmt = ''from %s:%s'' then [args] else [])"
| "ev_shown ev = []"

definition replies :: "event list \<Rightarrow> int list list" where "replies tr = concat (map ev_reply tr)"
definition shown :: "event list \<Rightarrow> int list list" where "shown tr = concat (map ev_shown tr)"

lemma reply_simps [simp]:
  "replies [] = []" "replies (ev # tr) = ev_reply ev @ replies tr" "replies (tr @ tr') = replies tr @ replies tr'"
  "shown [] = []" "shown (ev # tr) = ev_shown ev @ shown tr" "shown (tr @ tr') = shown tr @ shown tr'"
  by (simp_all add: replies_def shown_def)

definition all_shown :: "world \<Rightarrow> bool" where
  "all_shown w \<longleftrightarrow> replies (trace w) = shown (trace w)"

lemma host_total: "\<exists>host. sock_ntop_host False (\<lambda>_. []) sa salen = Some host"
  by (cases sa) simp_all

definition stop_shown :: "stop \<Rightarrow> world \<Rightarrow> bool" where
  "stop_shown e w \<longleftrightarrow> (e = Blocked \<longrightarrow> all_shown w)"

lemma all_shown_quiet: "all_shown w \<Longrightarrow> trace v = trace w @ tr \<Longrightarrow> replies tr = [] \<Longrightarrow> shown tr = [] \<Longrightarrow> all_shown v"
  by (simp add: all_shown_def)

lemma show_reply_wp:
  assumes "trace w = tr @ [Did (C_recvfrom fd n flags) r]" and "replies tr = shown tr" and "0 \<le> r_val r"
  shows "wp (show_reply (got n r) (r_addr r)) (\<lambda>_. all_shown) stop_shown w"
proof -
  obtain host where "sock_ntop_host False (\<lambda>_. []) (r_addr r) (sa_len (r_addr r)) = Some host"
    using host_total by blast
  then show ?thesis
    using assms by (simp add: wp_def show_reply_def Sock_ntop_host_def andThen_apply all_shown_def)
qed

lemma broadcast_rounds_wp:
  assumes "all_shown w"
  shows "wp (pselect_round fd x) (\<lambda>_. all_shown) stop_shown w" "wp (pipe_round fd p x) (\<lambda>_. all_shown) stop_shown w"
proof -
  have reply: "wp (show_reply (got MAXLINE r) (r_addr r)) (\<lambda>_. all_shown) stop_shown
      (took (C_recvfrom fd MAXLINE 0) r v)" if "all_shown v" "0 \<le> r_val r" for r and v :: world
    by (rule show_reply_wp) (use that in \<open>auto simp: all_shown_def\<close>)
  show "wp (pselect_round fd x) (\<lambda>_. all_shown) stop_shown w"
    unfolding pselect_round_def sys_int_def
    by (intro wp_intros wp_mono [OF reply]) (use assms in \<open>auto simp: stop_shown_def all_shown_def intro!: wp_intros wp_mono [OF reply]\<close>)
  show "wp (pipe_round fd p x) (\<lambda>_. all_shown) stop_shown w"
    unfolding pipe_round_def sys_select_def
    by (intro wp_intros wp_mono [OF reply]) (use assms in \<open>auto simp: stop_shown_def all_shown_def intro!: wp_intros wp_mono [OF reply]\<close>)
qed

lemma loops_shown:
  assumes "all_shown w"
  shows "wp (loop (pselect_round fd) ()) (\<lambda>_. all_shown) stop_shown w" "wp (loop (pipe_round fd p) ()) (\<lambda>_. all_shown) stop_shown w"
  by (rule pselect_w.loop_wp [where I = "\<lambda>_. all_shown", OF assms] pipe_w.loop_wp [where I = "\<lambda>_. all_shown", OF assms],
      rule wp_mono [OF broadcast_rounds_wp(1)] wp_mono [OF broadcast_rounds_wp(2)],
      auto split: sum.split)+

text \<open>With the jump, a reply can be lost for each line: the replies that are shown, how many are lost, and
  the lines that have been sent.\<close>

fun ev_kept :: "event \<Rightarrow> int list list" where
  "ev_kept (Did c r) = (if alarm_after r then [] else ev_reply (Did c r))"
| "ev_kept ev = []"

fun ev_cut :: "event \<Rightarrow> bool" where
  "ev_cut (Did (C_recvfrom fd n flags) r) \<longleftrightarrow> 0 \<le> r_val r \<and> alarm_after r"
| "ev_cut ev \<longleftrightarrow> False"

fun ev_line :: "event \<Rightarrow> bool" where
  "ev_line (Did (C_sendto fd bs flags sa) r) \<longleftrightarrow> True"
| "ev_line ev \<longleftrightarrow> False"

definition kept :: "event list \<Rightarrow> int list list" where "kept tr = concat (map ev_kept tr)"
definition cuts :: "event list \<Rightarrow> nat" where "cuts tr = length (filter ev_cut tr)"
definition lines_sent :: "event list \<Rightarrow> nat" where "lines_sent tr = length (filter ev_line tr)"

lemma kept_simps [simp]:
  "kept [] = []" "kept (ev # tr) = ev_kept ev @ kept tr" "kept (tr @ tr') = kept tr @ kept tr'"
  "cuts [] = 0" "cuts (ev # tr) = (if ev_cut ev then 1 else 0) + cuts tr" "cuts (tr @ tr') = cuts tr + cuts tr'"
  "lines_sent [] = 0" "lines_sent (ev # tr) = (if ev_line ev then 1 else 0) + lines_sent tr"
  "lines_sent (tr @ tr') = lines_sent tr + lines_sent tr'"
  by (simp_all add: kept_def cuts_def lines_sent_def)

lemma kept_replies: "subseq (kept tr) (replies tr)" "length (replies tr) = length (kept tr) + cuts tr"
proof -
  have "subseq (ev_kept ev) (ev_reply ev) \<and> length (ev_reply ev) = length (ev_kept ev) + (if ev_cut ev then 1 else 0)" for ev
    by (cases ev rule: ev_reply.cases) auto
  then show "subseq (kept tr) (replies tr)" "length (replies tr) = length (kept tr) + cuts tr"
    by (induction tr) (auto intro: list_emb_append_mono)
qed

text \<open>At most \<open>k\<close> fewer replies are lost than lines were sent.\<close>

definition all_kept :: "nat \<Rightarrow> world \<Rightarrow> bool" where
  "all_kept k w \<longleftrightarrow> shown (trace w) = kept (trace w) \<and> cuts (trace w) + k \<le> lines_sent (trace w)"

definition stop_kept :: "stop \<Rightarrow> world \<Rightarrow> bool" where
  "stop_kept e w \<longleftrightarrow> (e = Blocked \<longrightarrow> all_kept 0 w)"

lemma all_kept_0: "all_kept k w \<Longrightarrow> all_kept 0 w"
  by (simp add: all_kept_def)

lemma longjmp_round_wp:
  assumes "all_kept 1 w"
  shows "wp (longjmp_round fd x) (\<lambda>z. case z of Inl _ \<Rightarrow> all_kept 1 | Inr _ \<Rightarrow> all_kept 0) stop_kept w"
proof -
  have reply: "wp (show_reply (got n r) (r_addr r)) (\<lambda>_. all_kept 1) stop_kept (took (C_recvfrom fd n 0) r w)"
    if "0 \<le> r_val r" "\<not> alarm_after r" for n r
  proof -
    obtain host where "sock_ntop_host False (\<lambda>_. []) (r_addr r) (sa_len (r_addr r)) = Some host"
      using host_total by blast
    then show ?thesis
      using assms that by (simp add: wp_def show_reply_def Sock_ntop_host_def andThen_apply all_kept_def)
  qed
  show ?thesis
    unfolding longjmp_round_def
    by (intro wp_intros wp_mono [OF reply]) (use assms in \<open>auto simp: stop_kept_def all_kept_def\<close>)
qed

lemma longjmp_loop_wp:
  assumes "all_kept 1 w"
  shows "wp (loop (longjmp_round fd) ()) (\<lambda>_. all_kept 0) stop_kept w"
  by (rule longjmp_w.loop_wp [where I = "\<lambda>_. all_kept 1", OF assms])
    (rule wp_mono [OF longjmp_round_wp], assumption, auto split: sum.split)

lemma lawful_broadcast_loops [lawful_intros]:
  "lawful (loop (pselect_round fd) ())" "lawful (loop (longjmp_round fd) ())" "lawful (loop (pipe_round fd p) ())"
  by (rule pselect_w.loop_lawful longjmp_w.loop_lawful pipe_w.loop_lawful,
      auto simp: pselect_round_def longjmp_round_def pipe_round_def sys_int_def intro!: lawful_intros)+

lemma each_line_wp:
  assumes "I w" and "\<And>l. lawful (body l)" and "\<And>l w. I w \<Longrightarrow> wp (body l) (\<lambda>_. I) E w"
    and "\<And>n r w. I w \<Longrightarrow> I (took (C_fgets n) r w)" and "\<And>w. I w \<Longrightarrow> E Blocked w"
    and "\<And>w. E (Exit 1 ''fgets error'') w"
  shows "wp (each_line body) (\<lambda>_. I) E w"
  unfolding each_line_def
proof (rule consuming.loop_wp [OF consuming_each_line [OF assms(2)], where I = "\<lambda>_. I", OF assms(1)])
  fix x and v :: world
  assume "I v"
  then show "wp (each_line_round body x) (\<lambda>z v. case z of Inl _ \<Rightarrow> I v | Inr _ \<Rightarrow> I v) E v"
    unfolding each_line_round_def
    by (intro wp_intros wp_mono [OF assms(3)]) (auto simp: assms(4-6))
qed

lemma each_line_shown:
  assumes "all_shown w" and "\<And>l. lawful (body l)" and "\<And>l w. all_shown w \<Longrightarrow> wp (body l) (\<lambda>_. all_shown) stop_shown w"
  shows "wp (each_line body) (\<lambda>_. all_shown) stop_shown w"
  using assms by (rule each_line_wp) (simp_all add: stop_shown_def all_shown_def)

lemma broadcast_wp:
  assumes "trace w = []"
  shows "wp (dg_cli_broadcast4 h fd sa) (\<lambda>_. all_shown) stop_shown w" "wp (dg_cli_broadcast6 h fd sa) (\<lambda>_. all_shown) stop_shown w"
proof -
  have body: "wp (seq (Sendto fd l 0 sa) (seq (Sigprocmask 0 2 0) (seq (sys (C_alarm 5)) (loop (pselect_round fd) ()))))
      (\<lambda>_. all_shown) stop_shown v"
    "wp (seq (Sendto fd l 0 sa) (seq (sys (C_alarm 5)) (loop (pipe_round fd p) ()))) (\<lambda>_. all_shown) stop_shown v"
    if "all_shown v" for l p and v :: world
    by (intro wp_intros loops_shown; (use that in \<open>auto simp: stop_shown_def all_shown_def\<close>)?)+
  show "wp (dg_cli_broadcast4 h fd sa) (\<lambda>_. all_shown) stop_shown w" "wp (dg_cli_broadcast6 h fd sa) (\<lambda>_. all_shown) stop_shown w"
    unfolding dg_cli_broadcast4_def dg_cli_broadcast6_def
    by (intro wp_intros each_line_shown body lawful_intros;
        (assumption | use assms in \<open>auto simp: stop_shown_def all_shown_def\<close>)?)+
qed

lemma broadcast5_wp:
  assumes "trace w = []"
  shows "wp (dg_cli_broadcast5 h fd sa) (\<lambda>_. all_kept 0) stop_kept w"
proof -
  have body: "wp (seq (Sendto fd l 0 sa) (seq (sys (C_alarm 5)) (loop (longjmp_round fd) ()))) (\<lambda>_. all_kept 0) stop_kept v"
    if "all_kept 0 v" for l and v :: world
    by (intro wp_intros longjmp_loop_wp; (use that in \<open>auto simp: stop_kept_def all_kept_def\<close>)?)
  have lines: "wp (each_line (\<lambda>l. seq (Sendto fd l 0 sa) (seq (sys (C_alarm 5)) (loop (longjmp_round fd) ()))))
      (\<lambda>_. all_kept 0) stop_kept v" if "all_kept 0 v" for v
    by (rule each_line_wp [OF that _ body]) (auto simp: stop_kept_def all_kept_def intro!: lawful_intros)
  show ?thesis
    unfolding dg_cli_broadcast5_def
    by (intro wp_intros lines) (use assms in \<open>auto simp: stop_kept_def all_kept_def\<close>)
qed

text \<open>(C40) The clients end the wait for replies in different ways. With an interrupted \<open>pselect\<close> and with a
  byte in a pipe they show every reply they receive, once, in order and with its sender: at every call at
  which such a client waits, and when it returns, what was shown is what was received. The one that jumps
  out of the wait can lose a reply, when the alarm goes off between \<open>recvfrom\<close> and \<open>printf\<close>: exactly the
  replies it has got then are not shown, the others are, in order, and no more than one is lost for
  each line it has sent.\<close>

theorem broadcast_clients_show_all:
  assumes "trace w = []" and "res = Inl Blocked \<or> res = Inr ()"
  shows "(dg_cli_broadcast4 handler sockfd sa w = (res, w') \<or> dg_cli_broadcast6 handler sockfd sa w = (res, w') \<longrightarrow>
      shown (trace w') = replies (trace w')) \<and>
    (dg_cli_broadcast5 handler sockfd sa w = (res, w') \<longrightarrow>
      shown (trace w') = kept (trace w') \<and> subseq (shown (trace w')) (replies (trace w')) \<and>
      length (replies (trace w')) \<le> length (shown (trace w')) + lines_sent (trace w'))"
proof -
  have "shown (trace w') = replies (trace w')"
    if "dg_cli_broadcast4 handler sockfd sa w = (res, w') \<or> dg_cli_broadcast6 handler sockfd sa w = (res, w')"
    using that broadcast_wp [OF assms(1), of handler sockfd sa] assms(2)
    by (auto simp: wp_def stop_shown_def all_shown_def)
  moreover have "all_kept 0 w'" if "dg_cli_broadcast5 handler sockfd sa w = (res, w')"
    using that broadcast5_wp [OF assms(1), of handler sockfd sa] assms(2) by (auto simp: wp_def stop_kept_def)
  ultimately show ?thesis
    using kept_replies [of "trace w'"] by (auto simp: all_kept_def)
qed

interpretation pipe_lines: consuming "each_line_round (\<lambda>sendline.
    seq (Sendto sockfd sendline 0 servaddr) (seq (sys (C_alarm 5)) (loop (pipe_round sockfd pipefd0) ())))"
  for sockfd servaddr pipefd0
  by (rule consuming_each_line) (intro lawful_intros)

text \<open>One line, one reply, and the alarm.\<close>

definition broadcast_example :: "resp list" where
  "broadcast_example = [ok 1, ok 0, no_resp\<lparr>r_aux := [5, 6]\<rparr>, ok 0, gives [104, 10], ok 2, ok 0,
     no_resp\<lparr>r_rd := {3}\<rparr>, (gives [105])\<lparr>r_addr := Sin 0 16777343\<rparr>, no_resp\<lparr>r_rd := {5}\<rparr>, gives [0], gives []]"

interpretation jump_lines: consuming "each_line_round (\<lambda>sendline.
    seq (Sendto sockfd sendline 0 servaddr) (seq (sys (C_alarm 5)) (loop (longjmp_round sockfd) ())))"
  for sockfd servaddr
  by (rule consuming_each_line) (intro lawful_intros)

text \<open>The same with the jump: two replies, and the alarm before the second is shown.\<close>

definition jump_example :: "resp list" where
  "jump_example = [ok 1, ok 0, ok 0, gives [104, 10], ok 2, ok 0, (gives [105])\<lparr>r_addr := Sin 0 16777343\<rparr>,
     (gives [106])\<lparr>r_aux := [1]\<rparr>, gives []]"

theorem broadcast_clients_show_all_witness:
  "(\<exists>w'. dg_cli_broadcast6 1 3 (Sin 0 0) (start broadcast_example) = (Inr (), w') \<and>
     shown (trace w') = [map of_char ''127.0.0.1'' @ [105]] \<and> shown (trace w') = replies (trace w')) \<and>
   (\<exists>w'. dg_cli_broadcast5 1 3 (Sin 0 0) (start jump_example) = (Inr (), w') \<and>
     shown (trace w') = [map of_char ''127.0.0.1'' @ [105]] \<and> length (replies (trace w')) \<le> 2)"
proof -
  have pipe: "aux (no_resp\<lparr>r_aux := [5, 6]\<rparr>) 0 = 5" "aux (no_resp\<lparr>r_aux := [5, 6]\<rparr>) (Suc 0) = 6"
    by (simp_all add: aux_def)
  have host: "dotted 16777343 = ''127.0.0.1''" by code_simp
  have late: "alarm_after ((gives bs)\<lparr>r_aux := [1]\<rparr>)" "\<not> alarm_after ((gives bs)\<lparr>r_addr := sa\<rparr>)" for bs sa
    by (simp_all add: alarm_after_def aux_def gives_def no_resp_def)
  have "\<exists>w'. dg_cli_broadcast6 1 3 (Sin 0 0) (start broadcast_example) = (Inr (), w') \<and>
      shown (trace w') = [map of_char ''127.0.0.1'' @ [105]]"
    by (simp add: dg_cli_broadcast6_def each_line_def broadcast_example_def andThen_apply sys_apply Malloc_def Setsockopt_def
        Pipe_def pipe Signal_def signal_def Let_def
        pipe_lines.loop_unfold each_line_round_def Fgets_def fgets_line_def upto_newline_def pipe_w.loop_unfold pipe_round_def
        sys_select_def ready_count_def Sendto_def [THEN fun_cong] put_len_def Recvfrom_def got_len_def got_def MAXLINE_def
        show_reply_def Sock_ntop_host_def host Read_def cstr_def)
  moreover have "\<exists>w'. dg_cli_broadcast5 1 3 (Sin 0 0) (start jump_example) = (Inr (), w') \<and>
      shown (trace w') = [map of_char ''127.0.0.1'' @ [105]] \<and> lines_sent (trace w') = 1"
    by (simp add: dg_cli_broadcast5_def each_line_def jump_example_def andThen_apply sys_apply Malloc_def Setsockopt_def
        Signal_def signal_def Let_def late
        jump_lines.loop_unfold each_line_round_def Fgets_def fgets_line_def upto_newline_def longjmp_w.loop_unfold
        longjmp_round_def Sendto_def [THEN fun_cong] put_len_def got_def MAXLINE_def
        show_reply_def Sock_ntop_host_def host cstr_def)
  ultimately obtain v w' where pipe_run: "dg_cli_broadcast6 1 3 (Sin 0 0) (start broadcast_example) = (Inr (), v)"
      "shown (trace v) = [map of_char ''127.0.0.1'' @ [105]]"
    and jump_run: "dg_cli_broadcast5 1 3 (Sin 0 0) (start jump_example) = (Inr (), w')"
      "shown (trace w') = [map of_char ''127.0.0.1'' @ [105]]" "lines_sent (trace w') = 1" by blast
  note all = broadcast_clients_show_all [where handler = 1 and sockfd = 3 and sa = "Sin 0 0" and res = "Inr ()"]
  have "shown (trace v) = replies (trace v)"
    using all [of "start broadcast_example" v] pipe_run(1) by simp
  moreover have "length (replies (trace w')) \<le> 2"
    using all [of "start jump_example" w'] jump_run by simp
  ultimately show ?thesis using pipe_run jump_run by blast
qed

end
