(* ===== verification/Udp_Checksum.thy ===== *)
theory Udp_Checksum
  imports Traceroute
begin

text \<open>
  \<open>udpchsum/\<close>: a program that asks a name server whether it uses UDP checksums, with a query sent on a
  raw socket and the reply captured from the interface. \<open>udpwrite.cpp\<close> (building the datagram),
  \<open>udpread.cpp\<close> (checking one), \<open>senddnsquery-raw.cpp\<close>, \<open>pcap.cpp\<close>, \<open>cleanup.cpp\<close> and \<open>main.cpp\<close>. The
  header \<open>struct udpiphdr\<close>, an IP header with a UDP header, is the one of BSD: nine unused bytes, the
  protocol, the length, the two addresses; then ports, length and checksum. The packet capture library is
  not among the sources: its functions are calls whose responses are parameters.

  The sources do not compile on Linux. \<open>usage\<close> is declared but defined nowhere, and is a parameter;
  \<open>test_udp\<close> uses a signal handler and a jump buffer that no file declares, so \<open>udp_read\<close> under that handler
  is a parameter too: it returns a packet, or \<open>None\<close> when the alarm has cut it short.
\<close>

section \<open>Writing a datagram\<close>

definition TTL_OUT :: byte where "TTL_OUT = 64"
definition IP_HDRINCL :: int where "IP_HDRINCL = 3"

definition open_output :: "sockaddr \<Rightarrow> (world, int) prog" where
  "open_output dest = andThen (Socket (sa_family dest) SOCK_RAW 0) (\<lambda>rawfd.
     seq (Setsockopt rawfd IPPROTO_IP IP_HDRINCL [1]) (ret rawfd))"

text \<open>The buffer while the checksum is computed: the unused bytes are zero, so that the header is the
  pseudo-header of UDP.\<close>

definition ui_buffer :: "u16 \<Rightarrow> u32 \<Rightarrow> u16 \<Rightarrow> u32 \<Rightarrow> u16 \<Rightarrow> byte list \<Rightarrow> byte list" where
  "ui_buffer lport laddr dport daddr ui_sum user = (let ui_len = bytes16 (htons (word_of_nat (8 + length user))) in
     replicate 9 0 @ [17] @ ui_len @ bytes32 laddr @ bytes32 daddr @
     bytes16 lport @ bytes16 dport @ ui_len @ bytes16 ui_sum @ user)"

definition ui_sum_of :: "bool \<Rightarrow> u16 \<Rightarrow> u32 \<Rightarrow> u16 \<Rightarrow> u32 \<Rightarrow> byte list \<Rightarrow> u16" where
  "ui_sum_of zerosum lport laddr dport daddr user =
     (if zerosum then 0
      else let s = in_cksum (ui_buffer lport laddr dport daddr 0 user) in if s = 0 then 0xffff else s)"

text \<open>The first nine bytes are then overwritten with those of the IP header; its checksum, where \<open>ui_len\<close>
  was stored, is left to the kernel.\<close>

definition udp_packet :: "bool \<Rightarrow> u16 \<Rightarrow> u32 \<Rightarrow> u16 \<Rightarrow> u32 \<Rightarrow> byte list \<Rightarrow> byte list" where
  "udp_packet zerosum lport laddr dport daddr user =
     [0x45, 0] @ bytes16 (htons (word_of_nat (28 + length user))) @ bytes16 0 @ bytes16 0 @ [TTL_OUT] @
     drop 9 (ui_buffer lport laddr dport daddr (ui_sum_of zerosum lport laddr dport daddr user) user)"

definition udp_write :: "bool \<Rightarrow> int \<Rightarrow> sockaddr \<Rightarrow> sockaddr \<Rightarrow> byte list \<Rightarrow> (world, unit) prog" where
  "udp_write zerosum rawfd local dest user = (case (local, dest) of
     (Sin lport laddr, Sin dport daddr) \<Rightarrow> Sendto rawfd (udp_packet zerosum lport laddr dport daddr user) 0 dest
   | _ \<Rightarrow> halt (Undef ''sin_addr''))"

text \<open>The query for the address of \<open>a.root-servers.net\<close>.\<close>

definition dns_query :: "byte list" where
  "dns_query = bytes16 (htons 1234) @ bytes16 (htons 0x0100) @ bytes16 (htons 1) @ bytes16 0 @ bytes16 0 @ bytes16 0 @
     [1] @ lit ''a'' @ [12] @ lit ''root-servers'' @ [3] @ lit ''net'' @ [0] @ bytes16 (htons 1) @ bytes16 (htons 1)"

definition send_dns_query :: "bool \<Rightarrow> bool \<Rightarrow> int \<Rightarrow> sockaddr \<Rightarrow> sockaddr \<Rightarrow> (world, unit) prog" where
  "send_dns_query verbose zerosum rawfd local dest = seq (Malloc (28 + 100))
     (seq (udp_write zerosum rawfd local dest dns_query)
          (only_if verbose (print ''sent:%d bytes of data'' [int (length dns_query)])))"

section \<open>Reading a datagram\<close>

text \<open>\<open>len\<close> is compared as a \<open>size_t\<close>: when it is negative, the first test does not catch it and what is
  read lies outside of what was captured. The checksum that was computed is stored in the packet.\<close>

definition udp_check :: "byte list \<Rightarrow> int \<Rightarrow> (world, byte list) prog" where
  "udp_check ptr len =
     (if (word_of_int len :: u64) < 28 then err_quit ''len=%d''
      else if len < 0 \<or> length ptr < nat len then halt (Undef ''ptr'')
      else if drop_bit 4 (byte_at 0 ptr) \<noteq> 4 then err_quit ''ip_v = %d''
      else if ip_hlen ptr < 20 then err_quit ''ip_hl=%d''
      else if len < int (ip_hlen ptr) + 8 then err_quit ''len=%d, hlen=%d''
      else let ip_sum = in_cksum (take (ip_hlen ptr) ptr) in
        if ip_sum \<noteq> 0 then err_quit ''ip check sum error''
        else if ip_p ptr = IPPROTO_UDP then ret (take 10 ptr @ bytes16 ip_sum @ drop 12 ptr)
        else err_quit ''not a udp packet'')"

definition pcap_round :: "unit \<Rightarrow> (world, unit + byte list) prog" where
  "pcap_round _ = andThen (sys (C_lib ''pcap_next'' [] [])) (\<lambda>r.
     if r_val r = 0 then again () else leave (r_data r))"

definition next_pcap :: "(world, byte list) prog" where
  "next_pcap = loop pcap_round ()"

definition DLT_NULL :: int where "DLT_NULL = 0"
definition DLT_EN10MB :: int where "DLT_EN10MB = 1"
definition DLT_SLIP :: int where "DLT_SLIP = 8"
definition DLT_PPP :: int where "DLT_PPP = 9"
definition ETHERTYPE_IP :: u16 where "ETHERTYPE_IP = 0x0800"

definition udp_read :: "int \<Rightarrow> (world, byte list) prog" where
  "udp_read datalink = andThen next_pcap (\<lambda>ptr. let len = int (length ptr) in
     if datalink = DLT_NULL then udp_check (drop 4 ptr) (len - 4)
     else if datalink = DLT_EN10MB then
       if len < 14 then halt (Undef ''eptr'')
       else if ntohs (half_at 12 ptr) \<noteq> ETHERTYPE_IP then err_quit ''ethernet type %x not iP''
       else udp_check (drop 14 ptr) (len - 14)
     else if datalink = DLT_SLIP \<or> datalink = DLT_PPP then udp_check (drop 24 ptr) (len - 24)
     else err_quit ''unsupported datalink (%d)'')"

section \<open>Capture, options and the end\<close>

text \<open>\<open>main\<close> opens the device of the option \<open>-i\<close> or the default one; the result is \<open>datalink\<close>.\<close>

definition pcap_cmd :: "sockaddr \<Rightarrow> string \<Rightarrow> byte list" where
  "pcap_cmd dest host = lit (snprintf MAXLINE
     (''udp src host '' @ host @ '' and src port '' @ dec_int (uint (ntohs (word_of_int (sock_get_port False dest))))))"

definition open_pcap :: "bool \<Rightarrow> byte list option \<Rightarrow> sockaddr \<Rightarrow> (world, int) prog" where
  "open_pcap verbose device dest =
     andThen (case device of Some d \<Rightarrow> ret d
       | None \<Rightarrow> andThen (sys (C_lib ''pcap_lookupdev'' [] [])) (\<lambda>r.
           if r_val r = 0 then err_quit ''pcap_lookup:%s'' else ret (cstr (r_data r)))) (\<lambda>device.
     seq (print ''device = %s '' (map uint device))
    (andThen (sys_int (C_lib ''pcap_open_live'' [200, 0, 500] device)) (\<lambda>pd.
     if pd = 0 then err_quit ''pcap_open_live:%s''
     else andThen (sys (C_lib ''pcap_lookupnet'' [] device)) (\<lambda>net.
     if r_val net < 0 then err_quit ''pcap_lookupnet:%s''
     else seq (only_if verbose
          (andThen (Inet_ntop AF_INET (bytes32 (word_of_int (aux net 1))) False 16) (\<lambda>mask.
           andThen (Inet_ntop AF_INET (bytes32 (word_of_int (aux net 0))) False 16) (\<lambda>localnet.
             print ''localnet = %s, netmask=%s'' (map uint (localnet @ mask))))))
    (andThen (Sock_ntop_host False (\<lambda>_. []) dest (sa_len dest)) (\<lambda>host.
     let cmd = pcap_cmd dest host in
     seq (only_if verbose (print ''cmd = %s'' (map uint cmd)))
    (andThen (sys_int (C_lib ''pcap_compile'' [pd, aux net 1] cmd)) (\<lambda>c.
     if c < 0 then err_quit ''pcap_compile:%s''
     else andThen (sys_int (C_lib ''pcap_setfilter'' [pd] [])) (\<lambda>f.
     if f < 0 then err_quit ''pcap_setfilter:%s''
     else andThen (sys_int (C_lib ''pcap_datalink'' [pd] [])) (\<lambda>datalink.
     if datalink < 0 then err_quit ''pcap_datalink:%s''
     else seq (only_if verbose (print ''datalink=%d'' [datalink])) (ret datalink)))))))))))"

definition cleanup :: "bool \<Rightarrow> (world, unit) prog" where
  "cleanup verbose = seq (print '''' [])
     (seq (only_if verbose (andThen (sys (C_lib ''pcap_stats'' [] [])) (\<lambda>r.
        if r_val r < 0 then err_quit ''pcap_stats:%s''
        else seq (print ''%d packets received by filter'' [aux r 0]) (print ''%d packets dropped by kernel'' [aux r 1]))))
      (halt (Exit 0 '''')))"

record udpopts =
  o_zerosum :: bool
  o_device :: "byte list option"
  o_local :: "(byte list \<times> byte list) option"
  o_verbose :: bool

text \<open>The argument of \<open>-l\<close> is split at its last dot; \<open>localname\<close> has 1024 bytes. The option \<open>0\<close> is 48,
  \<open>i\<close> 105, \<open>l\<close> 108, \<open>v\<close> 118.\<close>

definition split_dot :: "byte list \<Rightarrow> (byte list \<times> byte list) option" where
  "split_dot arg = (if 46 \<notin> set arg then None
     else Some (rev (tl (dropWhile (\<lambda>b. b \<noteq> 46) (rev arg))), rev (takeWhile (\<lambda>b. b \<noteq> 46) (rev arg))))"

definition udp_option :: "(string \<Rightarrow> (world, unit) prog) \<Rightarrow> udpopts \<Rightarrow> (world, udpopts + udpopts \<times> int) prog" where
  "udp_option usage s = andThen (sys (C_lib ''getopt'' [] (lit ''0i:l:v''))) (\<lambda>r. let optarg = cstr (r_data r) in
     if r_val r = -1 then leave (s, aux r 0)
     else if r_val r = 48 then again (s\<lparr>o_zerosum := True\<rparr>)
     else if r_val r = 105 then again (s\<lparr>o_device := Some optarg\<rparr>)
     else if r_val r = 108 then
       (case split_dot optarg of
          None \<Rightarrow> seq (usage ''invalid -l option'') (halt (Undef ''ptr''))
        | Some (name, port) \<Rightarrow>
            if 1024 \<le> length name then halt (Undef ''localname'') else again (s\<lparr>o_local := Some (name, port)\<rparr>))
     else if r_val r = 118 then again (s\<lparr>o_verbose := True\<rparr>)
     else if r_val r = 63 then seq (usage ''unrecognized option'') (again s)
     else again s)"

text \<open>The local address: of the option, or the one the kernel chooses for the destination.\<close>

definition local_address :: "(byte list \<times> byte list) option \<Rightarrow> sockaddr \<Rightarrow> (world, sockaddr) prog" where
  "local_address opt dest = (case opt of
     Some (name, port) \<Rightarrow> andThen (Host_serv (Some name) (Some port) AF_INET SOCK_DGRAM) (\<lambda>ais. case ais of
         [] \<Rightarrow> halt (Undef ''aip'') | ai # _ \<Rightarrow> ret (ai_addr ai))
   | None \<Rightarrow> andThen (Socket AF_INET SOCK_DGRAM 0) (\<lambda>s. seq (Connect s dest) (andThen (Getsockname s) (\<lambda>sa.
       case sa of Sin p a \<Rightarrow>
           if a = htonl INADDR_ANY then err_quit ''Can't determine local address - use -l''
           else seq (sys (C_close s)) (ret sa)
       | _ \<Rightarrow> halt (Undef ''locallookup'')))))"

text \<open>\<open>test_udp\<close>: the query is sent again with twice the timeout when the alarm has jumped back, at most
  three times. \<open>nsent\<close> and \<open>timeout\<close> are volatile, so that the jump keeps them. A number is printed with
  \<open>%s\<close> when \<open>verbose\<close> is set, which is undefined.\<close>

definition test_udp_round ::
  "(int \<Rightarrow> (world, byte list option) prog) \<Rightarrow> udpopts \<Rightarrow> int \<Rightarrow> int \<Rightarrow> sockaddr \<Rightarrow> sockaddr \<Rightarrow>
     int \<times> int \<Rightarrow> (world, (int \<times> int) + unit) prog" where
  "test_udp_round read_or_alarm opts rawfd datalink local dest = (\<lambda>(nsent, timeout).
     seq (send_dns_query (o_verbose opts) (o_zerosum opts) rawfd local dest)
    (let nsent = nsent + 1
     in seq (sys (C_alarm timeout))
       (andThen (read_or_alarm datalink) (\<lambda>ui. case ui of
          None \<Rightarrow>
            if 3 \<le> nsent then err_quit ''no response''
            else seq (print ''timeout'' []) (again (nsent, timeout * 2))
        | Some ui \<Rightarrow>
            seq (sys (C_alarm 0))
           (seq (if half_at 26 ui = 0 then print ''udp checksums off'' [] else print ''udp checksum on'' [])
           (seq (only_if (o_verbose opts) (halt (Undef ''%s'')))
             (leave ())))))))"

definition test_udp ::
  "(int \<Rightarrow> (world, byte list option) prog) \<Rightarrow> udpopts \<Rightarrow> int \<Rightarrow> int \<Rightarrow> sockaddr \<Rightarrow> sockaddr \<Rightarrow> (world, unit) prog" where
  "test_udp read_or_alarm opts rawfd datalink local dest =
     seq (Signal SIGALRM 1) (loop (test_udp_round read_or_alarm opts rawfd datalink local dest) (0, 3))"

definition udpchsum_main ::
  "(string \<Rightarrow> (world, unit) prog) \<Rightarrow> (int \<Rightarrow> (world, byte list option) prog) \<Rightarrow>
     byte list list \<Rightarrow> (world, unit) prog" where
  "udpchsum_main usage read_or_alarm argv =
     andThen (loop (udp_option usage) \<lparr>o_zerosum = False, o_device = None, o_local = None, o_verbose = False\<rparr>) (\<lambda>(opts, optind).
     seq (only_if (optind \<noteq> int (length argv) - 2) (usage ''missing <host> and/or <serv>''))
    (if optind < 0 \<or> int (length argv) \<le> optind + 1 then halt (Undef ''argv'')
     else andThen (Host_serv (Some (argv ! nat optind)) (Some (argv ! nat (optind + 1))) AF_INET SOCK_DGRAM) (\<lambda>ais. case ais of
         [] \<Rightarrow> halt (Undef ''aip'')
       | ai # _ \<Rightarrow> let dest = ai_addr ai in
         andThen (local_address (o_local opts) dest) (\<lambda>local.
         andThen (open_output dest) (\<lambda>rawfd.
         andThen (open_pcap (o_verbose opts) (o_device opts) dest) (\<lambda>datalink.
         seq (sys (C_lib ''getuid'' [] [])) (seq (sys (C_lib ''setuid'' [] []))
        (seq (Signal 15 1) (seq (Signal 2 1) (seq (Signal 1 1)
        (seq (test_udp read_or_alarm opts rawfd datalink local dest) (cleanup (o_verbose opts)))))))))))))"

section \<open>At most three queries\<close>

lemma eats_send_dns_query: "eats P (send_dns_query verbose zerosum rawfd local dest)"
  unfolding send_dns_query_def udp_write_def
  by (auto intro!: eats_first eats_intros lawful_intros split: sockaddr.split)

lemma preserves_lib_datagrams [preserves_intros]: "preserves datagrams (Malloc n)"
  unfolding Malloc_def by (auto intro!: preserves_intros)

lemma send_dns_query_wp:
  assumes "\<And>v. datagrams v = datagrams w + 1 \<Longrightarrow> Q () v" and "\<And>e v. datagrams v \<le> datagrams w + 1 \<Longrightarrow> E e v"
  shows "wp (send_dns_query verbose zerosum rawfd local dest) Q E w"
  unfolding send_dns_query_def udp_write_def
  by (auto intro!: wp_intros assms simp: datagrams_def split: sockaddr.split)

text \<open>Whatever the network and the handler do, \<open>test_udp\<close> sends at most three queries, as long as reading
  sends nothing.\<close>

theorem test_udp_three_queries:
  assumes reads: "\<And>d. preserves datagrams (read_or_alarm d)" "\<And>d. lawful (read_or_alarm d)"
  shows "datagrams (snd (test_udp read_or_alarm opts rawfd datalink local dest w)) \<le> datagrams w + 3"
proof -
  let ?round = "test_udp_round read_or_alarm opts rawfd datalink local dest"
  let ?E = "\<lambda>_ v. datagrams v \<le> datagrams w + 3"
  have c: "consuming ?round"
    by unfold_locales
      (auto simp: test_udp_round_def Let_def intro!: eats_first [OF eats_send_dns_query] lawful_intros reads)
  have read: "wp (read_or_alarm d) (\<lambda>_ v. datagrams v = datagrams s) (\<lambda>_ v. datagrams v = datagrams s) s" for d s
    using preservesD [OF reads(1)] by (auto simp: wp_def split: prod.split sum.split)
  let ?I = "\<lambda>(n :: int, t :: int) v. 0 \<le> n \<and> n \<le> 2 \<and> datagrams v = datagrams w + nat n"
  have lp: "wp (loop ?round (0, 3)) ?E ?E v" if "datagrams v = datagrams w" for v
  proof (rule consuming.loop_wp [OF c, where I = ?I])
    show "?I (0, 3) v" using that by simp
  next
    fix x v
    assume "?I x v"
    then show "wp (?round x) (\<lambda>z v. case z of Inl y \<Rightarrow> ?I y v | Inr a \<Rightarrow> ?E a v) ?E v"
      unfolding test_udp_round_def Let_def
      by (auto intro!: wp_intros send_dns_query_wp wp_mono [OF read] simp: datagrams_def)
  qed
  have "wp (test_udp read_or_alarm opts rawfd datalink local dest) ?E ?E w"
    unfolding test_udp_def Signal_def signal_def
    by (auto intro!: wp_intros lp) (auto simp: datagrams_def)
  then show ?thesis
    by (auto simp: wp_def split: prod.splits sum.splits)
qed

section \<open>What is written can be read\<close>

text \<open>A zero sum is sent as its other representation, which verifies as well.\<close>

lemma in_cksum_ones:
  assumes "even (length pre)" and "length pre + 2 + length post \<le> 131072" and "in_cksum (pre @ [0, 0] @ post) = 0"
  shows "in_cksum (pre @ bytes16 0xffff @ post) = 0"
proof -
  define S where "S = wsum pre + wsum post"
  have sums: "wsum (pre @ [0, 0] @ post) = S" "wsum (pre @ bytes16 0xffff @ post) = S + 65535"
    using assms(1) by (simp_all add: wsum_append S_def bytes16_def le16_def)
  have len: "length (pre @ [0, 0] @ post) \<le> 131072" "length (pre @ bytes16 0xffff @ post) \<le> 131072"
    using assms(2) by simp_all
  have bound: "S + 65535 < 2 ^ 32"
    using wsum_bound [of "pre @ bytes16 0xffff @ post"] len(2) sums(2) by simp
  have "ones S = 65535"
    using in_cksum_spec [OF len(1)] assms(3) sums(1) ones_cases(1) [of S] bound by simp
  then have "S mod 65535 = 0"
    using ones_cases(2) [of S] bound by (metis add_lessD1 mod_self)
  then have sum: "ones (S + 65535) mod 65535 = 0" "ones (S + 65535) \<noteq> 0" "ones (S + 65535) < 65536"
    using ones_cases [OF bound] by simp_all
  have "x = 65535" if "x mod 65535 = 0" "x \<noteq> 0" "x < 65536" for x :: nat
    using that by (cases "x < 65535") auto
  from this [OF sum] have "ones (S + 65535) = 65535" .
  then have "unat (in_cksum (pre @ bytes16 0xffff @ post)) = 0"
    using in_cksum_spec [OF len(2)] sums(2) by simp
  then show ?thesis by (simp add: unat_eq_0)
qed

lemma udp_sum_verifies:
  assumes "even (length pre)" and "length pre + 2 + length post \<le> 131072"
  shows "in_cksum (pre @ bytes16 (let s = in_cksum (pre @ [0, 0] @ post) in if s = 0 then 0xffff else s) @ post) = 0"
  using in_cksum_zero [OF assms] in_cksum_ones [OF assms] by (simp add: Let_def)

text \<open>On its way the datagram gets its IP checksum from the kernel, which ignores what \<open>ip_sum\<close> holds.\<close>

definition kernel_sum :: "byte list \<Rightarrow> byte list" where
  "kernel_sum p = take 10 p @ bytes16 (in_cksum (take 10 p @ [0, 0] @ take 8 (drop 12 p))) @ drop 12 p"

definition pseudo :: "byte list \<Rightarrow> byte list" where
  "pseudo p = replicate 9 0 @ [byte_at 9 p] @ take 2 (drop 24 p) @ drop 12 p"

lemma udp_packet_pieces:
  fixes user :: "byte list" and zerosum lport laddr dport daddr
  defines "ui_len \<equiv> bytes16 (htons (word_of_nat (8 + length user)))"
    and "z \<equiv> ui_sum_of zerosum lport laddr dport daddr user"
  shows "udp_packet zerosum lport laddr dport daddr user =
      ([0x45, 0] @ bytes16 (htons (word_of_nat (28 + length user))) @ [0, 0, 0, 0, 64, 17]) @ ui_len @
      (bytes32 laddr @ bytes32 daddr) @ bytes16 lport @ bytes16 dport @ ui_len @ bytes16 z @ user"
  by (simp add: udp_packet_def ui_buffer_def Let_def ui_len_def z_def bytes16_def TTL_OUT_def numeral_eq_Suc)

lemma bytes16_0 [simp]: "bytes16 0 = [0, 0]"
  by (simp add: bytes16_def)

lemma pseudo_verifies:
  assumes "length user \<le> 65507"
  shows "in_cksum (pseudo (udp_packet False lport laddr dport daddr user)) = 0"
proof -
  let ?ui_len = "bytes16 (htons (word_of_nat (8 + length user)))"
  let ?pre = "replicate 9 0 @ [17] @ ?ui_len @ bytes32 laddr @ bytes32 daddr @ bytes16 lport @ bytes16 dport @ ?ui_len"
  have "pseudo (udp_packet False lport laddr dport daddr user) =
      ?pre @ bytes16 (ui_sum_of False lport laddr dport daddr user) @ user"
    unfolding udp_packet_pieces pseudo_def by (simp add: byte_at_def nth_append)
  also have "ui_sum_of False lport laddr dport daddr user =
      (let s = in_cksum (?pre @ [0, 0] @ user) in if s = 0 then 0xffff else s)"
    by (simp add: ui_sum_of_def ui_buffer_def Let_def)
  finally show ?thesis
    using udp_sum_verifies [of ?pre user] assms by simp
qed

lemma ip_header_verifies:
  assumes "length p = 28 + n"
  shows "in_cksum (take 20 (kernel_sum p)) = 0"
proof -
  have "take 20 (kernel_sum p) = take 10 p @ bytes16 (in_cksum (take 10 p @ [0, 0] @ take 8 (drop 12 p))) @ take 8 (drop 12 p)"
    using assms by (simp add: kernel_sum_def)
  then show ?thesis
    using in_cksum_zero [of "take 10 p" "take 8 (drop 12 p)"] assms by simp
qed

lemma udp_check_packet:
  fixes user and zerosum lport laddr dport daddr
  assumes "length user \<le> 65507"
  defines "p \<equiv> udp_packet zerosum lport laddr dport daddr user"
  shows "udp_check (kernel_sum p) (int (length (kernel_sum p))) w = (Inr (take 10 p @ [0, 0] @ drop 12 p), w)"
proof -
  have p: "length p = 28 + length user" "p ! 0 = 0x45" "p ! 9 = 17"
    unfolding p_def udp_packet_pieces by (simp_all add: nth_append)
  have k: "length (kernel_sum p) = 28 + length user" "kernel_sum p ! 0 = 0x45" "kernel_sum p ! 9 = 17"
    using p by (simp_all add: kernel_sum_def nth_append)
  have "unat (word_of_nat (28 + length user) :: u64) = 28 + length user"
    using assms(1) by (simp add: unsigned_of_nat take_bit_nat_eq_self del: of_nat_add)
  then have "\<not> (word_of_int (28 + int (length user)) :: u64) < 28"
    by (simp add: word_less_nat_alt)
  then show ?thesis
    using k ip_header_verifies [OF p(1)] p(1)
    by (simp add: udp_check_def ip_hlen_def ip_p_def byte_at_def IPPROTO_UDP_def Let_def) (simp add: kernel_sum_def)
qed

lemma half_at_26: "half_at 26 (udp_packet zerosum lport laddr dport daddr user) = ui_sum_of zerosum lport laddr dport daddr user"
  unfolding udp_packet_pieces by (simp add: half_at_def byte_at_def nth_append) (simp add: bytes16_def)

text \<open>The loops make a call in every round.\<close>

interpretation pcap_w: consuming pcap_round
  by unfold_locales (auto simp: pcap_round_def intro!: eats_first eats_intros lawful_intros)

lemma consuming_udp_option:
  assumes "\<And>msg. lawful (usage msg)"
  shows "consuming (udp_option usage)"
  by unfold_locales
    (auto simp: udp_option_def Let_def intro!: eats_first eats_intros lawful_intros assms split: option.split)

text \<open>(C16) What \<open>udp_write\<close> hands to the kernel is one valid datagram: its checksum verifies over the
  pseudo-header, and is not the zero that would say there is none, unless that was asked for. And
  \<open>udp_check\<close> accepts the datagram when it is captured, with the IP checksum that the kernel has filled
  in, whatever \<open>udp_write\<close> had left in its place.\<close>

theorem udp_write_verifies:
  assumes "udp_write zerosum rawfd (Sin lport laddr) (Sin dport daddr) user w = (Inr u, w')" and "length user \<le> 65507"
  shows "\<exists>p r. trace w' = trace w @ [Did (C_sendto rawfd p 0 (Sin dport daddr)) r] \<and> drop 28 p = user \<and>
    (if zerosum then half_at 26 p = 0 else in_cksum (pseudo p) = 0 \<and> half_at 26 p \<noteq> 0) \<and>
    (\<forall>v. udp_check (kernel_sum p) (int (length p)) v = (Inr (take 10 p @ [0, 0] @ drop 12 p), v))"
proof -
  let ?p = "udp_packet zerosum lport laddr dport daddr user"
  obtain r where "trace w' = trace w @ [Did (C_sendto rawfd ?p 0 (Sin dport daddr)) r]"
    using assms(1) by (auto simp: udp_write_def Sendto_def andThen_apply sys_apply split: list.splits if_splits)
  moreover have "drop 28 ?p = user" "length (kernel_sum ?p) = length ?p"
    unfolding udp_packet_pieces by (simp_all add: kernel_sum_def)
  moreover have "half_at 26 ?p \<noteq> 0 \<or> zerosum" "zerosum \<Longrightarrow> half_at 26 ?p = 0"
    by (simp_all add: half_at_26 ui_sum_of_def Let_def)
  ultimately show ?thesis
    using pseudo_verifies [OF assms(2), of lport laddr dport daddr]
      udp_check_packet [OF assms(2), of zerosum lport laddr dport daddr]
    by (intro exI [of _ ?p] exI [of _ r]) auto
qed

text \<open>The query for the address of the name server.\<close>

theorem udp_write_verifies_witness:
  "\<exists>w' p r. udp_write False 3 (Sin 1 2) (Sin 3 4) dns_query (start [ok 64]) = (Inr (), w') \<and>
     trace w' = [Did (C_sendto 3 p 0 (Sin 3 4)) r] \<and> drop 28 p = dns_query \<and> in_cksum (pseudo p) = 0"
proof -
  have len: "length dns_query = 36" by (simp add: dns_query_def)
  have "length (udp_packet False 1 2 3 4 dns_query) = 64"
    unfolding udp_packet_pieces by (simp add: len)
  then have "\<exists>w'. udp_write False 3 (Sin 1 2) (Sin 3 4) dns_query (start [ok 64]) = (Inr (), w')"
    by (simp add: udp_write_def Sendto_def andThen_apply sys_apply put_len_def)
  then obtain w' where run: "udp_write False 3 (Sin 1 2) (Sin 3 4) dns_query (start [ok 64]) = (Inr (), w')" by blast
  from udp_write_verifies [OF run] run len show ?thesis by auto
qed

end
