(* ===== verification/Rtt.thy ===== *)
theory Rtt
  imports Echo Complex_Main
begin

text \<open>
  \<open>rtt.cpp\<close> and \<open>unprtt.h\<close>: the estimator of the round-trip time (Jacobson) from which the
  reliable datagram client takes its retransmission timeout. The \<open>float\<close> fields are rational
  numbers; \<open>rf\<close> and \<open>rd\<close> round a result to a \<open>float\<close> and to a \<open>double\<close> and are parameters,
  applied wherever C rounds. (Multiplying or dividing by a power of two is exact.) Timestamps are 32-bit words that count
  milliseconds and wrap around.
\<close>

record rtt_info =
  rtt_rtt :: rat
  rtt_srtt :: rat
  rtt_rttvar :: rat
  rtt_rto :: rat
  rtt_nrexmt :: nat
  rtt_base :: u32

definition RTT_RXTMIN :: rat where "RTT_RXTMIN = 2"
definition RTT_RXTMAX :: rat where "RTT_RXTMAX = 60"
definition RTT_MAXNREXMT :: nat where "RTT_MAXNREXMT = 3"

text \<open>The macro \<open>RTT_RTOCALC\<close>: a sum of two \<open>double\<close>s.\<close>

definition RTT_RTOCALC :: "(rat \<Rightarrow> rat) \<Rightarrow> rtt_info \<Rightarrow> rat" where
  "RTT_RTOCALC rd p = rd (rtt_srtt p + 4 * rtt_rttvar p)"

definition rtt_minmax :: "rat \<Rightarrow> rat" where
  "rtt_minmax rto =
     (if rto < RTT_RXTMIN then RTT_RXTMIN else if RTT_RXTMAX < rto then RTT_RXTMAX else rto)"

definition rtt_init :: "(rat \<Rightarrow> rat) \<Rightarrow> (rat \<Rightarrow> rat) \<Rightarrow> rtt_info \<Rightarrow> (world, rtt_info) prog" where
  "rtt_init rf rd p = andThen Gettimeofday (\<lambda>(sec, usec).
     let p = p\<lparr>rtt_base := word_of_int sec, rtt_rtt := 0, rtt_srtt := 0, rtt_rttvar := 3 / 4\<rparr>
     in ret (p\<lparr>rtt_rto := rtt_minmax (rf (RTT_RTOCALC rd p))\<rparr>))"

text \<open>\<open>(tv_sec - rtt_base) * 1000 + tv_usec / 1000\<close> is computed in 64 bits and truncated to
  32.\<close>

definition ts_at :: "u32 \<Rightarrow> int \<times> int \<Rightarrow> u32" where
  "ts_at base = (\<lambda>(sec, usec). word_of_int ((sec - uint base) * 1000 + usec div 1000))"

definition rtt_ts :: "rtt_info \<Rightarrow> (world, u32) prog" where
  "rtt_ts p = andThen Gettimeofday (\<lambda>tv. ret (ts_at (rtt_base p) tv))"

definition rtt_newpack :: "rtt_info \<Rightarrow> rtt_info" where
  "rtt_newpack p = p\<lparr>rtt_nrexmt := 0\<rparr>"

text \<open>The conversion to \<open>int\<close> truncates; the sum is exact in a \<open>double\<close>.\<close>

definition rtt_start :: "rtt_info \<Rightarrow> int" where
  "rtt_start p = floor (rtt_rto p + 1 / 2)"

definition rtt_stop :: "(rat \<Rightarrow> rat) \<Rightarrow> (rat \<Rightarrow> rat) \<Rightarrow> rtt_info \<Rightarrow> u32 \<Rightarrow> rtt_info" where
  "rtt_stop rf rd p ms =
     (let p = p\<lparr>rtt_rtt := rf (rd (of_int (uint ms) / 1000))\<rparr>;
          delta = rf (rtt_rtt p - rtt_srtt p);
          p = p\<lparr>rtt_srtt := rf (rd (rtt_srtt p + delta / 8))\<rparr>;
          delta = (if delta < 0 then - delta else delta);
          p = p\<lparr>rtt_rttvar := rf (rd (rtt_rttvar p + rd (delta - rtt_rttvar p) / 4))\<rparr>
      in p\<lparr>rtt_rto := rtt_minmax (rf (RTT_RTOCALC rd p))\<rparr>)"

definition rtt_timeout :: "rtt_info \<Rightarrow> int \<times> rtt_info" where
  "rtt_timeout p =
     (let p = p\<lparr>rtt_rto := rtt_rto p * 2\<rparr>;
          p = p\<lparr>rtt_nrexmt := rtt_nrexmt p + 1\<rparr>
      in (if RTT_MAXNREXMT < rtt_nrexmt p then -1 else 0, p))"

definition rtt_debug :: "bool \<Rightarrow> rtt_info \<Rightarrow> (world, unit) prog" where
  "rtt_debug rtt_d_flag p =
     (if \<not> rtt_d_flag then ret ()
      else complain ''rtt = %.3f, srtt = %.3f, rttvar = %.3f, rto = %.3f'')"

lemma lawful_rtt [lawful_intros]:
  "lawful (rtt_init rf rd p)" "lawful (rtt_ts p)" "lawful (rtt_debug b p)"
  unfolding rtt_init_def rtt_ts_def rtt_debug_def Let_def by (auto intro!: lawful_intros)

lemma eats_rtt_ts [eats_intros]: "eats P (rtt_ts p)"
  unfolding rtt_ts_def by (intro eats_first eats_intros lawful_intros)

section \<open>The timeout\<close>

text \<open>The bounds that the clamp establishes. A timeout doubles the value without the clamp.\<close>

definition rto_ok :: "rtt_info \<Rightarrow> bool" where
  "rto_ok p \<longleftrightarrow> RTT_RXTMIN \<le> rtt_rto p \<and> rtt_rto p \<le> RTT_RXTMAX"

lemma rtt_minmax_bounds [simp]: "RTT_RXTMIN \<le> rtt_minmax x" "rtt_minmax x \<le> RTT_RXTMAX"
  by (auto simp: rtt_minmax_def RTT_RXTMIN_def RTT_RXTMAX_def)

lemma rtt_minmax_id: "RTT_RXTMIN \<le> x \<Longrightarrow> x \<le> RTT_RXTMAX \<Longrightarrow> rtt_minmax x = x"
  by (auto simp: rtt_minmax_def)

lemma rto_ok_init: "rtt_init rf rd p w = (Inr p', w') \<Longrightarrow> rto_ok p'"
  by (auto simp: rtt_init_def Let_def andThen_eq_Inr_iff rto_ok_def)

lemma rto_ok_stop: "rto_ok (rtt_stop rf rd p ms)"
  by (simp add: rtt_stop_def Let_def rto_ok_def)

lemma rtt_stop_keeps [simp]:
  "rtt_nrexmt (rtt_stop rf rd p ms) = rtt_nrexmt p" "rtt_base (rtt_stop rf rd p ms) = rtt_base p"
  by (simp_all add: rtt_stop_def Let_def)

lemma rtt_timeout_simps [simp]:
  "rtt_rto (snd (rtt_timeout p)) = 2 * rtt_rto p"
  "rtt_nrexmt (snd (rtt_timeout p)) = rtt_nrexmt p + 1"
  "rtt_base (snd (rtt_timeout p)) = rtt_base p"
  "fst (rtt_timeout p) < 0 \<longleftrightarrow> RTT_MAXNREXMT \<le> rtt_nrexmt p"
  by (auto simp: rtt_timeout_def Let_def)

fun timeouts :: "nat \<Rightarrow> rtt_info \<Rightarrow> rtt_info" where
  "timeouts 0 p = p"
| "timeouts (Suc n) p = snd (rtt_timeout (timeouts n p))"

lemma timeouts_simps:
  "rtt_rto (timeouts n p) = 2 ^ n * rtt_rto p" "rtt_nrexmt (timeouts n p) = rtt_nrexmt p + n"
  by (induction n) auto

text \<open>The alarm is set to between 2 and 60 seconds for the first transmission.\<close>

lemma rtt_start_bounds:
  assumes "rto_ok p"
  shows "2 \<le> rtt_start p" and "rtt_start p \<le> 60"
  using assms by (auto simp: rtt_start_def rto_ok_def RTT_RXTMIN_def RTT_RXTMAX_def le_floor_iff floor_le_iff)

text \<open>The initial timeout is 3 seconds, when the arithmetic is exact at this value.\<close>

lemma rtt_init_3:
  assumes "rd 3 = 3" and "rf 3 = 3" and "rtt_init rf rd p w = (Inr p', w')"
  shows "rtt_rto p' = 3 \<and> rtt_start p' = 3"
proof -
  have "rtt_rto p' = rtt_minmax 3"
    using assms by (auto simp: rtt_init_def Let_def andThen_eq_Inr_iff RTT_RTOCALC_def)
  then have "rtt_rto p' = 3"
    by (simp add: rtt_minmax_def RTT_RXTMIN_def RTT_RXTMAX_def)
  moreover have "floor (3 + 1 / 2 :: rat) = 3"
    by (simp add: floor_eq_iff)
  ultimately show ?thesis
    by (simp add: rtt_start_def)
qed

text \<open>The alarm after \<open>n\<close> timeouts of a packet.\<close>

lemma rtt_start_timeouts:
  assumes "rto_ok p"
  shows "2 ^ (n + 1) \<le> rtt_start (timeouts n (rtt_newpack p))" and "rtt_start (timeouts n (rtt_newpack p)) \<le> 60 * 2 ^ n"
proof -
  have p: "2 \<le> rtt_rto p" "rtt_rto p \<le> 60" using assms by (simp_all add: rto_ok_def RTT_RXTMIN_def RTT_RXTMAX_def)
  define x where "x = rtt_rto p * 2 ^ n"
  have "2 * 2 ^ n \<le> x" "x \<le> 60 * 2 ^ n"
    unfolding x_def using p by (intro mult_right_mono; simp)+
  then have "2 ^ (n + 1) \<le> floor (x + 1 / 2)" "floor (x + 1 / 2) \<le> 60 * 2 ^ n"
    by (simp_all add: le_floor_iff floor_le_iff)
  then show "2 ^ (n + 1) \<le> rtt_start (timeouts n (rtt_newpack p))" "rtt_start (timeouts n (rtt_newpack p)) \<le> 60 * 2 ^ n"
    by (simp_all add: rtt_start_def timeouts_simps rtt_newpack_def x_def mult.commute)
qed

text \<open>A first measured time of 60000 milliseconds makes the clamp give \<open>RTT_RXTMAX\<close>, with exact arithmetic.\<close>

lemma rtt_stop_max:
  assumes "rtt_srtt p = 0" and "rtt_rttvar p = 3 / 4"
  shows "rtt_rto (rtt_stop id id p 60000) = RTT_RXTMAX"
proof (cases p)
  case (fields a b c d e f)
  from assms have "b = 0" and "c = 3 / 4" unfolding fields by (simp_all only: rtt_info.select_convs)
  then show ?thesis
    unfolding fields \<open>b = 0\<close> \<open>c = 3 / 4\<close>
    by (simp add: rtt_stop_def Let_def RTT_RTOCALC_def rtt_minmax_def RTT_RXTMIN_def RTT_RXTMAX_def)
qed

text \<open>(C19) The retransmission timeout of a new packet, after \<open>rtt_init\<close> and after every \<open>rtt_stop\<close>, is
  between 2 and 60 seconds, whatever the arithmetic rounds to; initially it is 3 seconds when
  the arithmetic is exact at this value. Each timeout of the packet doubles it, and the fourth gives
  up. The doubling is not clamped to \<open>RTT_RXTMAX\<close>, which \<open>unprtt.h\<close> calls the largest timeout: after \<open>n\<close>
  timeouts the alarm is set to at most \<open>60 * 2^n\<close> seconds, which is 480 for the last transmission, and a
  reply that took a minute to come is enough for 480 to be reached.\<close>

theorem rtt_backoff:
  assumes "rtt_init rf rd p w = (Inr i, w')" and "q = i \<or> q = rtt_stop rf rd x ms"
  shows "2 \<le> rtt_rto q \<and> rtt_rto q \<le> 60 \<and> (rd 3 = 3 \<and> rf 3 = 3 \<longrightarrow> rtt_rto i = 3 \<and> rtt_start i = 3) \<and>
    rtt_rto (timeouts n (rtt_newpack q)) = 2 ^ n * rtt_rto q \<and>
    2 ^ (n + 1) \<le> rtt_start (timeouts n (rtt_newpack q)) \<and> rtt_start (timeouts n (rtt_newpack q)) \<le> 60 * 2 ^ n \<and>
    (fst (rtt_timeout (timeouts n (rtt_newpack q))) = -1 \<longleftrightarrow> 3 \<le> n) \<and>
    rtt_start (timeouts 3 (rtt_newpack (rtt_stop id id i 60000))) = 480"
proof -
  have ok: "rto_ok q" using assms rto_ok_init rto_ok_stop by metis
  have give_up: "fst (rtt_timeout (timeouts n (rtt_newpack q))) = -1 \<longleftrightarrow> 3 \<le> n"
    by (auto simp: rtt_timeout_def Let_def timeouts_simps rtt_newpack_def RTT_MAXNREXMT_def)
  have "rtt_srtt i = 0" "rtt_rttvar i = 3 / 4"
    using assms(1) by (auto simp: rtt_init_def Let_def andThen_eq_Inr_iff)
  moreover have "floor (480 + 1 / 2 :: rat) = 480" by (simp add: floor_eq_iff)
  ultimately have "rtt_start (timeouts 3 (rtt_newpack (rtt_stop id id i 60000))) = 480"
    by (simp add: rtt_start_def timeouts_simps rtt_newpack_def rtt_stop_max) (simp add: RTT_RXTMAX_def)
  with ok give_up rtt_start_timeouts [OF ok, of n] rtt_init_3 [OF _ _ assms(1)] show ?thesis
    by (simp add: timeouts_simps rtt_newpack_def rto_ok_def RTT_RXTMIN_def RTT_RXTMAX_def)
qed

theorem rtt_backoff_witness:
  "\<exists>i w'. rtt_init id id \<lparr>rtt_rtt = 0, rtt_srtt = 0, rtt_rttvar = 0, rtt_rto = 0, rtt_nrexmt = 0, rtt_base = 0\<rparr> (start [ok 0]) =
     (Inr i, w') \<and> rtt_start i = 3 \<and> rtt_rto (timeouts 2 (rtt_newpack i)) = 12"
proof -
  let ?p = "\<lparr>rtt_rtt = 0, rtt_srtt = 0, rtt_rttvar = 0, rtt_rto = 0, rtt_nrexmt = 0, rtt_base = 0\<rparr>"
  have "\<exists>i w'. rtt_init id id ?p (start [ok 0]) = (Inr i, w')"
    by (simp add: rtt_init_def Gettimeofday_def time_of_def andThen_apply sys_apply Let_def)
  then obtain i w' where run: "rtt_init id id ?p (start [ok 0]) = (Inr i, w')" by blast
  from rtt_backoff [OF run disjI1 [OF refl], of 2] run show ?thesis by auto
qed

section \<open>Timestamps\<close>

text \<open>Milliseconds since the start, as a number.\<close>

definition millis :: "u32 \<Rightarrow> int \<times> int \<Rightarrow> int" where
  "millis base = (\<lambda>(sec, usec). (sec - uint base) * 1000 + usec div 1000)"

text \<open>The difference of two timestamps is the time that has passed, also when the 32-bit
  counter wraps around in between (after 49 days), as long as less than \<open>2^32\<close>
  milliseconds have passed; and it does not depend on the base.\<close>

theorem rtt_ts_difference:
  assumes "0 \<le> millis base t2 - millis base t1" and "millis base t2 - millis base t1 < 2 ^ 32"
  shows "uint (ts_at base t2 - ts_at base t1) = millis base t2 - millis base t1 \<and>
    ts_at base t2 - ts_at base t1 = ts_at base' t2 - ts_at base' t1"
proof -
  have ts: "ts_at b t = word_of_int (millis b t)" for b t
    by (cases t) (simp add: ts_at_def millis_def)
  have diff: "ts_at b t2 - ts_at b t1 = word_of_int (millis b t2 - millis b t1)" for b
    by (simp add: ts)
  have "uint (word_of_int (millis base t2 - millis base t1) :: u32) = millis base t2 - millis base t1"
  proof -
    define d where "d = millis base t2 - millis base t1"
    with assms have "0 \<le> d" "d < 2 ^ 32" by simp_all
    then have "uint (word_of_int d :: u32) = d"
      by (simp add: unsigned_of_int take_bit_int_eq_self)
    then show ?thesis by (simp only: d_def)
  qed
  moreover have "millis base t2 - millis base t1 = millis base' t2 - millis base' t1"
    by (cases t1, cases t2) (simp add: millis_def algebra_simps)
  ultimately show ?thesis
    by (simp only: diff)
qed

theorem rtt_ts_difference_witness:
  "uint (ts_at 0 (4294967, 500000) - ts_at 0 (4294967, 200000)) = 300"
  using rtt_ts_difference [of 0 "(4294967, 500000)" "(4294967, 200000)" 0]
  by (simp add: millis_def)

end
