(* ===== verification/Dg_Reliable.thy ===== *)
theory Dg_Reliable
  imports Rtt Sockaddr
begin

text \<open>
  \<open>rtt/dg_send_recv.cpp\<close>: a request over UDP that is sent again until its reply arrives, up
  to four times. The file's static variables are the record \<open>dgs\<close>. A datagram starts with
  the 8 bytes of \<open>struct hdr\<close>, the sequence number and the timestamp in the byte order of the
  host; the reply is recognised by its sequence number. The \<open>SIGALRM\<close> handler jumps back
  into the function. It can do so while \<open>recvmsg\<close> is blocked, which is then answered with \<open>EINTR\<close>
  (every other handler is installed with \<open>SA_RESTART\<close>), or after \<open>recvmsg\<close> has returned and
  before \<open>alarm(0)\<close>, also when it has returned the reply: then the response is marked as
  \<open>alarm_after\<close>. An alarm that goes off between \<open>alarm\<close> and \<open>sigsetjmp\<close>, when the jump buffer is
  not set, is not modelled.
\<close>

record dgs =
  rttinfo :: rtt_info
  rttinit :: bool
  send_seq :: u32
  send_ts :: u32
  recvhdr :: "byte list"
  rtt_d_flag :: bool

definition HDR :: nat where "HDR = 8"

text \<open>The two fields of the received header.\<close>

definition word_at :: "nat \<Rightarrow> byte list \<Rightarrow> u32" where
  "word_at i bs = addr4 (drop i bs)"

definition recv_seq :: "dgs \<Rightarrow> u32" where "recv_seq s = word_at 0 (recvhdr s)"
definition recv_ts :: "dgs \<Rightarrow> u32" where "recv_ts s = word_at 4 (recvhdr s)"

text \<open>\<open>Recvmsg\<close>, or the jump out of it or right after it (\<open>None\<close>); the header buffer is overwritten as
  far as the datagram reaches, also when the jump comes after it.\<close>

definition recv_or_alarm :: "int \<Rightarrow> nat \<Rightarrow> dgs \<Rightarrow> (world, byte list option \<times> dgs) prog" where
  "recv_or_alarm fd inbytes s = andThen (sys (C_recvmsg fd (HDR + inbytes) 0)) (\<lambda>r.
     if r_val r < 0 then
       (if r_errno r = EINTR then ret (None, s) else err_sys ''recvmsg error'')
     else
       let bs = got (HDR + inbytes) r;
           s = s\<lparr>recvhdr := take HDR bs @ drop (length (take HDR bs)) (recvhdr s)\<rparr>
       in ret (if alarm_after r then None else Some bs, s))"

text \<open>The inner \<open>do \<dots> while\<close>: datagrams that are too short or answer another request are
  dropped. \<open>None\<close> is the jump to \<open>sigsetjmp\<close>, with the state as it is then.\<close>

definition await_round ::
  "int \<Rightarrow> nat \<Rightarrow> dgs \<Rightarrow> (world, dgs + byte list option \<times> dgs) prog" where
  "await_round fd inbytes s = andThen (recv_or_alarm fd inbytes s) (\<lambda>(reply, s). case reply of
     None \<Rightarrow> leave (None, s)
   | Some bs \<Rightarrow>
       if length bs < HDR \<or> recv_seq s \<noteq> send_seq s then again s else leave (Some bs, s))"

definition await :: "int \<Rightarrow> nat \<Rightarrow> dgs \<Rightarrow> (world, byte list option \<times> dgs) prog" where
  "await fd inbytes s = loop (await_round fd inbytes) s"

text \<open>What follows the wait: after a jump, the branch of \<open>sigsetjmp\<close>; after a reply, the end of the
  function. \<open>None\<close> is the return of -1.\<close>

definition settle ::
  "(rat \<Rightarrow> rat) \<Rightarrow> (rat \<Rightarrow> rat) \<Rightarrow> byte list option \<Rightarrow> dgs \<Rightarrow> (world, dgs + byte list option \<times> dgs) prog" where
  "settle rf rd reply s = (case reply of
     None \<Rightarrow>
       let (gone, info) = rtt_timeout (rttinfo s); s = s\<lparr>rttinfo := info\<rparr>
       in if gone < 0 then
            seq (err_msg ''dg_send_recv: no response from server, giving up'')
              (seq (set_errno ETIMEDOUT) (leave (None, s\<lparr>rttinit := False\<rparr>)))
          else again s
   | Some bs \<Rightarrow>
       seq (sys (C_alarm 0)) (andThen (rtt_ts (rttinfo s)) (\<lambda>now.
         leave (Some (drop HDR bs),
           s\<lparr>rttinfo := rtt_stop rf rd (rttinfo s) (now - recv_ts s)\<rparr>))))"

text \<open>From \<open>sendagain\<close> on.\<close>

definition send_round ::
  "(rat \<Rightarrow> rat) \<Rightarrow> (rat \<Rightarrow> rat) \<Rightarrow> int \<Rightarrow> byte list \<Rightarrow> nat \<Rightarrow> dgs \<Rightarrow>
     (world, dgs + byte list option \<times> dgs) prog" where
  "send_round rf rd fd outbuff inbytes s = andThen (rtt_ts (rttinfo s)) (\<lambda>ts.
     let s = s\<lparr>send_ts := ts\<rparr>
     in seq (Sendmsg fd [bytes32 (send_seq s) @ bytes32 (send_ts s), outbuff] 0)
       (seq (sys (C_alarm (rtt_start (rttinfo s))))
       (andThen (await fd inbytes s) (\<lambda>(reply, s). settle rf rd reply s))))"

definition dg_init :: "(rat \<Rightarrow> rat) \<Rightarrow> (rat \<Rightarrow> rat) \<Rightarrow> dgs \<Rightarrow> (world, dgs) prog" where
  "dg_init rf rd s =
     (if rttinit s then ret s
      else andThen (rtt_init rf rd (rttinfo s)) (\<lambda>info.
        ret (s\<lparr>rttinfo := info, rttinit := True, rtt_d_flag := True\<rparr>)))"

definition dg_send_recv ::
  "(rat \<Rightarrow> rat) \<Rightarrow> (rat \<Rightarrow> rat) \<Rightarrow> int \<Rightarrow> int \<Rightarrow> byte list \<Rightarrow> nat \<Rightarrow> dgs \<Rightarrow>
     (world, byte list option \<times> dgs) prog" where
  "dg_send_recv rf rd sig_alrm fd outbuff inbytes s =
     andThen (dg_init rf rd s) (\<lambda>s.
     let s = s\<lparr>send_seq := send_seq s + 1\<rparr>
     in seq (Signal SIGALRM sig_alrm)
       (loop (send_round rf rd fd outbuff inbytes) (s\<lparr>rttinfo := rtt_newpack (rttinfo s)\<rparr>)))"

lemma lawful_recv_or_alarm [lawful_intros]: "lawful (recv_or_alarm fd n s)"
  unfolding recv_or_alarm_def Let_def by (intro lawful_intros)

lemma eats_recv_or_alarm [eats_intros]: "eats P (recv_or_alarm fd n s)"
  unfolding recv_or_alarm_def Let_def by (intro eats_first eats_intros lawful_intros)

lemma lawful_await_round [lawful_intros]: "lawful (await_round fd n s)"
  unfolding await_round_def by (auto intro!: lawful_intros)

interpretation await_loop: consuming "await_round fd n" for fd n
  unfolding await_round_def by unfold_locales (intro eats_first eats_intros lawful_intros)

lemma lawful_await [lawful_intros]: "lawful (await fd n s)"
  unfolding await_def by (intro await_loop.loop_lawful lawful_intros)

lemma lawful_settle [lawful_intros]: "lawful (settle rf rd reply s)"
  unfolding settle_def Let_def by (auto intro!: lawful_intros split: prod.split)

lemma lawful_send_round [lawful_intros]: "lawful (send_round rf rd fd out n s)"
  unfolding send_round_def Let_def by (auto intro!: lawful_intros split: prod.split)

interpretation send_loop: consuming "send_round rf rd fd out n" for rf rd fd out n
proof
  show "eats repeats (send_round rf rd fd out n s)" for s
    unfolding send_round_def Let_def
    by (rule eats_first) (auto intro!: eats_intros lawful_intros split: prod.split)
qed

text \<open>\<open>dg_cli\<close> of \<open>rtt\<close> calls \<open>Dg_send_recv\<close>, which no file defines: a parameter, given the request and its
  static variables. It returns the bytes received, at most \<open>MAXLINE\<close>, or ends the program.\<close>

definition rtt_dg_cli_round ::
  "(byte list \<Rightarrow> 's \<Rightarrow> (world, byte list \<times> 's) prog) \<Rightarrow> 's \<Rightarrow> (world, 's + 's) prog" where
  "rtt_dg_cli_round Dg_send_recv s = andThen (Fgets MAXLINE) (\<lambda>sendline. case sendline of
     None \<Rightarrow> leave s
   | Some l \<Rightarrow> andThen (Dg_send_recv (cstr l) s) (\<lambda>(recvline, s). seq (Fputs (cstr recvline)) (again s)))"

definition rtt_dg_cli :: "(byte list \<Rightarrow> 's \<Rightarrow> (world, byte list \<times> 's) prog) \<Rightarrow> 's \<Rightarrow> (world, 's) prog" where
  "rtt_dg_cli Dg_send_recv s = loop (rtt_dg_cli_round Dg_send_recv) s"

lemma consuming_rtt_dg_cli:
  assumes "\<And>l s. lawful (Dg_send_recv l s)"
  shows "consuming (rtt_dg_cli_round Dg_send_recv)"
  by unfold_locales (auto simp: rtt_dg_cli_round_def intro!: eats_intros eats_first lawful_intros assms)

section \<open>What is sent and what comes back\<close>

text \<open>How often a request was sent.\<close>

definition sends :: "event list \<Rightarrow> nat" where
  "sends tr = length (filter (\<lambda>ev. \<exists>fd bs fl r. ev = Did (C_sendmsg fd bs fl) r) tr)"

lemma sends_simps [simp]:
  "sends [] = 0" "sends (xs @ ys) = sends xs + sends ys"
  "sends (Did c r # tr) = (case c of C_sendmsg _ _ _ \<Rightarrow> 1 | _ \<Rightarrow> 0) + sends tr"
  "sends (Stderr m e # tr) = sends tr" "sends (Syslog l m e # tr) = sends tr" "sends (Print m args # tr) = sends tr"
  by (auto simp: sends_def split: call.splits)

lemma sends_logs [simp]: "\<forall>ev\<in>set evs. is_log ev \<Longrightarrow> sends evs = 0"
  by (auto simp: sends_def filter_empty_conv)

text \<open>Every message sent since \<open>before\<close> is the request \<open>out\<close> under the number \<open>sq\<close>.\<close>

fun request_in :: "int \<Rightarrow> u32 \<Rightarrow> byte list \<Rightarrow> event \<Rightarrow> bool" where
  "request_in fd sq out (Did (C_sendmsg fd' bs fl) r) \<longleftrightarrow> fd' = fd \<and> (\<exists>ts. bs = bytes32 sq @ bytes32 ts @ out)"
| "request_in fd sq out ev \<longleftrightarrow> True"

definition only_request :: "event list \<Rightarrow> int \<Rightarrow> u32 \<Rightarrow> byte list \<Rightarrow> event list \<Rightarrow> bool" where
  "only_request before fd sq out tr \<longleftrightarrow> (\<exists>evs. tr = before @ evs \<and> (\<forall>ev\<in>set evs. request_in fd sq out ev))"

lemma request_in_log [simp]: "is_log ev \<Longrightarrow> request_in fd sq out ev"
  by (cases ev) simp_all

lemma only_request_append [simp]:
  "only_request before fd sq out tr \<Longrightarrow> \<forall>ev\<in>set evs. request_in fd sq out ev \<Longrightarrow> only_request before fd sq out (tr @ evs)"
  "only_request before fd sq out before"
  by (auto simp: only_request_def)

text \<open>The datagram that \<open>recvmsg\<close> brought with \<open>r\<close> answers the request \<open>sq\<close>.\<close>

definition reply_to :: "nat \<Rightarrow> u32 \<Rightarrow> resp \<Rightarrow> bool" where
  "reply_to n sq r \<longleftrightarrow> 0 \<le> r_val r \<and> HDR \<le> length (got (HDR + n) r) \<and> word_at 0 (got (HDR + n) r) = sq"

definition replied :: "event list \<Rightarrow> int \<Rightarrow> nat \<Rightarrow> u32 \<Rightarrow> byte list \<Rightarrow> event list \<Rightarrow> bool" where
  "replied before fd n sq bs tr \<longleftrightarrow> (\<exists>evs r. tr = before @ evs \<and> Did (C_recvmsg fd (HDR + n) 0) r \<in> set evs \<and>
     reply_to n sq r \<and> bs = got (HDR + n) r)"

lemma replied_append [simp]: "replied before fd n sq bs tr \<Longrightarrow> replied before fd n sq bs (tr @ evs)"
  by (auto simp: replied_def)

lemma replied_now:
  "only_request before fd sq out tr \<Longrightarrow> reply_to n sq r \<Longrightarrow>
     replied before fd n sq (got (HDR + n) r) (tr @ [Did (C_recvmsg fd (HDR + n) 0) r])"
  by (auto simp: replied_def only_request_def)

lemma word_at_take [simp]: "word_at 0 (take 8 bs) = word_at 0 bs"
proof -
  consider a b c d e where "bs = a # b # c # d # e" | "length bs < 4"
    by (metis Suc_le_length_iff leI numeral_eq_Suc pred_numeral_simps(2) semiring_norm(26,27) pred_numeral_simps(3) less_numeral_extra(3) zero_less_Suc not_less)
  then show ?thesis
    by cases (auto simp: word_at_def)
qed

section \<open>The reply belongs to the request\<close>

text \<open>While the call is in progress: after \<open>k\<close> transmissions, all of this request.\<close>

definition awaiting :: "world \<Rightarrow> int \<Rightarrow> u32 \<Rightarrow> byte list \<Rightarrow> nat \<Rightarrow> dgs \<Rightarrow> world \<Rightarrow> bool" where
  "awaiting w fd sq out k s v \<longleftrightarrow> only_request (trace w) fd sq out (trace v) \<and> sends (trace v) = sends (trace w) + k \<and>
     send_seq s = sq \<and> length (recvhdr s) = HDR"

text \<open>When the program stops in between: there were at most four.\<close>

definition cut_short :: "world \<Rightarrow> int \<Rightarrow> u32 \<Rightarrow> byte list \<Rightarrow> stop \<Rightarrow> world \<Rightarrow> bool" where
  "cut_short w fd sq out e v \<longleftrightarrow> only_request (trace w) fd sq out (trace v) \<and> sends (trace v) \<le> sends (trace w) + 4"

lemma await_wp:
  assumes "awaiting w fd sq out k s v" and "k \<le> 4"
  shows "wp (await fd n s) (\<lambda>(reply, u) v. awaiting w fd sq out k u v \<and> rttinfo u = rttinfo s \<and>
       (\<forall>bs. reply = Some bs \<longrightarrow> replied (trace w) fd n sq bs (trace v))) (cut_short w fd sq out) v"
  unfolding await_def
proof (rule await_loop.loop_wp [where I = "\<lambda>u v. awaiting w fd sq out k u v \<and> rttinfo u = rttinfo s"])
  fix u and v :: world
  assume u: "awaiting w fd sq out k u v \<and> rttinfo u = rttinfo s"
  show "wp (await_round fd n u) (\<lambda>z v. case z of Inl u \<Rightarrow> awaiting w fd sq out k u v \<and> rttinfo u = rttinfo s
      | Inr a \<Rightarrow> (case a of (reply, u) \<Rightarrow> \<lambda>v. awaiting w fd sq out k u v \<and> rttinfo u = rttinfo s \<and>
          (\<forall>bs. reply = Some bs \<longrightarrow> replied (trace w) fd n sq bs (trace v))) v)
    (cut_short w fd sq out) v"
    unfolding await_round_def recv_or_alarm_def Let_def using u assms(2)
    by (intro wp_intros)
      (auto simp: awaiting_def cut_short_def recv_seq_def HDR_def reply_to_def split: if_splits
        intro!: replied_now [of _ _ _ out, unfolded HDR_def])
qed (use assms in simp)

text \<open>After a round: the timeouts of the packet count its transmissions; the fourth gives up.\<close>

definition sent_post :: "world \<Rightarrow> int \<Rightarrow> u32 \<Rightarrow> byte list \<Rightarrow> nat \<Rightarrow> byte list option \<times> dgs \<Rightarrow> world \<Rightarrow> bool" where
  "sent_post w fd sq out n = (\<lambda>(reply, u) v. only_request (trace w) fd sq out (trace v) \<and> sends (trace v) \<le> sends (trace w) + 4 \<and>
     (case reply of
        None \<Rightarrow> sends (trace v) = sends (trace w) + 4 \<and> errno_v v = ETIMEDOUT \<and> \<not> rttinit u
      | Some data \<Rightarrow> rto_ok (rttinfo u) \<and> (\<exists>bs. replied (trace w) fd n sq bs (trace v) \<and> data = drop HDR bs)))"

abbreviation sending :: "world \<Rightarrow> int \<Rightarrow> u32 \<Rightarrow> byte list \<Rightarrow> dgs \<Rightarrow> world \<Rightarrow> bool" where
  "sending w fd sq out x v \<equiv> awaiting w fd sq out (rtt_nrexmt (rttinfo x)) x v \<and> rtt_nrexmt (rttinfo x) \<le> 3"

lemma settle_wp:
  assumes "awaiting w fd sq out (rtt_nrexmt (rttinfo s) + 1) s v" and "rtt_nrexmt (rttinfo s) \<le> 3"
    and "\<forall>bs. reply = Some bs \<longrightarrow> replied (trace w) fd n sq bs (trace v)"
  shows "wp (settle rf rd reply s) (\<lambda>z v. case z of Inl x \<Rightarrow> sending w fd sq out x v | Inr a \<Rightarrow> sent_post w fd sq out n a v)
    (cut_short w fd sq out) v"
proof (cases reply)
  case None
  obtain gone info where t: "rtt_timeout (rttinfo s) = (gone, info)" by fastforce
  then have "rtt_nrexmt info = rtt_nrexmt (rttinfo s) + 1" "gone < 0 \<longleftrightarrow> 3 \<le> rtt_nrexmt (rttinfo s)"
    using rtt_timeout_simps [of "rttinfo s"] by (simp_all add: RTT_MAXNREXMT_def)
  with None t assms(1,2) show ?thesis
    unfolding settle_def by (auto simp: awaiting_def cut_short_def sent_post_def intro!: wp_intros)
next
  case (Some bs)
  with assms have r: "replied (trace w) fd n sq bs (trace v)" by blast
  show ?thesis
    unfolding settle_def rtt_ts_def Some option.case using assms(1,2) replied_append [OF r]
    by (intro wp_intros) (auto simp: awaiting_def cut_short_def sent_post_def rto_ok_stop intro!: wp_intros)
qed

lemma send_round_wp:
  assumes "sending w fd sq out s v"
  shows "wp (send_round rf rd fd out n s) (\<lambda>z v. case z of Inl x \<Rightarrow> sending w fd sq out x v | Inr a \<Rightarrow> sent_post w fd sq out n a v)
    (cut_short w fd sq out) v"
  unfolding send_round_def rtt_ts_def Let_def using assms
  by (intro wp_intros wp_mono [OF await_wp [where k = "rtt_nrexmt (rttinfo s) + 1"]])
    (auto simp: awaiting_def cut_short_def intro!: settle_wp wp_intros)

lemma dg_send_recv_exchange:
  assumes "length (recvhdr s) = HDR"
  shows "wp (dg_send_recv rf rd h fd out n s) (sent_post w fd (send_seq s + 1) out n) (cut_short w fd (send_seq s + 1) out) w"
proof -
  have send: "wp (loop (send_round rf rd fd out n) t) (sent_post w fd sq out n) (cut_short w fd sq out) v"
    if "sending w fd sq out t v" for t v sq
    by (rule send_loop.loop_wp [where I = "sending w fd sq out", OF that]) (rule send_round_wp)
  show ?thesis
    unfolding dg_send_recv_def dg_init_def rtt_init_def Signal_def signal_def Let_def using assms
    by (intro wp_intros send) (auto simp: awaiting_def cut_short_def rtt_newpack_def intro!: wp_intros send)
qed

text \<open>(C3) \<open>dg_send_recv\<close> sends at most four messages, whatever happens, and each of them is this request
  under the number of this call. If it returns data, they are what follows the header in a datagram that
  \<open>recvmsg\<close> has brought during this very call and that carries the number of this call; a datagram that is
  too short or carries another number is never returned. If it gives up, it has sent exactly four times and
  reports \<open>ETIMEDOUT\<close>, and the next call starts with a fresh estimator.\<close>

theorem dg_send_recv_reliable:
  assumes "dg_send_recv rf rd h fd outbuff inbytes s w = (res, w')" and "length (recvhdr s) = HDR"
  shows "\<exists>tr. trace w' = trace w @ tr \<and> sends tr \<le> 4 \<and> (\<forall>ev\<in>set tr. request_in fd (send_seq s + 1) outbuff ev) \<and>
    (\<forall>data u. res = Inr (Some data, u) \<longrightarrow> rto_ok (rttinfo u) \<and>
       (\<exists>r. Did (C_recvmsg fd (HDR + inbytes) 0) r \<in> set tr \<and> 0 \<le> r_val r \<and>
         HDR \<le> length (got (HDR + inbytes) r) \<and> word_at 0 (got (HDR + inbytes) r) = send_seq s + 1 \<and>
         data = drop HDR (got (HDR + inbytes) r))) \<and>
    (\<forall>u. res = Inr (None, u) \<longrightarrow> sends tr = 4 \<and> errno_v w' = ETIMEDOUT \<and> \<not> rttinit u)"
proof -
  from dg_send_recv_exchange [OF assms(2), of rf rd h fd outbuff inbytes w] assms(1)
  have "case res of Inl e \<Rightarrow> cut_short w fd (send_seq s + 1) outbuff e w'
      | Inr a \<Rightarrow> sent_post w fd (send_seq s + 1) outbuff inbytes a w'"
    by (auto simp: wp_def split: sum.splits)
  then show ?thesis
    by (cases res)
      (force simp: cut_short_def sent_post_def only_request_def replied_def reply_to_def split: option.splits)+
qed

definition dgs_start :: dgs where
  "dgs_start = \<lparr>rttinfo = \<lparr>rtt_rtt = 0, rtt_srtt = 0, rtt_rttvar = 0, rtt_rto = 0, rtt_nrexmt = 0, rtt_base = 0\<rparr>,
     rttinit = False, send_seq = 0, send_ts = 0, recvhdr = replicate 8 0, rtt_d_flag = False\<rparr>"

text \<open>The first transmission is cut off after a reply has come, the second brings a late reply to another request
  and then the reply \<open>o\<close>.\<close>

definition dg_example :: "resp list" where
  "dg_example = [ok 0, ok 0, ok 0, ok 10, ok 0, (gives [1, 0, 0, 0, 0, 0, 0, 0, 110])\<lparr>r_aux := [1]\<rparr>,
     ok 0, ok 10, ok 0, gives [9, 0, 0, 0, 0, 0, 0, 0, 112], gives [1, 0, 0, 0, 0, 0, 0, 0, 111], ok 0, ok 0]"

theorem dg_send_recv_reliable_witness:
  "\<exists>u w' r. dg_send_recv id id 1 3 [104, 105] 4096 dgs_start (start dg_example) = (Inr (Some [111], u), w') \<and>
     sends (trace w') = 2 \<and> Did (C_recvmsg 3 (HDR + 4096) 0) r \<in> set (trace w') \<and>
     word_at 0 (got (HDR + 4096) r) = 1 \<and> drop HDR (got (HDR + 4096) r) = [111]"
proof -
  have late: "alarm_after ((gives bs)\<lparr>r_aux := [1]\<rparr>)" for bs by (simp add: alarm_after_def aux_def)
  have "\<exists>u w'. dg_send_recv id id 1 3 [104, 105] 4096 dgs_start (start dg_example) = (Inr (Some [111], u), w') \<and> sends (trace w') = 2"
    by (simp add: dg_send_recv_def dg_init_def rtt_init_def dgs_start_def dg_example_def late Gettimeofday_def time_of_def Signal_def signal_def
        Let_def andThen_apply sys_apply send_loop.loop_unfold send_round_def rtt_ts_def ts_at_def Sendmsg_def put_len_def
        await_def await_loop.loop_unfold await_round_def recv_or_alarm_def got_def recv_seq_def word_at_def settle_def
        rtt_timeout_def RTT_MAXNREXMT_def HDR_def aux_def bytes32_def le32_def rtt_newpack_def)
  then obtain u w' where run: "dg_send_recv id id 1 3 [104, 105] 4096 dgs_start (start dg_example) = (Inr (Some [111], u), w')"
    and two: "sends (trace w') = 2" by blast
  have "length (recvhdr dgs_start) = HDR" by (simp add: dgs_start_def HDR_def)
  moreover have "send_seq dgs_start + 1 = 1" by (simp add: dgs_start_def)
  ultimately show ?thesis
    using dg_send_recv_reliable [OF run] run two by auto
qed

end
