(* ===== verification/Echo_Poll.thy ===== *)
theory Echo_Poll
  imports Connections Datagram_Echo
begin

text \<open>
  \<open>StringEcho5_poll/Server/main.cpp\<close>: the echo server with \<open>poll\<close>. Its array of \<open>pollfd\<close> has
  \<open>FOPEN_MAX\<close> entries, the first of which is the listening socket; \<open>revents\<close> is \<open>None\<close> where it has
  not been set. The number of bytes that \<open>read\<close> returns is kept in a \<open>size_t\<close>, so that the test for an
  error never succeeds: a failed \<open>read\<close> is taken for \<open>2 ^ 64 - 1\<close> bytes.
\<close>

definition POLLRDNORM :: int where "POLLRDNORM = 64"
definition POLLERR :: int where "POLLERR = 8"
definition FOPEN_MAX :: nat where "FOPEN_MAX = 16"

record pollfd =
  pf_fd :: int
  pf_events :: int
  pf_revents :: "int option"

record pollsrv =
  q_client :: "pollfd list"
  q_maxi :: nat

definition has_event :: "int \<Rightarrow> int \<Rightarrow> bool" where
  "has_event revents bits \<longleftrightarrow> revents AND bits \<noteq> 0"

definition put_pollfd :: "nat \<Rightarrow> int \<Rightarrow> pollsrv \<Rightarrow> pollsrv" where
  "put_pollfd i connfd s = s\<lparr>q_client := (q_client s)[i := (q_client s ! i)\<lparr>pf_fd := connfd, pf_events := POLLRDNORM\<rparr>],
     q_maxi := max i (q_maxi s)\<rparr>"

definition free_pollfd :: "nat \<Rightarrow> pollsrv \<Rightarrow> pollsrv" where
  "free_pollfd i s = s\<lparr>q_client := (q_client s)[i := (q_client s ! i)\<lparr>pf_fd := -1\<rparr>]\<rparr>"

text \<open>What \<open>poll\<close> reports is stored in the entries it was given.\<close>

definition set_revents :: "int list \<Rightarrow> pollsrv \<Rightarrow> pollsrv" where
  "set_revents re s = s\<lparr>q_client :=
     map2 (\<lambda>c e. c\<lparr>pf_revents := Some e\<rparr>) (take (length re) (q_client s)) re @ drop (length re) (q_client s)\<rparr>"

text \<open>\<open>n\<close> as a \<open>size_t\<close> is negative never; the bytes after an error lie outside the buffer.\<close>

definition serve_pollfd :: "nat \<Rightarrow> pollsrv \<Rightarrow> (world, pollsrv) prog" where
  "serve_pollfd i s = (let sockfd = pf_fd (q_client s ! i) in
     andThen (sys_read sockfd MAXLINE) (\<lambda>(n, buf).
       if n < 0 then halt (Undef ''Writen: buf'')
       else if n = 0 then seq (Close sockfd) (ret (free_pollfd i s))
       else seq (Writen sockfd buf) (ret s)))"

fun serve_pollfds :: "nat list \<Rightarrow> int \<Rightarrow> pollsrv \<Rightarrow> (world, pollsrv) prog" where
  "serve_pollfds [] nready s = ret s"
| "serve_pollfds (i # is) nready s =
     (if pf_fd (q_client s ! i) < 0 then serve_pollfds is nready s
      else case pf_revents (q_client s ! i) of
          None \<Rightarrow> halt (Undef ''revents'')
        | Some re \<Rightarrow>
            if has_event re (POLLRDNORM OR POLLERR) then
              andThen (serve_pollfd i s) (\<lambda>s.
                if nready - 1 \<le> 0 then ret s else serve_pollfds is (nready - 1) s)
            else serve_pollfds is nready s)"

text \<open>The first free entry after that of the listening socket.\<close>

definition accept_pollfd :: "int \<Rightarrow> pollsrv \<Rightarrow> (world, pollsrv) prog" where
  "accept_pollfd listenfd s = andThen (Accept listenfd) (\<lambda>(connfd, _).
     case first_free (map pf_fd (tl (q_client s))) of
       None \<Rightarrow> err_quit ''too many clients''
     | Some i \<Rightarrow> ret (put_pollfd (Suc i) connfd s))"

definition poll_round :: "int \<Rightarrow> pollsrv \<Rightarrow> (world, pollsrv) prog" where
  "poll_round listenfd s =
     andThen (Poll (map (\<lambda>c. (pf_fd c, pf_events c)) (take (q_maxi s + 1) (q_client s))) (-1)) (\<lambda>(nready, re).
       let s = set_revents re s in
       case pf_revents (q_client s ! 0) of
         None \<Rightarrow> halt (Undef ''revents'')
       | Some e \<Rightarrow>
           if has_event e POLLRDNORM then
             andThen (accept_pollfd listenfd s) (\<lambda>s.
               if nready - 1 \<le> 0 then ret s else serve_pollfds [1..<q_maxi s + 1] (nready - 1) s)
           else serve_pollfds [1..<q_maxi s + 1] nready s)"

text \<open>\<open>events\<close> of the free entries is not initialised.\<close>

definition poll_init :: "(nat \<Rightarrow> int) \<Rightarrow> int \<Rightarrow> pollsrv" where
  "poll_init garbage listenfd = \<lparr>q_client = \<lparr>pf_fd = listenfd, pf_events = POLLRDNORM, pf_revents = None\<rparr> #
     map (\<lambda>i. \<lparr>pf_fd = -1, pf_events = garbage i, pf_revents = None\<rparr>) [1..<FOPEN_MAX], q_maxi = 0\<rparr>"

definition poll_server_main :: "(nat \<Rightarrow> int) \<Rightarrow> (world, unit) prog" where
  "poll_server_main garbage = andThen (Socket AF_INET SOCK_STREAM 0) (\<lambda>listenfd.
     seq (Bind listenfd (Sin (htons 1313) (htonl INADDR_ANY)))
    (seq (Listen listenfd 100) (forever (poll_round listenfd) (poll_init garbage listenfd))))"

interpretation poll_slots: slots "\<lambda>s. map pf_fd (q_client s)" put_pollfd free_pollfd
  by unfold_locales (simp_all add: put_pollfd_def free_pollfd_def map_update)

lemma lawful_poll [lawful_intros]:
  "lawful (serve_pollfd i s)" "lawful (serve_pollfds is nready s)" "lawful (accept_pollfd listenfd s)"
proof -
  show one: "lawful (serve_pollfd i s)" for i s
    unfolding serve_pollfd_def Let_def by (auto intro!: lawful_intros)
  show "lawful (serve_pollfds is nready s)"
    by (induction "is" arbitrary: nready s) (auto intro!: lawful_intros one split: option.split)
  show "lawful (accept_pollfd listenfd s)"
    unfolding accept_pollfd_def by (auto intro!: lawful_intros split: option.split)
qed

lemma eats_poll_round: "eats P (poll_round listenfd s)"
  unfolding poll_round_def Let_def
  by (intro eats_first eats_intros) (auto intro!: lawful_intros split: option.split)

section \<open>The array\<close>

text \<open>The array keeps its size, its first entry is that of the listening socket, and \<open>maxi\<close> is an
  index of it that no entry in use exceeds.\<close>

definition pollsrv_ok :: "int \<Rightarrow> pollsrv \<Rightarrow> bool" where
  "pollsrv_ok l s \<longleftrightarrow> length (q_client s) = FOPEN_MAX \<and> pf_fd (q_client s ! 0) = l \<and>
     q_maxi s < FOPEN_MAX \<and> (\<forall>i<FOPEN_MAX. q_maxi s < i \<longrightarrow> pf_fd (q_client s ! i) = -1)"

lemma pollsrv_ok_init: "pollsrv_ok l (poll_init garbage l)"
proof -
  have "pf_fd (map (\<lambda>i. \<lparr>pf_fd = -1, pf_events = garbage i, pf_revents = None\<rparr>) [1..<FOPEN_MAX] ! j) = -1"
    if "j < FOPEN_MAX - 1" for j using that by simp
  then show ?thesis
    by (auto simp: pollsrv_ok_def poll_init_def FOPEN_MAX_def nth_Cons split: nat.split)
qed

lemma pollsrv_ok_put:
  assumes "pollsrv_ok l s" and "0 < i" and "i < FOPEN_MAX"
  shows "pollsrv_ok l (put_pollfd i fd s)"
  using assms by (auto simp: pollsrv_ok_def put_pollfd_def nth_list_update)

lemma pollsrv_ok_free:
  assumes "pollsrv_ok l s" and "0 < i"
  shows "pollsrv_ok l (free_pollfd i s)"
  using assms by (cases "i < length (q_client s)") (auto simp: pollsrv_ok_def free_pollfd_def nth_list_update)

lemma pollsrv_ok_revents:
  assumes "pollsrv_ok l s" and "length re \<le> FOPEN_MAX"
  shows "pollsrv_ok l (set_revents re s)"
proof -
  let ?c = "q_client s"
  have len: "length (q_client (set_revents re s)) = length ?c"
    using assms by (simp add: pollsrv_ok_def set_revents_def)
  moreover have "pf_fd (q_client (set_revents re s) ! i) = pf_fd (?c ! i)" if "i < length ?c" for i
    using that assms by (auto simp: pollsrv_ok_def set_revents_def nth_append)
  moreover have "q_maxi (set_revents re s) = q_maxi s" by (simp add: set_revents_def)
  ultimately show ?thesis using assms by (simp add: pollsrv_ok_def FOPEN_MAX_def)
qed

lemma serve_pollfds_ok:
  "pollsrv_ok l s \<Longrightarrow> \<forall>i\<in>set is. 0 < i \<Longrightarrow> wp (serve_pollfds is nready s) (\<lambda>s _. pollsrv_ok l s) (\<lambda>_ _. True) w"
proof (induction "is" arbitrary: nready s w)
  case Nil
  then show ?case by (simp add: wp_def)
next
  case (Cons i "is")
  have one: "wp (serve_pollfd i s) (\<lambda>s _. pollsrv_ok l s) (\<lambda>_ _. True) v" for v :: world
    unfolding serve_pollfd_def Let_def sys_read_def using Cons.prems
    by (intro wp_intros) (auto simp: pollsrv_ok_free)
  then show ?case
    by (simp, intro conjI impI wp_cases wp_andThen wp_halt wp_mono [OF one])
      (use Cons.prems in \<open>auto intro!: Cons.IH wp_ret\<close>)
qed

lemma accept_pollfd_ok:
  assumes "pollsrv_ok l s"
  shows "wp (accept_pollfd l s) (\<lambda>s _. pollsrv_ok l s) (\<lambda>_ _. True) w"
proof -
  have "pollsrv_ok l (put_pollfd (Suc i) fd s)" if "first_free (map pf_fd (tl (q_client s))) = Some i" for i fd
    using first_free_Some [OF that] assms by (intro pollsrv_ok_put) (auto simp: pollsrv_ok_def)
  then show ?thesis
    unfolding accept_pollfd_def by (intro wp_intros) auto
qed

text \<open>(C32) The array of the \<open>poll\<close> server stays well formed: a round that begins with an array of
  \<open>FOPEN_MAX\<close> entries, the listening socket in the first and every entry beyond \<open>maxi\<close> free, ends
  with such an array. So every index the server uses lies inside it, and \<open>poll\<close> is told of every
  descriptor that is in use.\<close>

theorem poll_round_ok:
  assumes "pollsrv_ok l s" and "poll_round l s w = (Inr s', w')"
  shows "pollsrv_ok l s'"
proof -
  have serve: "wp (serve_pollfds [1..<q_maxi u + 1] n u) (\<lambda>s _. pollsrv_ok l s) (\<lambda>_ _. True) v"
    if "pollsrv_ok l u" for n u and v :: world
    by (rule serve_pollfds_ok [OF that]) (simp del: upt_Suc)
  have "pollsrv_ok l (set_revents (revents_of (map (\<lambda>c. (pf_fd c, pf_events c)) (take (q_maxi s + 1) (q_client s))) r) s)" for r
    using assms(1) by (intro pollsrv_ok_revents) (auto simp: revents_of_def pollsrv_ok_def)
  then have "wp (poll_round l s) (\<lambda>s _. pollsrv_ok l s) (\<lambda>_ _. True) w"
    unfolding poll_round_def Let_def
    by (intro wp_intros wp_mono [OF accept_pollfd_ok] serve)
      (simp del: upt_Suc | elim Pair_inject | clarsimp simp del: upt_Suc simp: Let_def)+
  then show ?thesis using assms(2) by (rule wp_returns)
qed

section \<open>The server\<close>

text \<open>While it runs the server keeps \<open>echoed\<close>, and no \<open>read\<close> has failed; it stops with at most one
  reply incomplete, or because a \<open>read\<close> failed.\<close>

definition read_failed :: "event \<Rightarrow> bool" where
  "read_failed ev \<longleftrightarrow> (\<exists>fd n r. ev = Did (C_read fd n) r \<and> r_val r < 0)"

definition poll_state :: "world \<Rightarrow> bool" where
  "poll_state w \<longleftrightarrow> echoed (trace w) \<and> (\<forall>ev\<in>set (trace w). \<not> read_failed ev)"

definition poll_stop :: "stop \<Rightarrow> world \<Rightarrow> bool" where
  "poll_stop e w \<longleftrightarrow> echoing (trace w) \<and>
     ((\<exists>ev\<in>set (trace w). read_failed ev) \<longrightarrow> e = Undef ''Writen: buf'')"

definition mute :: "event \<Rightarrow> bool" where
  "mute ev \<longleftrightarrow> (\<forall>fd. ev_received fd ev = [] \<and> ev_sent fd ev = []) \<and> \<not> read_failed ev"

lemma mute_log [simp]: "is_log ev \<Longrightarrow> mute ev"
  by (auto simp: mute_def read_failed_def)

lemma mute_calls [simp]: "mute (Did (C_accept l) r)" "mute (Did (C_poll fds t) r)" "mute (Did (C_close fd) r)"
  "mute (Did (C_socket f t p) r)" "mute (Did (C_bind l sa) r)" "mute (Did (C_listen l n) r)"
  "mute (Did (C_lib g ks bs) r)"
  by (simp_all add: mute_def read_failed_def)

lemma mute_refused: "refused fd ev \<Longrightarrow> mute ev"
  by (auto simp: mute_def read_failed_def refused_def)

lemma mute_quiet: "\<forall>ev\<in>set tr. mute ev \<Longrightarrow> received fd tr = [] \<and> sent fd tr = []"
  by (induction tr) (auto simp: mute_def)

lemma poll_state_mute:
  assumes "poll_state w" and "trace v = trace w @ tr" and "\<forall>ev\<in>set tr. mute ev"
  shows "poll_state v" "poll_stop e v"
proof -
  from assms mute_quiet [OF assms(3)] show "poll_state v"
    by (auto simp: poll_state_def mute_def intro!: echoed_quiet)
  then show "poll_stop e v"
    by (auto simp: poll_state_def poll_stop_def intro: echoed_echoing)
qed

lemma poll_state_stop: "poll_state w \<Longrightarrow> poll_stop e w"
  by (rule poll_state_mute(2) [of _ _ "[]"]) simp_all

lemma serve_pollfd_wp:
  assumes st: "poll_state w"
  shows "wp (serve_pollfd i s) (\<lambda>_. poll_state) poll_stop w"
proof -
  let ?fd = "pf_fd (q_client s ! i)"
  have writes: "\<not> read_failed ev" if "writes_of ?fd ev \<or> is_log ev" for ev
    using that by (auto simp: writes_of_def read_failed_def)
  show ?thesis
    unfolding serve_pollfd_def Let_def sys_read_def
  proof (intro wp_intros)
    show "poll_stop Blocked w" using st by (rule poll_state_stop)
  next
    fix r n buf
    assume nb: "(got_len MAXLINE r, got MAXLINE r) = (n, buf)"
    let ?v = "took (C_read ?fd MAXLINE) r w"
    have mute: "mute (Did (C_read ?fd MAXLINE) r)" if "n = 0"
      using that nb got_len_zero [of MAXLINE r] got_len_neg_iff [of MAXLINE r] by (auto simp: mute_def read_failed_def)
    have read: "\<not> read_failed (Did (C_read ?fd MAXLINE) r)" if "\<not> n < 0"
      using that nb got_len_neg_iff [of MAXLINE r] by (auto simp: read_failed_def)
    show "poll_stop (Undef ''Writen: buf'') ?v" if "n < 0"
      using st that nb echoing_relay [of "trace w" "[]" ?fd 0 MAXLINE r]
      by (auto simp: poll_stop_def poll_state_def)
    show "poll_state (took (C_close ?fd) q ?v)" if "n = 0" for q
      by (rule poll_state_mute(1) [OF st, of _ "[Did (C_read ?fd MAXLINE) r, Did (C_close ?fd) q]"])
        (use mute that in \<open>auto simp: mute_def read_failed_def\<close>)
    show "poll_stop (Exit 1 ''close error'') (took (C_close ?fd) q ?v\<lparr>trace := trace ?v @ [Did (C_close ?fd) q, ev], errno_v := err\<rparr>)"
      if "n = 0" "is_log ev" for q ev err
      by (rule poll_state_mute(2) [OF st, of _ "[Did (C_read ?fd MAXLINE) r, Did (C_close ?fd) q, ev]"])
        (use mute that in \<open>auto simp: mute_def read_failed_def\<close>)
    show "poll_stop Blocked ?v" if "n = 0"
      by (rule poll_state_mute(2) [OF st, of _ "[Did (C_read ?fd MAXLINE) r]"])
        (use mute that in simp_all)
    show "int (length buf) < SIZE_MAX" using nb by auto
    show "poll_state u" if "\<not> n < 0"
      "trace u = trace ?v @ tr" "\<forall>ev\<in>set tr. writes_of ?fd ev" "sent ?fd tr = buf" for u tr
      using echoed_relay [of "trace w" tr ?fd MAXLINE r] st that nb read writes
      by (auto simp: poll_state_def)
    show "poll_stop e u" if "\<not> n < 0"
      "trace u = trace ?v @ tr" "\<forall>ev\<in>set tr. writes_of ?fd ev \<or> is_log ev" "sent ?fd tr = take k buf" for e u tr k
      using echoing_relay [of "trace w" tr ?fd k MAXLINE r] st that nb read writes
      by (auto simp: poll_state_def poll_stop_def)
  qed
qed

lemma serve_pollfds_wp:
  "poll_state w \<Longrightarrow> wp (serve_pollfds is nready s) (\<lambda>_. poll_state) poll_stop w"
proof (induction "is" arbitrary: nready s w)
  case Nil
  then show ?case by (simp add: wp_def)
next
  case (Cons i "is")
  show ?case
    by (simp, intro conjI impI wp_cases wp_andThen wp_mono [OF serve_pollfd_wp [OF Cons.prems]] wp_halt)
      (auto intro!: Cons.IH Cons.prems wp_ret intro: poll_state_stop [OF Cons.prems])
qed


lemma accept_pollfd_wp:
  assumes "poll_state w"
  shows "wp (accept_pollfd l s) (\<lambda>_. poll_state) poll_stop w"
  unfolding accept_pollfd_def
proof (intro wp_intros)
  fix e tr and v :: world
  assume "trace v = trace w @ tr" and "\<forall>ev\<in>set tr. refused l ev \<or> is_log ev"
  then show "poll_stop e v"
    by (intro poll_state_mute [OF assms]) (auto intro: mute_refused)
next
  fix r tr x y ev and v :: world
  assume "trace v = trace w @ tr @ [Did (C_accept l) r]" and "\<forall>ev\<in>set tr. refused l ev" and "is_log ev"
  then show "poll_stop (Exit 1 ''too many clients'') (v\<lparr>trace := trace v @ [ev]\<rparr>)"
    by (intro poll_state_mute [OF assms, of _ "tr @ [Did (C_accept l) r, ev]"]) (auto intro: mute_refused)
next
  fix r tr x y i and v :: world
  assume "trace v = trace w @ tr @ [Did (C_accept l) r]" and "\<forall>ev\<in>set tr. refused l ev"
  then show "poll_state v"
    by (intro poll_state_mute [OF assms]) (auto intro: mute_refused)
qed

lemma poll_round_wp:
  assumes "poll_state w"
  shows "wp (poll_round l s) (\<lambda>_. poll_state) poll_stop w"
proof -
  let ?c = "C_poll (map (\<lambda>c. (pf_fd c, pf_events c)) (take (q_maxi s + 1) (q_client s))) (-1)"
  have polled: "poll_state (took ?c r w)" for r
    using assms by (rule poll_state_mute) auto
  have fails: "poll_stop (Exit 1 ''poll error'') (took ?c r w\<lparr>trace := trace w @ [Did ?c r, ev], errno_v := err\<rparr>)"
    if "is_log ev" for r ev err
    by (rule poll_state_mute [OF assms]) (use that in auto)
  show ?thesis
    unfolding poll_round_def Let_def
    by (intro wp_intros wp_mono [OF accept_pollfd_wp] serve_pollfds_wp polled fails;
        (assumption | rule assms polled poll_state_stop [OF assms] poll_state_stop [OF polled])?)
qed

lemma poll_server_wp:
  assumes "trace w = []"
  shows "wp (poll_server_main garbage) (\<lambda>_ _. False) poll_stop w"
proof -
  have "poll_state w" using assms by (simp add: poll_state_def)
  note start = poll_state_mute [OF this]
  show ?thesis
    unfolding poll_server_main_def Listen_def Let_def
    by (intro wp_intros forever_wp [where I = "\<lambda>_. poll_state"] eats_poll_round
        wp_mono [OF poll_round_wp])
      (auto intro!: start simp: assms)
qed

text \<open>(C31) The \<open>poll\<close> server never returns, and whenever it stops it has sent back to every descriptor
  a beginning of what it received from it, in order; but the first \<open>read\<close> that fails is its end:
  the negative count, kept in a \<open>size_t\<close>, is taken for a number of bytes beyond every buffer, so that
  neither the reset of a connection nor any other error reaches the code that handles it.\<close>

theorem poll_server_echoes:
  assumes "poll_server_main garbage w = (res, w')" and "trace w = []"
  shows "(\<exists>e. res = Inl e) \<and> (\<forall>fd. \<exists>rest. received fd (trace w') = sent fd (trace w') @ rest) \<and>
    ((\<exists>fd n r. Did (C_read fd n) r \<in> set (trace w') \<and> r_val r < 0) \<longrightarrow> res = Inl (Undef ''Writen: buf''))"
  using assms(1) poll_server_wp [OF assms(2), of garbage]
  by (cases res) (auto simp: wp_def poll_stop_def echoing_def read_failed_def)

lemma poll_round_apply:
  "poll_round l s w = andThen (Poll (map (\<lambda>c. (pf_fd c, pf_events c)) (take (q_maxi s + 1) (q_client s))) (-1))
     (\<lambda>(nready, re). let s = set_revents re s in
       case pf_revents (q_client s ! 0) of
         None \<Rightarrow> halt (Undef ''revents'')
       | Some e \<Rightarrow>
           if has_event e POLLRDNORM then
             andThen (accept_pollfd l s) (\<lambda>s.
               if nready - 1 \<le> 0 then ret s else serve_pollfds [1..<q_maxi s + 1] (nready - 1) s)
           else serve_pollfds [1..<q_maxi s + 1] nready s) w"
  by (simp add: poll_round_def)

text \<open>A run: a client connects, sends two bytes and resets the connection.\<close>

definition poll_example :: "resp list" where
  "poll_example = [ok 3, ok 0, ok 0, ok 0, no_resp\<lparr>r_aux := [64]\<rparr>, ok 4,
     no_resp\<lparr>r_aux := [0, 64]\<rparr>, gives [104, 105], ok 2, no_resp\<lparr>r_aux := [0, 8]\<rparr>, fails ECONNRESET]"

lemma poll_init_3:
  "poll_init (\<lambda>_. 0) 3 = \<lparr>q_client = \<lparr>pf_fd = 3, pf_events = POLLRDNORM, pf_revents = None\<rparr> #
     replicate 15 \<lparr>pf_fd = -1, pf_events = 0, pf_revents = None\<rparr>, q_maxi = 0\<rparr>"
  by (simp add: poll_init_def FOPEN_MAX_def upt_rec numeral_eq_Suc)

theorem poll_round_ok_witness:
  "\<exists>s' w'. poll_round 3 (poll_init (\<lambda>_. 0) 3) (start [no_resp\<lparr>r_aux := [64]\<rparr>, ok 4]) = (Inr s', w') \<and>
     pf_fd (q_client s' ! 1) = 4 \<and> pollsrv_ok 3 s'"
proof -
  have "\<exists>s' w'. poll_round 3 (poll_init (\<lambda>_. 0) 3) (start [no_resp\<lparr>r_aux := [64]\<rparr>, ok 4]) = (Inr s', w') \<and>
      pf_fd (q_client s' ! 1) = 4"
    by (simp add: poll_init_3 poll_round_apply Poll_def Let_def andThen_apply sys_apply revents_of_def set_revents_def
        aux_def has_event_def POLLRDNORM_def accept_pollfd_def Accept_def accept_w.loop_unfold accept_round_apply
        put_pollfd_def numeral_eq_Suc)
  with poll_round_ok [OF pollsrv_ok_init] show ?thesis by blast
qed

lemma poll_example_run:
  "\<exists>w' r. poll_server_main (\<lambda>_. 0) (start poll_example) = (Inl (Undef ''Writen: buf''), w') \<and>
     received 4 (trace w') = [104, 105] \<and> Did (C_read 4 MAXLINE) r \<in> set (trace w') \<and> r_val r < 0"
  by (simp add: poll_server_main_def Socket_def Bind_def Listen_def Let_def andThen_apply sys_apply
        poll_example_def forever_unfold [OF eats_poll_round] poll_round_apply poll_init_3 Poll_def revents_of_def
        set_revents_def aux_def has_event_def POLLRDNORM_def POLLERR_def accept_pollfd_def Accept_def
        accept_w.loop_unfold accept_round_apply put_pollfd_def numeral_eq_Suc
        serve_pollfd_def sys_read_def Close_def free_pollfd_def Writen_def writen_def writen_loop.loop_unfold
        writen_round_apply writen_next_def got_def got_len_def put_len_def MAXLINE_def received_def)
    (intro exI [of _ "fails ECONNRESET"], simp)

theorem poll_server_echoes_witness:
  "\<exists>w'. poll_server_main (\<lambda>_. 0) (start poll_example) = (Inl (Undef ''Writen: buf''), w') \<and>
     received 4 (trace w') = [104, 105] \<and> (\<exists>rest. received 4 (trace w') = sent 4 (trace w') @ rest)"
proof -
  obtain w' where run: "poll_server_main (\<lambda>_. 0) (start poll_example) = (Inl (Undef ''Writen: buf''), w')"
    and "received 4 (trace w') = [104, 105]"
    using poll_example_run by blast
  moreover from poll_server_echoes [OF run]
  have "\<exists>rest. received 4 (trace w') = sent 4 (trace w') @ rest" by simp
  ultimately show ?thesis using run by blast
qed

end
