(* ===== verification/Nonblock_Cli.thy ===== *)
theory Nonblock_Cli
  imports Tcp_Programs
begin

text \<open>
  \<open>nonblock/str_cli_nonblock.cpp\<close> with \<open>gf_time.cpp\<close>: the client that relays between its terminal
  and the socket with all descriptors non-blocking. Each direction has a buffer, an array with
  two pointers: data is read in at the first (\<open>toiptr\<close>, \<open>friptr\<close>) and written out from the second
  (\<open>tooptr\<close>, \<open>froptr\<close>). The locale \<open>relay_buffer\<close> is what the client relies on: such a buffer is a
  queue of bytes, with room for more or not.
\<close>

section \<open>The buffers\<close>

record buf =
  b_data :: "byte list"
  b_in :: nat
  b_out :: nat

definition buf_start :: "byte list \<Rightarrow> buf" where
  "buf_start array = \<lparr>b_data = array, b_in = 0, b_out = 0\<rparr>"

definition buf_room :: "buf \<Rightarrow> nat" where
  "buf_room b = MAXLINE - b_in b"

definition buf_pending :: "buf \<Rightarrow> byte list" where
  "buf_pending b = take (b_in b - b_out b) (drop (b_out b) (b_data b))"

definition buf_fill :: "byte list \<Rightarrow> buf \<Rightarrow> buf" where
  "buf_fill bs b = b\<lparr>b_data := take (b_in b) (b_data b) @ bs @ drop (b_in b + length bs) (b_data b),
     b_in := b_in b + length bs\<rparr>"

definition buf_drain :: "nat \<Rightarrow> buf \<Rightarrow> buf" where
  "buf_drain n b =
     (if b_out b + n = b_in b then b\<lparr>b_in := 0, b_out := 0\<rparr> else b\<lparr>b_out := b_out b + n\<rparr>)"

definition buf_ok :: "buf \<Rightarrow> bool" where
  "buf_ok b \<longleftrightarrow> length (b_data b) = MAXLINE \<and> b_out b \<le> b_in b \<and> b_in b \<le> MAXLINE"

text \<open>\<open>carries b input output\<close>: what went in has come out, but for what is still in the buffer.\<close>

locale relay_buffer =
  fixes ok :: "'b \<Rightarrow> bool" and room :: "'b \<Rightarrow> nat" and pending :: "'b \<Rightarrow> byte list"
    and fill :: "byte list \<Rightarrow> 'b \<Rightarrow> 'b" and drain :: "nat \<Rightarrow> 'b \<Rightarrow> 'b"
  assumes fill: "ok b \<Longrightarrow> length bs \<le> room b \<Longrightarrow> ok (fill bs b) \<and> pending (fill bs b) = pending b @ bs"
    and drain: "ok b \<Longrightarrow> n \<le> length (pending b) \<Longrightarrow> ok (drain n b) \<and> pending (drain n b) = drop n (pending b)"
begin

definition carries :: "'b \<Rightarrow> byte list \<Rightarrow> byte list \<Rightarrow> bool" where
  "carries b input output \<longleftrightarrow> ok b \<and> input = output @ pending b"

lemma carries_fill:
  "carries b input output \<Longrightarrow> length bs \<le> room b \<Longrightarrow> carries (fill bs b) (input @ bs) output"
  using fill by (simp add: carries_def)

lemma carries_drain:
  "carries b input output \<Longrightarrow> n \<le> length (pending b) \<Longrightarrow>
     carries (drain n b) input (output @ take n (pending b))"
  using drain by (simp add: carries_def)

lemma carries_empty: "carries b input output \<Longrightarrow> pending b = [] \<longleftrightarrow> input = output"
  by (auto simp: carries_def)

end

lemma buf_pending_alt: "buf_pending b = drop (b_out b) (take (b_in b) (b_data b))"
  by (simp add: buf_pending_def drop_take)

interpretation nb: relay_buffer buf_ok buf_room buf_pending buf_fill buf_drain
proof
  fix b :: buf and bs :: "byte list" and n
  assume ok: "buf_ok b"
  show "buf_ok (buf_fill bs b) \<and> buf_pending (buf_fill bs b) = buf_pending b @ bs"
    if "length bs \<le> buf_room b"
    using ok that by (auto simp: buf_ok_def buf_fill_def buf_room_def buf_pending_alt min_absorb2)
  show "buf_ok (buf_drain n b) \<and> buf_pending (buf_drain n b) = drop n (buf_pending b)"
    if "n \<le> length (buf_pending b)"
    using ok that by (auto simp: buf_ok_def buf_drain_def buf_pending_def drop_take add.commute)
qed

lemma buf_fill_Nil: "buf_ok b \<Longrightarrow> buf_fill [] b = b"
  by (simp add: buf_ok_def buf_fill_def)

lemma buf_pending_empty: "buf_ok b \<Longrightarrow> buf_pending b = [] \<longleftrightarrow> b_out b = b_in b"
  by (auto simp: buf_ok_def buf_pending_def)

lemma length_buf_pending: "buf_ok b \<Longrightarrow> length (buf_pending b) = b_in b - b_out b"
  by (auto simp: buf_ok_def buf_pending_def)

section \<open>The client\<close>

record nbc =
  n_eof :: bool
  n_to :: buf
  n_fr :: buf

definition STDIN :: int where "STDIN = 0"

text \<open>The time as text: \<open>ctime\<close> stores 26 bytes, of which those from the twelfth on are copied into
  an array of 30.\<close>

definition gf_time :: "(world, byte list) prog" where
  "gf_time = andThen (sys C_gettimeofday) (\<lambda>r.
     if r_val r < 0 then err_sys ''gettimeofday error''
     else andThen (sys (C_lib ''ctime'' [fst (time_of r)] [])) (\<lambda>c.
       if 30 \<le> length (drop 11 (cstr (r_data c))) then halt (Undef ''strcpy'')
       else ret (take 8 (drop 11 (cstr (r_data c))) @ lit (''.'' @
         (let us = dec (nat (snd (time_of r))) in replicate (6 - length us) CHR ''0'' @ us)))))"

definition report :: "string \<Rightarrow> (world, unit) prog" where
  "report fmt = seq gf_time (complain fmt)"

definition nb_stdin :: "int \<Rightarrow> int set \<Rightarrow> nbc \<times> int set \<Rightarrow> (world, nbc \<times> int set) prog" where
  "nb_stdin sockfd rset = (\<lambda>(s, wset).
     if STDIN \<in> rset then
       andThen (sys_read STDIN (buf_room (n_to s))) (\<lambda>(n, bs). andThen get_errno (\<lambda>errno.
         if n < 0 then
           (if errno \<noteq> EWOULDBLOCK then err_sys ''read error on stdin'' else ret (s, wset))
         else if n = 0 then
           seq (report ''%s: EOF on stdin'')
          (seq (only_if (b_out (n_to s) = b_in (n_to s)) (Shutdown sockfd SHUT_WR))
               (ret (s\<lparr>n_eof := True\<rparr>, wset)))
         else
           seq (report ''%s: read %ld bytes from stdin'')
               (ret (s\<lparr>n_to := buf_fill bs (n_to s)\<rparr>, insert sockfd wset))))
     else ret (s, wset))"

text \<open>\<open>None\<close> when the function returns.\<close>

definition nb_socket :: "int \<Rightarrow> int set \<Rightarrow> nbc \<times> int set \<Rightarrow> (world, (nbc \<times> int set) option) prog" where
  "nb_socket sockfd rset = (\<lambda>(s, wset).
     if sockfd \<in> rset then
       andThen (sys_read sockfd (buf_room (n_fr s))) (\<lambda>(n, bs). andThen get_errno (\<lambda>errno.
         if n < 0 then
           (if errno \<noteq> EWOULDBLOCK then err_sys ''read error no socket'' else ret (Some (s, wset)))
         else if n = 0 then
           seq (report ''%s: EOF on socket'')
             (if n_eof s then ret None else err_quit ''str_cli: server terminated prematurely'')
         else
           seq (report ''%s: read %ld bytes from socket'')
               (ret (Some (s\<lparr>n_fr := buf_fill bs (n_fr s)\<rparr>, insert STDOUT wset)))))
     else ret (Some (s, wset)))"

definition nb_stdout :: "int set \<Rightarrow> nbc \<Rightarrow> (world, nbc) prog" where
  "nb_stdout wset s =
     (if STDOUT \<in> wset \<and> b_out (n_fr s) < b_in (n_fr s) then
        andThen (sys_write STDOUT (buf_pending (n_fr s))) (\<lambda>nwritten. andThen get_errno (\<lambda>errno.
          if nwritten < 0 then
            (if errno \<noteq> EWOULDBLOCK then err_sys ''write error to stdout'' else ret s)
          else seq (report ''%s: wrote %ld bytes to stdout'')
            (ret (s\<lparr>n_fr := buf_drain (nat nwritten) (n_fr s)\<rparr>))))
      else ret s)"

definition nb_sendout :: "int \<Rightarrow> int set \<Rightarrow> nbc \<Rightarrow> (world, nbc) prog" where
  "nb_sendout sockfd wset s =
     (if sockfd \<in> wset \<and> b_out (n_to s) < b_in (n_to s) then
        andThen (sys_write sockfd (buf_pending (n_to s))) (\<lambda>nwritten. andThen get_errno (\<lambda>errno.
          if nwritten < 0 then
            (if errno \<noteq> EWOULDBLOCK then err_sys ''write error to socket'' else ret s)
          else seq (report ''%s: wrote %ld bytes to socket'')
           (seq (only_if (b_out (n_to s) + nat nwritten = b_in (n_to s) \<and> n_eof s) (Shutdown sockfd SHUT_WR))
            (ret (s\<lparr>n_to := buf_drain (nat nwritten) (n_to s)\<rparr>)))))
      else ret s)"

definition nb_rset :: "int \<Rightarrow> nbc \<Rightarrow> int set" where
  "nb_rset sockfd s = (if \<not> n_eof s \<and> b_in (n_to s) < MAXLINE then {STDIN} else {}) \<union>
     (if b_in (n_fr s) < MAXLINE then {sockfd} else {})"

definition nb_wset :: "int \<Rightarrow> nbc \<Rightarrow> int set" where
  "nb_wset sockfd s = (if b_out (n_to s) \<noteq> b_in (n_to s) then {sockfd} else {}) \<union>
     (if b_out (n_fr s) \<noteq> b_in (n_fr s) then {STDOUT} else {})"

definition nb_round :: "int \<Rightarrow> nbc \<Rightarrow> (world, nbc + unit) prog" where
  "nb_round sockfd s = andThen (Select (nb_rset sockfd s) (nb_wset sockfd s) {} None) (\<lambda>(_, rset, wset).
     andThen (nb_stdin sockfd rset (s, wset)) (\<lambda>(s, wset).
     andThen (nb_socket sockfd rset (s, wset)) (\<lambda>z. case z of
         None \<Rightarrow> leave ()
       | Some (s, wset) \<Rightarrow>
           andThen (nb_stdout wset s) (\<lambda>s. andThen (nb_sendout sockfd wset s) (\<lambda>s. again s)))))"

definition set_nonblock :: "int \<Rightarrow> (world, unit) prog" where
  "set_nonblock fd = andThen (Fcntl fd F_GETFL 0) (\<lambda>val. seq (Fcntl fd F_SETFL (val OR O_NONBLOCK)) (ret ()))"

definition str_cli_nonblock :: "int \<Rightarrow> byte list \<Rightarrow> byte list \<Rightarrow> (world, unit) prog" where
  "str_cli_nonblock sockfd to fr =
     seq (set_nonblock sockfd) (seq (set_nonblock STDIN) (seq (set_nonblock STDOUT)
       (loop (nb_round sockfd) \<lparr>n_eof = False, n_to = buf_start to, n_fr = buf_start fr\<rparr>)))"

definition strclinonb_main :: "byte list \<Rightarrow> byte list \<Rightarrow> (world, int) prog" where
  "strclinonb_main to fr = connect_client (\<lambda>fd. str_cli_nonblock fd to fr)"


section \<open>The loop makes progress\<close>

lemma lawful_report [lawful_intros]: "lawful (report fmt)"
  unfolding report_def gf_time_def by (intro lawful_intros)

lemma lawful_nb [lawful_intros]:
  "lawful (nb_stdin fd rset p)" "lawful (nb_socket fd rset p)"
  "lawful (nb_stdout wset s)" "lawful (nb_sendout fd wset s)"
  unfolding nb_stdin_def nb_socket_def nb_stdout_def nb_sendout_def
  by (cases p; auto intro!: lawful_intros)+

lemma lawful_nb_round [lawful_intros]: "lawful (nb_round fd s)"
  unfolding nb_round_def by (auto intro!: lawful_intros)

interpretation nb_loop: consuming "nb_round fd" for fd
  by unfold_locales (auto simp: nb_round_def intro!: eats_first eats_intros lawful_intros)

section \<open>The invariant\<close>

text \<open>\<open>at_each P tr\<close>: every event of the trace is related by \<open>P\<close> to the events before it.\<close>

definition at_each :: "(event list \<Rightarrow> event \<Rightarrow> bool) \<Rightarrow> event list \<Rightarrow> bool" where
  "at_each P tr \<longleftrightarrow> (\<forall>i<length tr. P (take i tr) (tr ! i))"

lemma at_each_Nil [simp]: "at_each P []"
  by (simp add: at_each_def)

lemma at_each_snoc [simp]: "at_each P (tr @ [ev]) \<longleftrightarrow> at_each P tr \<and> P tr ev"
  by (auto simp: at_each_def nth_append less_Suc_eq)

lemma at_each_append: "at_each P tr \<Longrightarrow> \<forall>ev\<in>set es. \<forall>pre. P pre ev \<Longrightarrow> at_each P (tr @ es)"
proof (induction es arbitrary: tr)
  case (Cons ev es)
  then have "at_each P ((tr @ [ev]) @ es)" by (intro Cons.IH) simp_all
  then show ?case by simp
qed simp

text \<open>The FIN is sent when the input has ended and all of it has been sent.\<close>

fun fin_late :: "int \<Rightarrow> event list \<Rightarrow> event \<Rightarrow> bool" where
  "fin_late fd pre (Did (C_shutdown fd' how) r) \<longleftrightarrow>
     received STDIN pre = sent fd pre \<and> (\<exists>ev\<in>set pre. read_eof STDIN ev)"
| "fin_late fd pre _ \<longleftrightarrow> True"

definition nb_state :: "int \<Rightarrow> nbc \<Rightarrow> world \<Rightarrow> bool" where
  "nb_state fd s w \<longleftrightarrow>
     nb.carries (n_to s) (received STDIN (trace w)) (sent fd (trace w)) \<and>
     nb.carries (n_fr s) (received fd (trace w)) (sent STDOUT (trace w)) \<and>
     (n_eof s \<longrightarrow> saw_eof STDIN w) \<and> at_each (fin_late fd) (trace w)"

text \<open>Where the client can stop: at most a buffer of either direction is still to be delivered.\<close>

definition relays_to :: "byte list \<Rightarrow> byte list \<Rightarrow> bool" where
  "relays_to input output \<longleftrightarrow>
     take (length output) input = output \<and> length input \<le> length output + MAXLINE"

definition nb_end :: "int \<Rightarrow> world \<Rightarrow> bool" where
  "nb_end fd w \<longleftrightarrow> relays_to (received STDIN (trace w)) (sent fd (trace w)) \<and>
     relays_to (received fd (trace w)) (sent STDOUT (trace w)) \<and> at_each (fin_late fd) (trace w)"

definition nb_quiet :: "event \<Rightarrow> bool" where
  "nb_quiet ev \<longleftrightarrow> (\<forall>fd. ev_received fd ev = [] \<and> ev_sent fd ev = []) \<and> (\<forall>fd pre. fin_late fd pre ev)"

lemma carries_relays: "nb.carries b input output \<Longrightarrow> relays_to input output"
  by (auto simp: nb.carries_def relays_to_def buf_ok_def buf_pending_def)

lemma nb_state_end: "nb_state fd s w \<Longrightarrow> nb_end fd w"
  using carries_relays by (auto simp: nb_state_def nb_end_def)

lemma nb_state_eof: "nb_state fd s w \<Longrightarrow> n_eof s \<Longrightarrow> saw_eof STDIN w"
  by (simp add: nb_state_def)

lemma nb_quiet_simps [simp]:
  "is_log ev \<Longrightarrow> nb_quiet ev" "nb_quiet (Did C_gettimeofday r)" "nb_quiet (Did (C_lib f xs bs) r)"
  "nb_quiet (Did (C_select rd wr ex tmo) r)" "nb_quiet (Did (C_fcntl fd cmd arg) r)"
  by (cases ev) (simp_all add: nb_quiet_def)

lemma nb_state_quiet:
  assumes "nb_state fd s w" and v: "trace v = trace w @ tr" and tr: "\<forall>ev\<in>set tr. nb_quiet ev"
  shows "nb_state fd s v"
proof -
  from tr have "received d tr = [] \<and> sent d tr = []" for d
    by (induction tr) (auto simp: nb_quiet_def)
  moreover from tr have "at_each (fin_late fd) (trace w) \<Longrightarrow> at_each (fin_late fd) (trace v)"
    unfolding v by (auto simp: nb_quiet_def intro: at_each_append)
  ultimately show ?thesis
    using assms(1) by (auto simp: nb_state_def v saw_eof_def)
qed

lemma nb_end_quiet:
  assumes "nb_state fd s w" and "trace v = trace w @ tr" and "\<forall>ev\<in>set tr. nb_quiet ev"
  shows "nb_end fd v"
  using nb_state_end [OF nb_state_quiet [OF assms]] .

text \<open>Reading and writing, in either direction: the buffer follows what the trace moves.\<close>

lemma nb_state_stdin:
  assumes "nb_state fd s w" and "fd \<noteq> STDIN" and "fd \<noteq> STDOUT"
  shows "nb_state fd (s\<lparr>n_to := buf_fill (got (buf_room (n_to s)) r) (n_to s)\<rparr>)
    (took (C_read STDIN (buf_room (n_to s))) r w)"
  using assms by (auto simp: nb_state_def saw_eof_def nb.carries_fill)

lemma nb_state_socket:
  assumes "nb_state fd s w" and "fd \<noteq> STDIN" and "fd \<noteq> STDOUT"
  shows "nb_state fd (s\<lparr>n_fr := buf_fill (got (buf_room (n_fr s)) r) (n_fr s)\<rparr>)
    (took (C_read fd (buf_room (n_fr s))) r w)"
  using assms by (auto simp: nb_state_def saw_eof_def nb.carries_fill)

lemma nb_state_stdout:
  assumes "nb_state fd s w" and "fd \<noteq> STDIN" and "fd \<noteq> STDOUT" and "put_len (buf_pending (n_fr s)) r = n"
    and "0 \<le> n"
  shows "nb_state fd (s\<lparr>n_fr := buf_drain (nat n) (n_fr s)\<rparr>)
    (took (C_write STDOUT (buf_pending (n_fr s))) r w)"
  using assms put_len_bounds(2) [of "buf_pending (n_fr s)" r]
  by (auto simp: nb_state_def saw_eof_def intro!: nb.carries_drain)

lemma nb_state_sendout:
  assumes "nb_state fd s w" and "fd \<noteq> STDIN" and "fd \<noteq> STDOUT" and "put_len (buf_pending (n_to s)) r = n"
    and "0 \<le> n"
  shows "nb_state fd (s\<lparr>n_to := buf_drain (nat n) (n_to s)\<rparr>)
    (took (C_write fd (buf_pending (n_to s))) r w)"
  using assms put_len_bounds(2) [of "buf_pending (n_to s)" r]
  by (auto simp: nb_state_def saw_eof_def intro!: nb.carries_drain)


lemma report_wp:
  assumes st: "nb_state fd s w" and Q: "\<And>v. nb_state fd s v \<Longrightarrow> Q () v"
    and E: "\<And>e v. nb_end fd v \<Longrightarrow> E e v"
  shows "wp (report fmt) Q E w"
proof -
  note step = nb_state_quiet [OF st] and stop = nb_end_quiet [OF st]
  show ?thesis
    unfolding report_def gf_time_def err_doit_apply
    by (intro wp_intros Q E; (rule step stop, simp, simp))
qed

lemma err_wp:
  assumes "nb_state fd s w" and "\<And>e v. nb_end fd v \<Longrightarrow> E e v"
  shows "wp (err_sys fmt) Q E w" "wp (err_quit fmt) Q E w"
  by (intro wp_intros assms(2), rule nb_end_quiet [OF assms(1)], simp, simp)+

lemma fin_wp:
  assumes st: "nb_state fd s w" and fin: "received STDIN (trace w) = sent fd (trace w)" "saw_eof STDIN w"
    and Q: "\<And>v. nb_state fd s v \<Longrightarrow> Q () v" and E: "\<And>e v. nb_end fd v \<Longrightarrow> E e v"
  shows "wp (Shutdown fd SHUT_WR) Q E w"
proof -
  have after: "nb_state fd s v" if "trace v = trace w @ [Did (C_shutdown fd SHUT_WR) r]" for v :: world and r
    using st fin that by (auto simp: nb_state_def saw_eof_def)
  show ?thesis
  proof (intro wp_intros Q E)
    show "nb_end fd w" using nb_state_end [OF st] .
    show "nb_state fd s (took (C_shutdown fd SHUT_WR) r w)" for r
      by (rule after) simp
    fix r ev err assume "is_log ev"
    then show "nb_end fd (took (C_shutdown fd SHUT_WR) r w
        \<lparr>trace := trace w @ [Did (C_shutdown fd SHUT_WR) r, ev], errno_v := err\<rparr>)"
      by (intro nb_end_quiet [OF after [of "took (C_shutdown fd SHUT_WR) r w" r], of _ "[ev]"]) simp_all
  qed
qed


lemma nb_stdin_wp:
  assumes st: "nb_state fd s w" and fds: "fd \<noteq> STDIN" "fd \<noteq> STDOUT"
  shows "wp (nb_stdin fd rset (s, wset)) (\<lambda>(s, _) v. nb_state fd s v) (\<lambda>_. nb_end fd) w"
proof -
  let ?v = "\<lambda>r. took (C_read STDIN (buf_room (n_to s))) r w"
  note read = nb_state_stdin [OF st fds]
  have same: "nb_state fd s (?v r)" if "got (buf_room (n_to s)) r = []" for r
    using read [of r] st that by (simp add: nb_state_def nb.carries_def buf_fill_Nil)
  have eof: "saw_eof STDIN (?v r)" if "got_len (buf_room (n_to s)) r = 0" for r
    using that by (simp add: saw_eof_def)
  have eof_wp: "wp (report msg) (\<lambda>_. wp (seq (only_if (b_out (n_to s) = b_in (n_to s)) (Shutdown fd SHUT_WR))
      (ret (s\<lparr>n_eof := True\<rparr>, wset))) (\<lambda>(s, _) v. nb_state fd s v) (\<lambda>_. nb_end fd)) (\<lambda>_. nb_end fd) (?v r)"
    if "got_len (buf_room (n_to s)) r = 0" for r msg
  proof (intro wp_andThen wp_only_if wp_ret report_wp [of fd "s\<lparr>n_eof := True\<rparr>"] fin_wp [of fd "s\<lparr>n_eof := True\<rparr>"])
    show st': "nb_state fd (s\<lparr>n_eof := True\<rparr>) (?v r)"
      using same [of r] eof [OF that] got_len_zero [of "buf_room (n_to s)" r] that by (simp add: nb_state_def)
    fix u :: world
    assume u: "nb_state fd (s\<lparr>n_eof := True\<rparr>) u"
    then show "saw_eof STDIN u" by (simp add: nb_state_def)
    show "received STDIN (trace u) = sent fd (trace u)" if "b_out (n_to s) = b_in (n_to s)"
      using u that nb.carries_empty [of "n_to s"] by (simp add: nb_state_def buf_pending_def)
  qed simp_all
  show ?thesis
    unfolding nb_stdin_def sys_read_def prod.case
    by (intro wp_andThen wp_cases(1,3) wp_sys wp_ret wp_errno(1))
      (use st in \<open>auto intro!: err_wp [OF same] same eof_wp nb_state_end intro: report_wp [OF read] wp_ret
        dest: got_len_zero simp: got_len_zero simp flip: got_len_neg_iff\<close>)
qed

lemma nb_socket_wp:
  assumes st: "nb_state fd s w" and fds: "fd \<noteq> STDIN" "fd \<noteq> STDOUT"
  shows "wp (nb_socket fd rset (s, wset))
    (\<lambda>z v. case z of None \<Rightarrow> nb_end fd v \<and> saw_eof STDIN v | Some (s, _) \<Rightarrow> nb_state fd s v) (\<lambda>_. nb_end fd) w"
    (is "wp _ ?Q ?E _")
proof -
  let ?v = "\<lambda>r. took (C_read fd (buf_room (n_fr s))) r w"
  note read = nb_state_socket [OF st fds]
  have same: "nb_state fd s (?v r)" if "got (buf_room (n_fr s)) r = []" for r
    using read [of r] st that by (simp add: nb_state_def nb.carries_def buf_fill_Nil)
  have eof: "wp (report msg) (\<lambda>_. wp m ?Q ?E) ?E (?v r)"
    if "got (buf_room (n_fr s)) r = []" and "\<And>u. nb_state fd s u \<Longrightarrow> wp m ?Q ?E u" for r msg m
    by (rule report_wp [OF same [OF that(1)]]) (rule that(2))
  have more: "wp (report msg) (\<lambda>_. wp (ret (Some (s\<lparr>n_fr := buf_fill (got (buf_room (n_fr s)) r) (n_fr s)\<rparr>, wset'))) ?Q ?E)
      ?E (?v r)" for r msg wset'
    by (rule report_wp [OF read]) (simp_all add: wp_ret)
  show ?thesis
    unfolding nb_socket_def sys_read_def prod.case
    by (intro wp_andThen wp_cases(1,3) wp_sys wp_ret wp_errno(1))
      (use st in \<open>auto intro!: err_wp [OF same] same eof more wp_ret nb_state_end
        intro: nb_state_eof err_wp(2) simp: got_len_zero simp flip: got_len_neg_iff\<close>)
qed

lemma nb_stdout_wp:
  assumes st: "nb_state fd s w" and fds: "fd \<noteq> STDIN" "fd \<noteq> STDOUT"
  shows "wp (nb_stdout wset s) (nb_state fd) (\<lambda>_. nb_end fd) w"
proof -
  let ?v = "\<lambda>r. took (C_write STDOUT (buf_pending (n_fr s))) r w"
  note write' = nb_state_stdout [OF st fds refl]
  have same: "nb_state fd s (?v r)" if "put_len (buf_pending (n_fr s)) r < 0" for r
    using st that fds by (auto simp: nb_state_def saw_eof_def simp del: put_len_neg_iff)
  show ?thesis
    unfolding nb_stdout_def sys_write_def
    by (intro wp_andThen wp_cases(1) wp_sys wp_ret wp_errno(1))
      (use st in \<open>auto intro!: err_wp [OF same] same nb_state_end report_wp [OF write'] wp_ret
        simp: put_len_neg_iff simp del: put_len_neg_iff\<close>)
qed

lemma nb_sendout_wp:
  assumes st: "nb_state fd s w" and fds: "fd \<noteq> STDIN" "fd \<noteq> STDOUT"
  shows "wp (nb_sendout fd wset s) (nb_state fd) (\<lambda>_. nb_end fd) w"
proof -
  let ?v = "\<lambda>r. took (C_write fd (buf_pending (n_to s))) r w"
  note write' = nb_state_sendout [OF st fds refl]
  have same: "nb_state fd s (?v r)" if "put_len (buf_pending (n_to s)) r < 0" for r
    using st that fds by (auto simp: nb_state_def saw_eof_def simp del: put_len_neg_iff)
  have fin: "wp (seq (only_if (b_out (n_to s) + nat n = b_in (n_to s) \<and> n_eof s) (Shutdown fd SHUT_WR))
      (ret (s\<lparr>n_to := buf_drain (nat n) (n_to s)\<rparr>))) (nb_state fd) (\<lambda>_. nb_end fd) u"
    if u: "nb_state fd (s\<lparr>n_to := buf_drain (nat n) (n_to s)\<rparr>) u" for n u
  proof (intro wp_andThen wp_only_if wp_ret fin_wp [OF u])
    show "received STDIN (trace u) = sent fd (trace u)" "saw_eof STDIN u"
      if "b_out (n_to s) + nat n = b_in (n_to s) \<and> n_eof s"
      using u that nb.carries_empty [of "buf_drain (nat n) (n_to s)"]
      by (simp_all add: nb_state_def buf_pending_def buf_drain_def)
  qed (use u in simp_all)
  show ?thesis
    unfolding nb_sendout_def sys_write_def
    by (intro wp_andThen wp_cases(1) wp_sys wp_ret wp_errno(1))
      (use st in \<open>auto intro!: err_wp [OF same] same nb_state_end report_wp [OF write'] fin
        simp: put_len_neg_iff simp del: put_len_neg_iff\<close>)
qed

lemma nb_round_wp:
  assumes st: "nb_state fd s w" and fds: "fd \<noteq> STDIN" "fd \<noteq> STDOUT"
  shows "wp (nb_round fd s) (\<lambda>z v. case z of Inl s \<Rightarrow> nb_state fd s v | Inr _ \<Rightarrow> nb_end fd v \<and> saw_eof STDIN v)
    (\<lambda>_. nb_end fd) w"
    (is "wp _ ?Q ?E _")
proof -
  have writes: "wp (andThen (nb_stdout wset s) (\<lambda>s. andThen (nb_sendout fd wset s) (\<lambda>s. again s))) ?Q ?E v"
    if "nb_state fd s v" for s v wset
    by (intro wp_andThen wp_mono [OF nb_stdout_wp [OF that fds]] wp_mono [OF nb_sendout_wp [OF _ fds]] wp_ret) simp_all
  have socket: "wp (andThen (nb_socket fd rset (s, wset)) (\<lambda>z. case z of None \<Rightarrow> leave ()
      | Some (s, wset) \<Rightarrow> andThen (nb_stdout wset s) (\<lambda>s. andThen (nb_sendout fd wset s) (\<lambda>s. again s)))) ?Q ?E v"
    if "nb_state fd s v" for s v wset rset
    by (intro wp_andThen wp_mono [OF nb_socket_wp [OF that fds]])
      (auto intro!: wp_ret writes split: option.splits)
  have all: "wp (andThen (nb_stdin fd rset (s, wset)) (\<lambda>(s, wset).
      andThen (nb_socket fd rset (s, wset)) (\<lambda>z. case z of None \<Rightarrow> leave ()
        | Some (s, wset) \<Rightarrow> andThen (nb_stdout wset s) (\<lambda>s. andThen (nb_sendout fd wset s) (\<lambda>s. again s)))))
      ?Q ?E v" if "nb_state fd s v" for v rset wset
    by (intro wp_andThen wp_mono [OF nb_stdin_wp [OF that fds]]) (auto intro!: socket)
  show ?thesis
    unfolding nb_round_def
  proof (rule wp_andThen, rule select_w.wp_call)
    show "nb_end fd w" by (rule nb_state_end [OF st])
    fix r
    let ?v = "took (C_select (nb_rset fd s) (nb_wset fd s) {} None) r w"
    have v: "nb_state fd s ?v"
      by (rule nb_state_quiet [OF st, of _ "[Did (C_select (nb_rset fd s) (nb_wset fd s) {} None) r]"]) simp_all
    show "nb_end fd (?v\<lparr>trace := trace w @ [Did (C_select (nb_rset fd s) (nb_wset fd s) {} None) r, ev], errno_v := err\<rparr>)"
      if "is_log ev" for ev err
      by (rule nb_end_quiet [OF v, of _ "[ev]"]) (use that in simp_all)
    show "wp (case (ready_count (nb_rset fd s) (nb_wset fd s) r, nb_rset fd s \<inter> r_rd r, nb_wset fd s \<inter> r_wr r) of
        (_, rset, wset) \<Rightarrow> andThen (nb_stdin fd rset (s, wset)) (\<lambda>(s, wset).
          andThen (nb_socket fd rset (s, wset)) (\<lambda>z. case z of None \<Rightarrow> leave ()
            | Some (s, wset) \<Rightarrow> andThen (nb_stdout wset s) (\<lambda>s. andThen (nb_sendout fd wset s) (\<lambda>s. again s)))))
        ?Q ?E ?v"
      using all [OF v] by simp
  qed
qed

lemma str_cli_nonblock_wp:
  assumes "trace w = []" and "length to = MAXLINE" and "length fr = MAXLINE"
    and fds: "fd \<noteq> STDIN" "fd \<noteq> STDOUT"
  shows "wp (str_cli_nonblock fd to fr) (\<lambda>_ v. nb_end fd v \<and> saw_eof STDIN v) (\<lambda>_. nb_end fd) w"
proof -
  let ?s = "\<lparr>n_eof = False, n_to = buf_start to, n_fr = buf_start fr\<rparr>"
  have st: "nb_state fd ?s w"
    using assms by (simp add: nb_state_def nb.carries_def buf_ok_def buf_start_def buf_pending_def)
  have loop: "wp (loop (nb_round fd) ?s) (\<lambda>_ v. nb_end fd v \<and> saw_eof STDIN v) (\<lambda>_. nb_end fd) v"
    if "nb_state fd ?s v" for v
    by (rule nb_loop.loop_wp [OF that nb_round_wp [OF _ fds]])
  show ?thesis
    unfolding str_cli_nonblock_def set_nonblock_def
    by (intro wp_intros loop nb_end_quiet [OF st] nb_state_quiet [OF st]) auto
qed

section \<open>Runs\<close>

text \<open>A run in which the standard output is full when the reply comes, and the server closes next.\<close>

definition nb_lossy :: "resp list" where
  "nb_lossy = [ok 0, ok 0, ok 0, ok 0, ok 0, ok 0,
     no_resp\<lparr>r_rd := {0, 3}\<rparr>, gives [], no_resp, no_resp, ok 0,
     gives [72, 105], no_resp, no_resp, fails EWOULDBLOCK,
     no_resp\<lparr>r_rd := {3}\<rparr>, gives [], no_resp, no_resp]"

lemma two_MAXLINE [simp]: "min (Suc (Suc 0)) MAXLINE = Suc (Suc 0)" "Suc (Suc 0) < MAXLINE" "0 < MAXLINE"
  "min (Suc (Suc (Suc 0))) MAXLINE = Suc (Suc (Suc 0))" "Suc (Suc (Suc 0)) < MAXLINE" "Suc (Suc 0) \<le> MAXLINE"
  "Suc (Suc (Suc 0)) \<le> MAXLINE"
  by (simp_all add: MAXLINE_def)

lemma nb_round_apply: "nb_round fd s w =
  andThen (Select (nb_rset fd s) (nb_wset fd s) {} None) (\<lambda>(_, rset, wset).
     andThen (nb_stdin fd rset (s, wset)) (\<lambda>(s, wset).
     andThen (nb_socket fd rset (s, wset)) (\<lambda>z. case z of
         None \<Rightarrow> leave ()
       | Some (s, wset) \<Rightarrow>
           andThen (nb_stdout wset s) (\<lambda>s. andThen (nb_sendout fd wset s) (\<lambda>s. again s))))) w"
  by (simp add: nb_round_def)

text \<open>A run in which \<open>write\<close> takes one byte of three and the input ends with two still to be sent:
  the FIN waits for them.\<close>

definition nb_example :: "resp list" where
  "nb_example = [ok 0, ok 0, ok 0, ok 0, ok 0, ok 0,
     no_resp\<lparr>r_rd := {0}\<rparr>, gives [72, 105, 10], no_resp, no_resp, ok 1, no_resp, no_resp,
     no_resp\<lparr>r_rd := {0}, r_wr := {3}\<rparr>, gives [], no_resp, no_resp, ok 2, no_resp, no_resp, ok 0,
     no_resp\<lparr>r_rd := {3}\<rparr>, gives [72, 105], no_resp, no_resp, ok 2, no_resp, no_resp,
     no_resp\<lparr>r_rd := {3}\<rparr>, gives [], no_resp, no_resp]"

lemmas nb_runs = str_cli_nonblock_def set_nonblock_def nb_loop.loop_unfold nb_round_apply
  andThen_apply sys_apply nb_rset_def nb_wset_def nb_stdin_def nb_socket_def nb_stdout_def nb_sendout_def
  Fcntl_def Select_def Shutdown_def report_def gf_time_def sys_select_def sys_read_def sys_write_def
  buf_start_def buf_room_def buf_fill_def buf_drain_def buf_pending_def STDIN_def STDOUT_def got_len_def got_def
  put_len_def ready_count_def time_of_def aux_def only_if_def cstr_def

lemma nb_example_run:
  "\<exists>w'. str_cli_nonblock 3 (replicate MAXLINE 0) (replicate MAXLINE 0) (start nb_example) = (Inr (), w') \<and>
     sent 3 (trace w') = [72, 105, 10] \<and> sent STDOUT (trace w') = [72, 105]"
  by (simp add: nb_runs nb_example_def)

section \<open>What the client does\<close>

lemma nonblock_client_run:
  assumes "str_cli_nonblock fd to fr w = (res, w')" and "trace w = []"
    and "length to = MAXLINE" and "length fr = MAXLINE" and "fd \<noteq> STDIN" and "fd \<noteq> STDOUT"
  shows "relays_to (received STDIN (trace w')) (sent fd (trace w')) \<and>
    relays_to (received fd (trace w')) (sent STDOUT (trace w'))"
  using wp_returns [OF str_cli_nonblock_wp [OF assms(2-6)]]
    wp_stops [OF str_cli_nonblock_wp [OF assms(2-6)]] assms(1)
  by (cases res) (auto simp: nb_end_def)

text \<open>(C22) The client is a faithful pair of queues: wherever it stops, what it has sent to the server
  is the beginning of what it has read from its input, what it has printed is the beginning of what
  the server sent, and in each direction at most one buffer of bytes is still to come. No schedule
  of \<open>select\<close>, no short transfer and no \<open>EWOULDBLOCK\<close> loses, repeats or reorders a byte.\<close>

theorem nonblock_client_relays:
  assumes "str_cli_nonblock fd to fr w = (res, w')" and "trace w = []"
    and "length to = MAXLINE" and "length fr = MAXLINE" and "fd \<noteq> STDIN" and "fd \<noteq> STDOUT"
  shows "relays_to (received STDIN (trace w')) (sent fd (trace w')) \<and>
    relays_to (received fd (trace w')) (sent STDOUT (trace w'))"
  using nonblock_client_run [OF assms] .

theorem nonblock_client_relays_witness:
  "\<exists>w'. str_cli_nonblock 3 (replicate MAXLINE 0) (replicate MAXLINE 0) (start nb_example) = (Inr (), w') \<and>
     relays_to (received STDIN (trace w')) [72, 105, 10] \<and>
     relays_to (received 3 (trace w')) [72, 105]"
proof -
  obtain w' where run: "str_cli_nonblock 3 (replicate MAXLINE 0) (replicate MAXLINE 0) (start nb_example) = (Inr (), w')"
    and out: "sent 3 (trace w') = [72, 105, 10]" "sent STDOUT (trace w') = [72, 105]"
    using nb_example_run by blast
  show ?thesis
    using nonblock_client_relays [OF run] run out by (auto simp: STDIN_def STDOUT_def)
qed

text \<open>(C23) The client never closes its side of the connection early: whenever it sends the FIN, its
  input has ended and every byte of it has been sent; and it returns only after the end of its
  input.\<close>

theorem nonblock_client_fin_last:
  assumes "str_cli_nonblock fd to fr w = (res, w')" and "trace w = []"
    and "length to = MAXLINE" and "length fr = MAXLINE" and "fd \<noteq> STDIN" and "fd \<noteq> STDOUT"
  shows "at_each (fin_late fd) (trace w') \<and> (isl res \<or> saw_eof STDIN w')"
  using wp_returns [OF str_cli_nonblock_wp [OF assms(2-6)]]
    wp_stops [OF str_cli_nonblock_wp [OF assms(2-6)]] assms(1)
  by (cases res) (auto simp: nb_end_def)

theorem nonblock_client_fin_last_witness:
  "\<exists>w'. str_cli_nonblock 3 (replicate MAXLINE 0) (replicate MAXLINE 0) (start nb_example) = (Inr (), w') \<and>
     at_each (fin_late 3) (trace w') \<and> saw_eof STDIN w'"
proof -
  obtain w' where run: "str_cli_nonblock 3 (replicate MAXLINE 0) (replicate MAXLINE 0) (start nb_example) = (Inr (), w')"
    and out: "sent 3 (trace w') = [72, 105, 10]" "sent STDOUT (trace w') = [72, 105]"
    using nb_example_run by blast
  show ?thesis
    using nonblock_client_fin_last [OF run] run out by (auto simp: STDIN_def STDOUT_def)
qed

text \<open>When the server closes the connection the client returns, even if bytes of the server are
  still in its buffer because the standard output was not ready for them: the last part of the
  reply is lost, although the client ends normally.\<close>

theorem nonblock_client_loses_output:
  "\<exists>w'. str_cli_nonblock 3 (replicate MAXLINE 0) (replicate MAXLINE 0) (start nb_lossy) = (Inr (), w') \<and>
     received 3 (trace w') = [72, 105] \<and> sent STDOUT (trace w') = []"
  by (simp add: nb_runs nb_lossy_def)

end
