(* ===== verification/Sessions.thy ===== *)
theory Sessions
  imports Dg_Reliable Datagram_Echo Echo_Select Echo_Poll Nonblock_Cli "HOL-Library.Sublist"
begin

text \<open>
  What is needed to put two programs at the ends of one connection: the promises of TCP and UDP as
  predicates on the worlds of the two ends, and what \<open>dg_send_recv\<close> puts on the wire.
\<close>

section \<open>What the network promises\<close>

text \<open>TCP delivers the bytes in order, each once: what one end has received is a beginning of what the
  other has sent; and all of it, once the end of the stream has been seen.\<close>

definition tcp_stream :: "int \<Rightarrow> world \<Rightarrow> int \<Rightarrow> world \<Rightarrow> bool" where
  "tcp_stream a v b w \<longleftrightarrow> prefix (received b (trace w)) (sent a (trace v)) \<and>
     (saw_eof b w \<longrightarrow> received b (trace w) = sent a (trace v))"

definition tcp_connection :: "int \<Rightarrow> world \<Rightarrow> int \<Rightarrow> world \<Rightarrow> bool" where
  "tcp_connection a v b w \<longleftrightarrow> tcp_stream a v b w \<and> tcp_stream b w a v"

text \<open>UDP may lose, duplicate, delay and reorder datagrams, but a datagram that arrives is one that was
  sent, cut to the size of the receiver's buffer: \<open>ins\<close> are the datagrams that arrived, \<open>outs\<close> the ones
  that were sent.\<close>

definition udp_delivers :: "nat \<Rightarrow> byte list set \<Rightarrow> byte list set \<Rightarrow> bool" where
  "udp_delivers size_max ins outs \<longleftrightarrow> ins \<subseteq> take size_max ` outs"

section \<open>Streams end to end\<close>

lemma tcp_prefix:
  assumes "tcp_stream a v b w"
  shows "prefix (received b (trace w)) (sent a (trace v))"
  using assms by (simp add: tcp_stream_def)

lemma tcp_complete:
  assumes "tcp_stream a v b w" and "saw_eof b w"
  shows "received b (trace w) = sent a (trace v)"
  using assms by (simp add: tcp_stream_def)

text \<open>\<open>str_echo\<close> returns only when it has seen the end of its connection.\<close>

lemma str_echo_saw_eof:
  assumes "str_echo fd w = (Inr u, w')"
  shows "saw_eof fd w'"
proof -
  have "wp (str_echo fd) (\<lambda>_. saw_eof fd) (\<lambda>_ _. True) w"
    unfolding str_echo_def
  proof (rule str_echo_loop.loop_wp [where I = "\<lambda>_ _. True"])
    fix x and v :: world
    show "wp (str_echo_round fd x) (\<lambda>z v. case z of Inl _ \<Rightarrow> True | Inr _ \<Rightarrow> saw_eof fd v) (\<lambda>_ _. True) v"
      unfolding str_echo_round_def sys_read_def
      by (intro wp_intros) (auto simp: saw_eof_def read_eof_def got_len_def intro!: wp_Writen split: if_splits)
  qed simp
  then show ?thesis using assms by (simp add: wp_def)
qed

text \<open>The two servers that serve all their clients in one process send every client a beginning of what
  it sent.\<close>

lemma servers_echo:
  assumes "select_server_main v = (res, v') \<or> poll_server_main garbage v = (res, v')" and "trace v = []"
  shows "prefix (sent fd (trace v')) (received fd (trace v'))"
proof -
  have "echoing (trace v')"
    using assms(1)
  proof
    assume "select_server_main v = (res, v')"
    with select_server_run [OF this assms(2)] show ?thesis by blast
  next
    assume "poll_server_main garbage v = (res, v')"
    then show ?thesis
      using poll_server_wp [OF assms(2), of garbage] by (cases res) (auto simp: wp_def poll_stop_def)
  qed
  then show ?thesis by (auto simp: echoing_def prefix_def)
qed

section \<open>What dg_send_recv sends and returns\<close>

text \<open>The datagrams a program has sent and received through \<open>sendmsg\<close> and \<open>recvmsg\<close>.\<close>

definition sent_msgs :: "int \<Rightarrow> event list \<Rightarrow> byte list set" where
  "sent_msgs fd tr = {bs. \<exists>fl r. Did (C_sendmsg fd bs fl) r \<in> set tr}"

definition received_msgs :: "int \<Rightarrow> event list \<Rightarrow> byte list set" where
  "received_msgs fd tr = {bs. \<exists>n fl r. Did (C_recvmsg fd n fl) r \<in> set tr \<and> 0 \<le> r_val r \<and> bs = got n r}"

definition answered :: "int \<Rightarrow> u32 \<Rightarrow> byte list \<Rightarrow> event list \<Rightarrow> bool" where
  "answered fd sq bs tr \<longleftrightarrow> HDR \<le> length bs \<and> word_at 0 bs = sq \<and> bs \<in> received_msgs fd tr"

lemma replied_answered:
  "replied before fd n sq bs tr \<Longrightarrow> answered fd sq bs tr"
  unfolding replied_def reply_to_def answered_def received_msgs_def by fastforce

lemma dg_send_recv_wp:
  assumes "length (recvhdr s) = HDR"
  shows "wp (dg_send_recv rf rd h fd out n s)
    (\<lambda>(reply, _) v. only_request (trace w) fd (send_seq s + 1) out (trace v) \<and>
       (\<forall>data. reply = Some data \<longrightarrow> (\<exists>bs. answered fd (send_seq s + 1) bs (trace v) \<and> data = drop HDR bs)))
    (\<lambda>_ v. only_request (trace w) fd (send_seq s + 1) out (trace v)) w"
  by (rule wp_mono [OF dg_send_recv_exchange [OF assms]])
    (fastforce simp: sent_post_def cut_short_def dest: replied_answered split: option.splits)+

text \<open>A reply that the network brings back from a server that echoes is an echo of the request, as long as
  the requests sent before carry other sequence numbers.\<close>

lemma word_at_request: "word_at 0 (bytes32 sq @ rest) = sq"
  by (simp add: word_at_def)

lemma word_at_0_take: "4 \<le> k \<Longrightarrow> word_at 0 (take k bs) = word_at 0 bs"
  by (cases bs rule: addr4.cases) (auto simp: word_at_def take_Cons' numeral_eq_Suc)

definition older_requests :: "int \<Rightarrow> u32 \<Rightarrow> event list \<Rightarrow> bool" where
  "older_requests fd sq tr \<longleftrightarrow> (\<forall>bs\<in>sent_msgs fd tr. word_at 0 bs \<noteq> sq)"

lemma answer_is_echo:
  assumes "answered fd sq bs tr" and "only_request before fd sq out tr" and "older_requests fd sq before"
    and "udp_delivers MAXLINE arrived (sent_msgs fd tr)" and "udp_delivers (HDR + n) (received_msgs fd tr) arrived"
    and "HDR + length out \<le> MAXLINE" and "length out \<le> n"
  shows "drop HDR bs = out"
proof -
  from assms(1,4,5) obtain y where y: "y \<in> sent_msgs fd tr" and bs: "bs = take (HDR + n) (take MAXLINE y)"
    unfolding answered_def udp_delivers_def by blast
  from assms(1) bs have "word_at 0 y = sq"
    by (simp add: answered_def HDR_def MAXLINE_def word_at_0_take)
  with y assms(2,3) obtain ts where "y = bytes32 sq @ bytes32 ts @ out"
    by (fastforce simp: only_request_def older_requests_def sent_msgs_def)
  with bs assms(6,7) show ?thesis by (simp add: HDR_def)
qed

end
