(* ===== verification/Web_Session.thy ===== *)
theory Web_Session
  imports Web_Servers Sessions
begin

text \<open>
  The service of the servers in \<open>server/\<close>, as a function of the bytes a client has sent: \<open>web_child\<close>
  implements \<open>web_answer\<close> on the lines \<open>readline\<close> cuts the stream into, and a client's request
  travels to it and back.
\<close>

section \<open>Lines of a stream\<close>

text \<open>\<open>Readline (fd, line, MAXLINE)\<close> takes at most \<open>MAXLINE - 1\<close> bytes at a time.\<close>

definition next_line :: "byte list \<Rightarrow> byte list" where
  "next_line xs = take (MAXLINE - 1) (upto_newline xs)"

lemma next_line_Nil_iff [simp]: "next_line xs = [] \<longleftrightarrow> xs = []"
  by (cases xs) (simp_all add: next_line_def MAXLINE_def)

function lines_of :: "byte list \<Rightarrow> byte list list" where
  "lines_of xs = (if xs = [] then [] else next_line xs # lines_of (drop (length (next_line xs)) xs))"
  by pat_completeness auto

termination
  by (relation "measure length") simp_all

declare lines_of.simps [simp del]

lemma lines_of_Nil [simp]: "lines_of [] = []"
  by (simp add: lines_of.simps)

lemma upto_newline_none: "NEWLINE \<notin> set xs \<Longrightarrow> upto_newline xs = xs"
  using upto_newline_append [of xs "[]"] by simp

text \<open>A line that has ended, by its newline or by the size of the buffer, stays what it is when
  more arrives.\<close>

definition ended :: "byte list \<Rightarrow> bool" where
  "ended l \<longleftrightarrow> NEWLINE \<in> set l \<or> length l = MAXLINE - 1"

lemma next_line_append: "ended (next_line xs) \<Longrightarrow> next_line (xs @ ys) = next_line xs"
  by (cases "NEWLINE \<in> set xs")
    (auto simp: ended_def next_line_def upto_newline_append upto_newline_none dest: in_set_takeD)

lemma next_line_again: "next_line (next_line xs) = next_line xs"
proof -
  have "upto_newline (take k (upto_newline xs)) = take k (upto_newline xs)" for k
    by (induction xs arbitrary: k) (auto simp: take_Cons split: nat.split)
  then show ?thesis by (simp add: next_line_def)
qed

lemma upto_newline_some: "NEWLINE \<in> set xs \<Longrightarrow> NEWLINE \<in> set (upto_newline xs)"
  by (induction xs) auto

lemma next_line_open: "\<not> ended (next_line xs) \<Longrightarrow> next_line xs = xs"
  by (cases "NEWLINE \<in> set xs") (auto simp: ended_def next_line_def upto_newline_none dest: upto_newline_some)

definition cut :: "byte list \<Rightarrow> bool" where
  "cut xs \<longleftrightarrow> (\<forall>ys. lines_of (xs @ ys) = lines_of xs @ lines_of ys)"

lemma cut_Nil [simp]: "cut []"
  by (simp add: cut_def)

lemma lines_of_line:
  assumes "next_line l = l" and "l \<noteq> []"
  shows "lines_of l = [l]" and "ended l \<Longrightarrow> lines_of (l @ ys) = l # lines_of ys"
  using assms next_line_append [of l ys] by (simp_all add: lines_of.simps)

lemma cut_line: "cut xs \<Longrightarrow> next_line l = l \<Longrightarrow> l \<noteq> [] \<Longrightarrow> ended l \<Longrightarrow> cut (xs @ l)"
  by (simp add: cut_def lines_of_line)

section \<open>What a client is answered\<close>

text \<open>The number a line asks for; the first line that asks for none, or for too many, ends the
  service.\<close>

definition asked :: "byte list \<Rightarrow> int" where
  "asked line = sint (word_of_int (atol line) :: u32)"

definition sensible :: "byte list \<Rightarrow> bool" where
  "sensible line \<longleftrightarrow> 0 < asked line \<and> asked line \<le> int MAXLINE"

fun web_answer :: "(nat \<Rightarrow> byte) \<Rightarrow> byte list list \<Rightarrow> byte list" where
  "web_answer result [] = []"
| "web_answer result (line # lines) =
     (if sensible line then map result [0..<nat (asked line)] @ web_answer result lines else [])"

lemma web_answer_append:
  "\<forall>l\<in>set ls. sensible l \<Longrightarrow> web_answer result (ls @ ms) = web_answer result ls @ web_answer result ms"
  by (induction ls) auto

text \<open>The stream behaves: no \<open>read\<close> of it has failed, and nothing arrived after its end.\<close>

fun stream_ok :: "int \<Rightarrow> event list \<Rightarrow> bool" where
  "stream_ok fd [] \<longleftrightarrow> True"
| "stream_ok fd (ev # evs) \<longleftrightarrow> (reads_of fd ev \<longrightarrow> unfailed ev) \<and> (read_eof fd ev \<longrightarrow> received fd evs = []) \<and> stream_ok fd evs"

lemma stream_ok_append:
  "stream_ok fd (xs @ ys) \<longleftrightarrow> stream_ok fd xs \<and> stream_ok fd ys \<and> ((\<exists>ev\<in>set xs. read_eof fd ev) \<longrightarrow> received fd ys = [])"
  by (induction xs) auto

lemma stream_ok_extends: "stream_ok fd (trace v) \<Longrightarrow> extends w v \<Longrightarrow> stream_ok fd (trace w)"
  by (auto simp: extends_def stream_ok_append)

lemma stream_ok_reads: "stream_ok fd tr \<Longrightarrow> \<forall>ev\<in>set tr. reads_of fd ev \<Longrightarrow> \<forall>ev\<in>set tr. unfailed ev"
  by (induction tr) auto

section \<open>web\_child implements web\_answer\<close>

text \<open>Between two rounds: the lines taken off the stream have been answered.\<close>

definition web_state :: "int \<Rightarrow> (nat \<Rightarrow> byte) \<Rightarrow> rl \<Rightarrow> world \<Rightarrow> bool" where
  "web_state fd result s v \<longleftrightarrow> rl_inv s \<and> (\<exists>xs. received fd (trace v) = xs @ pending s \<and>
     (\<forall>l\<in>set (lines_of xs). sensible l) \<and> sent fd (trace v) = web_answer result (lines_of xs) \<and>
     (cut xs \<or> saw_eof fd v \<and> pending s = []))"

text \<open>With a line in hand.\<close>

definition web_line :: "int \<Rightarrow> (nat \<Rightarrow> byte) \<Rightarrow> byte list \<Rightarrow> rl \<Rightarrow> world \<Rightarrow> bool" where
  "web_line fd result line s v \<longleftrightarrow> rl_inv s \<and> (\<exists>xs. received fd (trace v) = xs @ line @ pending s \<and>
     (\<forall>l\<in>set (lines_of xs). sensible l) \<and> sent fd (trace v) = web_answer result (lines_of xs) \<and>
     lines_of (xs @ line) = lines_of xs @ [line] \<and> (cut (xs @ line) \<or> saw_eof fd v \<and> pending s = []))"

definition web_done :: "int \<Rightarrow> (nat \<Rightarrow> byte) \<Rightarrow> world \<Rightarrow> bool" where
  "web_done fd result v \<longleftrightarrow> sent fd (trace v) = web_answer result (lines_of (received fd (trace v)))"

definition web_part :: "int \<Rightarrow> (nat \<Rightarrow> byte) \<Rightarrow> world \<Rightarrow> bool" where
  "web_part fd result v \<longleftrightarrow> prefix (sent fd (trace v)) (web_answer result (lines_of (received fd (trace v))))"

text \<open>What \<open>Readline\<close> does to the state.\<close>

lemma web_state_readline:
  assumes st: "web_state fd result s w" and v: "trace v = trace w @ tr" and tr: "\<forall>ev\<in>set tr. reads_of fd ev"
    and ok: "stream_ok fd (trace v)" and post: "line_post fd (MAXLINE - 1) s tr n line s'"
  shows "if n = 0 then web_done fd result v else web_line fd result line s' v"
proof -
  obtain xs where xs: "received fd (trace w) = xs @ pending s" "\<forall>l\<in>set (lines_of xs). sensible l"
    "sent fd (trace w) = web_answer result (lines_of xs)" "cut xs \<or> saw_eof fd w \<and> pending s = []"
    using st by (auto simp: web_state_def)
  have all: "pending s @ received fd tr = line @ pending s'" and line: "line = next_line (pending s @ received fd tr)"
    and inv: "rl_inv s'" and n: "n = int (length line) + (if length line = MAXLINE - 1 \<and> NEWLINE \<notin> set line then 1 else 0)"
    and eof: "length line < MAXLINE - 1 \<and> NEWLINE \<notin> set line \<longrightarrow> tr \<noteq> [] \<and> read_eof fd (last tr)"
    using post unfolding line_post_def next_line_def by blast+
  from n have n0: "n = 0 \<longleftrightarrow> line = []" by (auto simp: MAXLINE_def)
  have recv: "received fd (trace v) = xs @ line @ pending s'" and sent: "sent fd (trace v) = web_answer result (lines_of xs)"
    using xs v all tr by simp_all
  show ?thesis
  proof (cases "line = []")
    case True
    with line have "pending s @ received fd tr = []"
      by (metis next_line_Nil_iff)
    with all recv have "received fd (trace v) = xs" by simp
    then show ?thesis
      using True n0 sent by (simp add: web_done_def)
  next
    case False
    have "\<not> (saw_eof fd w \<and> pending s = [])"
    proof
      assume "saw_eof fd w \<and> pending s = []"
      then have "pending s @ received fd tr = []"
        using ok by (auto simp: v stream_ok_append saw_eof_def)
      then show False using False line by simp
    qed
    then have "cut xs" using xs by blast
    have self: "next_line line = line"
      unfolding line by (rule next_line_again)
    have "cut (xs @ line) \<or> saw_eof fd v \<and> pending s' = []"
    proof (cases "ended line")
      case True
      then show ?thesis using cut_line [OF \<open>cut xs\<close> self False] by blast
    next
      case short: False
      then have "line = line @ pending s'"
        using line next_line_open all by metis
      moreover have "length line < MAXLINE - 1"
        using short unfolding line ended_def next_line_def by auto
      with short eof have "tr \<noteq> [] \<and> read_eof fd (last tr)" by (simp add: ended_def)
      ultimately have "tr \<noteq> [] \<and> read_eof fd (last tr)" "pending s' = []" by simp_all
      then show ?thesis by (auto simp: saw_eof_def v)
    qed
    moreover have "lines_of (xs @ line) = lines_of xs @ [line]"
      using \<open>cut xs\<close> lines_of_line [OF self False] by (simp add: cut_def)
    ultimately show ?thesis
      using False n0 inv recv sent xs(2) by (auto simp: web_line_def)
  qed
qed

lemma wp_Readline:
  assumes "\<And>v tr n line s'. trace v = trace w @ tr \<Longrightarrow> \<forall>ev\<in>set tr. reads_of fd ev \<Longrightarrow>
      (rl_inv s \<Longrightarrow> stream_ok fd tr \<Longrightarrow> line_post fd (MAXLINE - 1) s tr n line s') \<Longrightarrow> Q (n, line, s') v"
    and "\<And>e v tr. trace v = trace w @ tr \<Longrightarrow> \<forall>ev\<in>set tr. reads_of fd ev \<Longrightarrow> E e v"
  shows "wp (Readline fd MAXLINE s) Q E w"
  unfolding Readline_never_reports
proof (rule wpI)
  fix z v
  assume "readline fd MAXLINE s w = (Inr z, v)"
  then have "readline_from fd (MAXLINE - 1) [] s w = (Inr z, v)" by (simp add: readline_def MAXLINE_def)
  from readline_from_correct [OF this] obtain tr where tr: "trace v = trace w @ tr" "\<forall>ev\<in>set tr. reads_of fd ev"
    "line_res fd (MAXLINE - 1) [] s tr (Inr z)" by blast
  obtain n line s' where z: "z = (n, line, s')" by (cases z)
  from tr stream_ok_reads [of fd tr] show "Q z v"
    unfolding z by (intro assms(1) [of v tr]) (auto simp: line_res_def)
next
  fix e v
  assume "readline fd MAXLINE s w = (Inl e, v)"
  then have "readline_from fd (MAXLINE - 1) [] s w = (Inl e, v)" by (simp add: readline_def MAXLINE_def)
  from readline_from_correct [OF this] show "E e v"
    using assms(2) by blast
qed

lemma web_lineE:
  assumes "web_line fd result line s v"
  obtains xs where "lines_of (received fd (trace v)) = lines_of xs @ line # lines_of (pending s)"
    "\<forall>l\<in>set (lines_of xs). sensible l" "sent fd (trace v) = web_answer result (lines_of xs)"
proof -
  from assms obtain xs where xs: "received fd (trace v) = (xs @ line) @ pending s" "\<forall>l\<in>set (lines_of xs). sensible l"
    "sent fd (trace v) = web_answer result (lines_of xs)" "lines_of (xs @ line) = lines_of xs @ [line]"
    "cut (xs @ line) \<or> pending s = []"
    by (auto simp: web_line_def)
  moreover from xs(4,5) have "lines_of ((xs @ line) @ pending s) = lines_of xs @ line # lines_of (pending s)"
    unfolding cut_def by (auto simp del: append_assoc)
  ultimately show thesis using that by simp
qed

lemma web_line_part: "web_line fd result line s v \<Longrightarrow> web_part fd result v"
  by (erule web_lineE) (simp add: web_part_def web_answer_append)

lemma web_state_part: "web_state fd result s v \<Longrightarrow> trace u = trace v @ tr \<Longrightarrow> \<forall>ev\<in>set tr. reads_of fd ev \<Longrightarrow>
    stream_ok fd (trace u) \<Longrightarrow> web_part fd result u"
  by (auto simp: web_state_def web_part_def cut_def web_answer_append stream_ok_append saw_eof_def)

text \<open>The reply to a line, and as much of it as \<open>writen\<close> got through.\<close>

lemma web_line_answer:
  assumes "web_line fd result line s v" and "sensible line"
    and "received fd (trace u) = received fd (trace v)" and "extends v u"
    and "sent fd (trace u) = sent fd (trace v) @ map result [0..<nat (asked line)]"
  shows "web_state fd result s u"
  using assms(1) unfolding web_line_def
proof (elim conjE exE)
  fix xs
  assume "received fd (trace v) = xs @ line @ pending s" "lines_of (xs @ line) = lines_of xs @ [line]"
    "\<forall>l\<in>set (lines_of xs). sensible l" "sent fd (trace v) = web_answer result (lines_of xs)"
    "cut (xs @ line) \<or> saw_eof fd v \<and> pending s = []" "rl_inv s"
  with assms(2-5) show ?thesis
    unfolding web_state_def
    by (intro conjI exI [of _ "xs @ line"]) (auto simp: web_answer_append intro: saw_eof_extends)
qed

lemma web_line_stopped:
  assumes "web_line fd result line s v" and "sensible line"
    and "received fd (trace u) = received fd (trace v)"
    and "sent fd (trace u) = sent fd (trace v) @ take k (map result [0..<nat (asked line)])"
  shows "web_part fd result u"
  using assms(1)
proof (rule web_lineE)
  fix xs
  assume "lines_of (received fd (trace v)) = lines_of xs @ line # lines_of (pending s)"
    "\<forall>l\<in>set (lines_of xs). sensible l" "sent fd (trace v) = web_answer result (lines_of xs)"
  with assms(2-4) show ?thesis
    by (simp add: web_part_def web_answer_append prefix_append take_is_prefix)
qed

lemma web_child_round_wp:
  assumes "stream_ok fd (trace w) \<longrightarrow> web_state fd result s w"
  shows "wp (web_child_round fd result s)
    (\<lambda>z v. stream_ok fd (trace v) \<longrightarrow> (case z of Inl s' \<Rightarrow> web_state fd result s' v | Inr _ \<Rightarrow> web_done fd result v))
    (\<lambda>_ v. stream_ok fd (trace v) \<longrightarrow> web_part fd result v) w"
  unfolding web_child_round_def
proof (intro wp_andThen wp_Readline)
  fix e tr and v :: world
  assume v: "trace v = trace w @ tr" and tr: "\<forall>ev\<in>set tr. reads_of fd ev"
  then show "stream_ok fd (trace v) \<longrightarrow> web_part fd result v"
    using assms web_state_part [OF _ v tr] by (auto simp: stream_ok_append)
next
  fix v :: world and tr n line s'
  assume v: "trace v = trace w @ tr" and tr: "\<forall>ev\<in>set tr. reads_of fd ev"
    and post: "rl_inv s \<Longrightarrow> stream_ok fd tr \<Longrightarrow> line_post fd (MAXLINE - 1) s tr n line s'"
  have line: "if n = 0 then web_done fd result v else web_line fd result line s' v" if "stream_ok fd (trace v)"
    using that assms post web_state_readline [OF _ v tr that]
    by (auto simp: v stream_ok_append web_state_def)
  have line_done: "web_done fd result v" if "stream_ok fd (trace v)" "n = 0"
    using line [OF that(1)] that(2) by simp
  have line_refused: "web_part fd result v" if "stream_ok fd (trace v)" "n \<noteq> 0"
    using line [OF that(1)] that(2) web_line_part by simp
  have line_logged: "web_part fd result u"
    if "stream_ok fd (trace u)" "trace u = trace v @ [ev]" "n \<noteq> 0" "is_log ev" for ev and u :: world
    using line that web_line_part [of fd result line s' v] by (auto simp: stream_ok_append web_part_def)
  have line_answer: "web_state fd result s' u"
    if "stream_ok fd (trace u)" "extends v u" "n \<noteq> 0" "sensible line"
      "\<forall>f. received f (trace u) = received f (trace v)"
      "\<forall>f. sent f (trace u) = sent f (trace v) @ (if f = fd then map result [0..<nat (asked line)] else [])" for u :: world
    using line [OF stream_ok_extends [OF that(1,2)]] that by (auto intro: web_line_answer)
  have line_stopped: "web_part fd result u"
    if "stream_ok fd (trace u)" "extends v u" "n \<noteq> 0" "sensible line"
      "\<forall>f. received f (trace u) = received f (trace v)"
      "\<forall>f. sent f (trace u) = sent f (trace v) @ (if f = fd then take k (map result [0..<nat (asked line)]) else [])" for k and u :: world
    using line [OF stream_ok_extends [OF that(1,2)]] that by (auto intro: web_line_stopped [where k = k])
  show "wp (case (n, line, s') of (nread, line, s) \<Rightarrow>
      if nread = 0 then leave s
      else let ntowrite = sint (word_of_int (atol line) :: u32)
        in if ntowrite \<le> 0 \<or> MAXN < ntowrite then err_quit ''client request for %d bytes''
           else if int MAXLINE < ntowrite then halt (Undef ''Writen: result'')
           else seq (Writen fd (map result [0..<nat ntowrite])) (again s))
    (\<lambda>z v. stream_ok fd (trace v) \<longrightarrow> (case z of Inl s' \<Rightarrow> web_state fd result s' v | Inr _ \<Rightarrow> web_done fd result v))
    (\<lambda>_ v. stream_ok fd (trace v) \<longrightarrow> web_part fd result v) v"
    unfolding prod.case Let_def asked_def [symmetric]
    by (auto intro!: wp_intros Writen_wp line_done line_refused line_answer
        intro: line_logged line_stopped simp: sensible_def MAXN_def MAXLINE_def SIZE_MAX_def)
qed

lemma web_child_wp:
  assumes "received fd (trace w) = []" and "sent fd (trace w) = []"
  shows "wp (web_child fd result rl_start) (\<lambda>_ v. stream_ok fd (trace v) \<longrightarrow> web_done fd result v)
    (\<lambda>_ v. stream_ok fd (trace v) \<longrightarrow> web_part fd result v) w"
  unfolding web_child_def
proof (rule web_child_loop.loop_wp [where I = "\<lambda>s v. stream_ok fd (trace v) \<longrightarrow> web_state fd result s v"])
  show "stream_ok fd (trace w) \<longrightarrow> web_state fd result rl_start w"
    using assms by (auto simp: web_state_def intro!: exI [of _ "[]"])
  fix s v
  assume "stream_ok fd (trace v) \<longrightarrow> web_state fd result s v"
  from web_child_round_wp [OF this]
  show "wp (web_child_round fd result s) (\<lambda>z v. case z of Inl y \<Rightarrow> stream_ok fd (trace v) \<longrightarrow> web_state fd result y v
      | Inr a \<Rightarrow> stream_ok fd (trace v) \<longrightarrow> web_done fd result v)
    (\<lambda>_ v. stream_ok fd (trace v) \<longrightarrow> web_part fd result v) v"
    by (rule wp_mono) (auto split: sum.splits)
qed

lemma web_child_run:
  assumes "web_child fd result rl_start w = (res, w')" and "received fd (trace w) = []" "sent fd (trace w) = []"
    and "stream_ok fd (trace w')"
  shows "if isl res then web_part fd result w' else web_done fd result w'"
  using web_child_wp [OF assms(2,3), of result] assms(1,4) by (cases res) (auto simp: wp_def)

text \<open>(C11) The service of the servers in \<open>server/\<close> is a function of the bytes the client has sent: what
  \<open>web_child\<close> has written is a beginning of the answer to the lines of the stream, each cut off at its
  newline or after \<open>MAXLINE - 1\<close> bytes and answered by as many bytes as it asks for, up to the first
  that asks for no sensible number; and it is all of it when \<open>web_child\<close> returns. How the stream was
  cut into segments and where \<open>write\<close> was interrupted does not matter.\<close>

theorem web_child_answers:
  assumes "web_child fd result rl_start w = (res, w')" and "received fd (trace w) = []" "sent fd (trace w) = []"
    and "stream_ok fd (trace w')"
  shows "prefix (sent fd (trace w')) (web_answer result (lines_of (received fd (trace w')))) \<and>
    (\<forall>s. res = Inr s \<longrightarrow> sent fd (trace w') = web_answer result (lines_of (received fd (trace w'))))"
  using web_child_run [OF assms] by (auto simp: web_part_def web_done_def split: if_splits)

text \<open>A client asks for three bytes and closes the connection.\<close>

definition web_example :: "resp list" where
  "web_example = [gives [51, 10], ok 3, gives []]"

lemma web_child_example:
  "\<exists>s w'. web_child 4 (\<lambda>_. 0) rl_start (start web_example) = (Inr s, w') \<and> received 4 (trace w') = [51, 10] \<and>
     sent 4 (trace w') = [0, 0, 0] \<and> stream_ok 4 (trace w') \<and> saw_eof 4 w'"
proof -
  define pad :: "byte list" where "pad = replicate 4094 0"
  let ?s = "\<lambda>c p. \<lparr>read_cnt = c, read_ptr = p, read_buf = [51, 10] @ pad\<rparr>"
  let ?w = "took (C_read 4 MAXLINE) (gives [51, 10]) (start web_example)"
  define s1 s2 where "s1 = ?s 1 1" and "s2 = ?s 0 2"
  have got: "got MAXLINE (gives [51, 10]) = [51, 10]" "got MAXLINE (gives []) = []"
    by (simp_all add: got_def resp_defs MAXLINE_def)
  then have "refill rl_start (gives [51, 10]) = ?s 2 0"
    by (simp add: refill_def rl_start_def got_len_def MAXLINE_def resp_defs pad_def)
  then have first: "my_read 4 rl_start (start web_example) = (Inr (1, 51, s1), ?w)"
    using got by (simp add: s1_def my_read_rl_start my_read_take_def got_len_def resp_defs web_example_def)
  have second: "my_read 4 s1 v = (Inr (1, 10, s2), v)" for v :: world
    by (simp add: s1_def s2_def my_read_buffered my_read_take_def)
  have third: "my_read 4 s2 v = (Inr (0, 0, s2), took (C_read 4 MAXLINE) (gives []) v)"
    if "resps v = [gives []]" for v :: world
    using that got by (simp add: s2_def my_read_empty got_len_def resp_defs)
  have sizes: "MAXLINE \<noteq> 0" "MAXLINE - 1 = Suc (Suc 4093)" by (simp_all add: MAXLINE_def)
  have line: "Readline 4 MAXLINE rl_start (start web_example) = (Inr (2, [51, 10], s2), ?w)"
    unfolding Readline_never_reports readline_def sizes(2) if_not_P [OF sizes(1)] readline_from.simps andThen_apply first
    by (simp add: andThen_apply second)
  have eof: "Readline 4 MAXLINE s2 v = (Inr (0, [], s2), took (C_read 4 MAXLINE) (gives []) v)"
    if "resps v = [gives []]" for v :: world
    unfolding Readline_never_reports readline_def sizes(2) if_not_P [OF sizes(1)] readline_from.simps andThen_apply third [OF that]
    by simp
  have three: "atol [51, 10] = 3"
    by (simp add: atol_def strtol10_def cstr_def is_space_def is_digit_def digits_value_def)
  have reply: "Writen 4 [0, 0, 0] ?w = (Inr (), took (C_write 4 [0, 0, 0]) (ok 3) ?w)"
    by (simp add: Writen_def writen_def writen_loop.loop_unfold writen_round_apply writen_next_def put_len_def andThen_apply
        resp_defs web_example_def SIZE_MAX_def)
  have limits: "\<not> MAXN < 3" "\<not> MAXLINE < 3" "map (\<lambda>_. 0 :: byte) [0..<3] = [0, 0, 0]"
    by (simp_all add: MAXN_def MAXLINE_def eval_nat_numeral)
  let ?v = "took (C_write 4 [0, 0, 0]) (ok 3) ?w"
  have "web_child_round 4 (\<lambda>_. 0) rl_start (start web_example) = (Inr (Inl s2), ?v)"
    by (simp add: web_child_round_def andThen_apply line three limits reply)
  moreover have "resps ?v = [gives []]" by (simp add: web_example_def)
  then have "web_child_round 4 (\<lambda>_. 0) s2 ?v = (Inr (Inr s2), took (C_read 4 MAXLINE) (gives []) ?v)"
    by (simp add: web_child_round_def andThen_apply eof)
  moreover have "r_val (gives bs) = 0" "r_val (ok 3) = 3" for bs by (simp_all add: resp_defs)
  ultimately show ?thesis
    by (simp add: got web_child_def web_child_loop.loop_unfold saw_eof_def reads_of_def read_eof_def put_len_def got_len_def)
qed

theorem web_child_answers_witness:
  "\<exists>s w'. web_child 4 (\<lambda>_. 0) rl_start (start web_example) = (Inr s, w') \<and> received 4 (trace w') = [51, 10] \<and>
     sent 4 (trace w') = [0, 0, 0] \<and> web_answer (\<lambda>_. 0) (lines_of [51, 10]) = [0, 0, 0]"
proof -
  obtain s w' where run: "web_child 4 (\<lambda>_. 0) rl_start (start web_example) = (Inr s, w')"
    and "received 4 (trace w') = [51, 10]" "sent 4 (trace w') = [0, 0, 0]" "stream_ok 4 (trace w')"
    using web_child_example by blast
  with web_child_answers [OF run] show ?thesis by simp
qed

section \<open>A request\<close>

text \<open>The digits \<open>snprintf\<close> prints are the number \<open>atol\<close> reads, and a beginning of them is no
  greater number.\<close>

lemma digits_value_snoc [simp]: "digits_value (ds @ [d]) = 10 * digits_value ds + (uint d - 48)"
  by (simp add: digits_value_def)

lemma digits_value_Nil [simp]: "digits_value [] = 0"
  by (simp add: digits_value_def)

lemma lit_append [simp]: "lit (xs @ ys) = lit xs @ lit ys"
  by (simp add: lit_def)

lemma lit_Nil_iff [simp]: "lit xs = [] \<longleftrightarrow> xs = []"
  by (simp add: lit_def)

lemma lit_digit [simp]: "k < 10 \<Longrightarrow> lit [char_of (48 + k)] = [word_of_nat (48 + k)]"
  by (simp add: lit_def)

lemma dec_digits: "(\<forall>d\<in>set (lit (dec n)). is_digit d) \<and> digits_value (lit (dec n)) = int n \<and> dec n \<noteq> []"
proof (induction n rule: dec.induct)
  case (1 n)
  have digit: "is_digit (word_of_nat (48 + k))" "uint (word_of_nat (48 + k) :: byte) = 48 + int k" if "k < 10" for k
  proof -
    have "unat (word_of_nat (48 + k) :: byte) = 48 + k"
      using that by (simp add: unsigned_of_nat take_bit_nat_eq_self del: of_nat_add)
    with that show "is_digit (word_of_nat (48 + k))" "uint (word_of_nat (48 + k) :: byte) = 48 + int k"
      by (simp_all add: is_digit_def word_le_nat_alt uint_nat del: of_nat_add)
  qed
  show ?case
  proof (cases "n < 10")
    case True
    then have "dec n = [char_of (48 + n)]" by (subst dec.simps) simp
    with digit [OF True] True show ?thesis by (simp add: digits_value_def)
  next
    case False
    then have "dec n = dec (n div 10) @ [char_of (48 + n mod 10)]" by (subst dec.simps) simp
    moreover have "10 * int (n div 10) + int (n mod 10) = int n" by presburger
    ultimately show ?thesis
      using 1 [OF False] digit [of "n mod 10"] by simp
  qed
qed

lemma digits_value_nonneg: "\<forall>d\<in>set ds. is_digit d \<Longrightarrow> 0 \<le> digits_value ds"
  by (induction ds rule: rev_induct) (auto simp: is_digit_def word_le_def)

lemma digits_value_take: "\<forall>d\<in>set ds. is_digit d \<Longrightarrow> digits_value (take k ds) \<le> digits_value ds"
proof (induction ds rule: rev_induct)
  case (snoc d ds)
  then have "0 \<le> digits_value ds" "0 \<le> uint d - 48" "digits_value (take k ds) \<le> digits_value ds"
    using digits_value_nonneg by (auto simp: is_digit_def word_le_def)
  with snoc.prems show ?case
    by (cases "k \<le> length ds") simp_all
qed simp

lemma atol_digits:
  assumes "\<forall>d\<in>set ds. is_digit d" and "digits_value ds < 2 ^ 63" and "ds \<noteq> []" and "rest = [] \<or> rest = [NEWLINE]"
  shows "atol (ds @ rest) = digits_value ds"
proof -
  have "NUL \<notin> set (ds @ rest)"
    using assms(1,4) by (auto simp: is_digit_def word_le_def)
  moreover have "dropWhile is_space (ds @ rest) = ds @ rest"
    using assms(1,3) by (cases ds) (auto simp: is_digit_def is_space_def word_le_def)
  moreover have "takeWhile is_digit (ds @ rest) = ds"
    using assms(1,4) by (auto simp: is_digit_def word_le_def)
  ultimately show ?thesis
    using assms(1-3) digits_value_nonneg [OF assms(1)]
    by (cases ds) (auto simp: atol_def strtol10_def cstr_id is_digit_def word_le_def)
qed

text \<open>The whole request, or a beginning of it, is answered by a beginning of what it asks for.\<close>

lemma answer_request:
  assumes n: "0 \<le> n" "n \<le> int MAXLINE" and p: "prefix p (decimal n @ [NEWLINE])"
  shows "prefix (web_answer result (lines_of p)) (map result [0..<nat n])"
proof (cases "p = []")
  case False
  let ?ds = "decimal n"
  have ds: "\<forall>d\<in>set ?ds. is_digit d" "digits_value ?ds = n" "length ?ds \<le> 4"
    using n dec_digits [of "nat n"] length_dec [of 4 "nat n"] by (auto simp: decimal_def MAXLINE_def)
  obtain k rest where p: "p = take k ?ds @ rest" "rest = [] \<or> rest = [NEWLINE]" "take k ?ds \<noteq> []"
  proof (cases "p = ?ds @ [NEWLINE]")
    case True
    then show thesis
      using that [of "length ?ds" "[NEWLINE]"] n dec_digits [of "nat n"] by (auto simp: decimal_def)
  next
    case short: False
    then have "p = take (length p) ?ds"
      using assms(3) by (auto simp: prefix_def append_eq_append_conv2 append_eq_Cons_conv Cons_eq_append_conv)
    with False show thesis using that [of "length p" "[]"] by simp
  qed
  have digits: "\<forall>d\<in>set (take k ?ds). is_digit d" using ds(1) by (meson in_set_takeD)
  moreover have "digits_value (take k ?ds) \<le> n" using digits_value_take [OF ds(1)] ds(2) by simp
  ultimately have "atol p = digits_value (take k ?ds)" "0 \<le> atol p" "atol p \<le> n"
    using n p digits_value_nonneg atol_digits [OF digits _ p(3,2)] by (auto simp: MAXLINE_def)
  then have asked: "asked p \<le> n"
    using n by (simp add: asked_def MAXLINE_def sint_sbintrunc' signed_take_bit_int_eq_self)
  have "NEWLINE \<notin> set (take k ?ds)" using digits by (auto simp: is_digit_def word_le_def)
  then have "upto_newline p = p"
    using p(2) by (auto simp: p(1) upto_newline_append upto_newline_none)
  moreover have "length p \<le> 5"
    using p(2) ds(3) by (auto simp: p(1))
  ultimately have "next_line p = p" by (simp add: next_line_def MAXLINE_def)
  then have "lines_of p = [p]" using False lines_of_line(1) by blast
  with asked show ?thesis
    by (auto simp: map_mono_prefix prefix_def) (metis map_append nat_mono upt_add_eq_append le0 le_iff_add)
qed simp

text \<open>Nothing moves on a connection before the request.\<close>

definition moved :: "world \<Rightarrow> (int \<Rightarrow> byte list) \<times> (int \<Rightarrow> byte list)" where
  "moved w = (\<lambda>fd. received fd (trace w), \<lambda>fd. sent fd (trace w))"

lemma moved_events [preserves_intros]:
  "preserves moved (sys_int (C_socket f t p))" "preserves moved (sys_int (C_connect fd sa))"
  "preserves moved (Close fd)" "preserves moved (err_sys m)" "preserves moved (err_quit m)"
  "preserves moved (sys (C_getaddrinfo h s fl fam ty))"
  by (auto simp: preserves_def moved_def sys_int_def Close_def andThen_apply sys_apply err_doit_apply
      split: list.splits if_splits)

lemma moved_try: "preserves moved (try_addrs tcp_connect_try as)"
proof (induction as)
  case (Cons a as)
  have "preserves moved (tcp_connect_try a)"
    by (cases a) (auto intro!: preserves_intros)
  with Cons.IH show ?case
    by (auto intro!: preserves_intros split: option.splits)
qed (auto intro!: preserves_intros)

lemma moved_connect [preserves_intros]: "preserves moved (Tcp_connect host serv)"
  unfolding Tcp_connect_def tcp_connect_def lookup_def
  by (auto intro!: preserves_intros moved_try split: option.splits prod.splits)

lemma web_request_run:
  assumes "web_request argv n w = (Inr u, w')" and "trace w = []" "0 \<le> n" "n < 2 ^ 63"
  shows "\<exists>c. sent c (trace w') = decimal n @ [NEWLINE] \<and> length (received c (trace w')) = nat n"
proof -
  from assms(1) obtain c v1 v2 v3 reply where "Tcp_connect (argv ! 1) (argv ! 2) w = (Inr c, v1)"
    "Write c (decimal n @ [NEWLINE]) v1 = (Inr (), v2)" "Readn c (nat (n mod 2 ^ 64)) v2 = (Inr (n, reply), v3)"
    "Close c v3 = (Inr (), w')"
    by (auto simp: web_request_def andThen_eq_Inr_iff split: if_splits)
  note run = this
  have "n mod 2 ^ 64 = n" using assms(3,4) by (simp add: mod_pos_pos_trivial)
  with Readn_result [OF run(3)] obtain tr where tr: "trace v3 = trace v2 @ tr" "\<forall>ev\<in>set tr. reads_of c ev"
    and n: "n = int (length (received c tr))"
    by (auto simp: readn_post_def)
  have "moved v1 = moved w" "moved w' = moved v3"
    using preservesD [OF moved_connect run(1)] preservesD [OF moved_events(3) run(4)] by simp_all
  then have "received c (trace v1) = []" "sent c (trace v1) = []" "received c (trace w') = received c (trace v3)"
    "sent c (trace w') = sent c (trace v3)"
    using assms(2) by (auto simp: moved_def fun_eq_iff)
  with Write_effect [OF run(2)] tr n show ?thesis
    by (intro exI [of _ c]) simp
qed

lemma prefix_full: "prefix xs ys \<Longrightarrow> length ys \<le> length xs \<Longrightarrow> xs = ys"
  by (auto simp: prefix_def)

text \<open>(C10) A request over TCP, end to end: when a client of the servers in \<open>server/\<close> that asks for \<open>n\<close>
  bytes, \<open>MAXLINE\<close> at the most, is done with its connection, it has sent the one line that asks for
  them, and it has received exactly the first \<open>n\<close> bytes of the array the server sends from; and the
  server has sent no other.\<close>

theorem web_request_answered:
  assumes client: "web_request argv n w = (Inr u, w')" "trace w = []" "0 \<le> n" "n \<le> int MAXLINE"
    and server: "web_child s result rl_start v = (res, v')" "trace v = []" "stream_ok s (trace v')"
    and tcp: "\<forall>c. sent c (trace w') \<noteq> [] \<longrightarrow> tcp_connection c w' s v'"
  shows "\<exists>c. sent c (trace w') = decimal n @ [NEWLINE] \<and> received c (trace w') = map result [0..<nat n] \<and>
    sent s (trace v') = map result [0..<nat n]"
proof -
  have "n < 2 ^ 63" using client(4) by (simp add: MAXLINE_def)
  from web_request_run [OF client(1-3) this] obtain c where c: "sent c (trace w') = decimal n @ [NEWLINE]"
    "length (received c (trace w')) = nat n" by blast
  then have "tcp_connection c w' s v'" using tcp by simp
  with c(1) have net: "prefix (received s (trace v')) (decimal n @ [NEWLINE])" "prefix (received c (trace w')) (sent s (trace v'))"
    unfolding tcp_connection_def by (metis tcp_prefix)+
  have "prefix (sent s (trace v')) (web_answer result (lines_of (received s (trace v'))))"
    using web_child_run [OF server(1) _ _ server(3)] server(2) by (auto simp: web_part_def web_done_def split: if_splits)
  with answer_request [OF client(3,4) net(1)] have sent: "prefix (sent s (trace v')) (map result [0..<nat n])"
    using prefix_order.trans by blast
  then have "length (sent s (trace v')) \<le> nat n"
    using prefix_length_le by fastforce
  with c(2) prefix_length_le [OF net(2)] prefix_full [OF net(2)] prefix_full [OF sent]
  have "received c (trace w') = sent s (trace v')" "sent s (trace v') = map result [0..<nat n]"
    by simp_all
  with c show ?thesis by auto
qed

text \<open>A client that asks for three bytes, and the server of the example above.\<close>

lemma web_request_example:
  "\<exists>w'. web_request [[], [97], [98]] 3 (start [no_resp\<lparr>r_addrs := [(2, 1, 6, Sin 7 1)]\<rparr>, ok 3, ok 0, ok 2, gives [0, 0, 0], ok 0])
     = (Inr (), w') \<and> received 3 (trace w') = [0, 0, 0] \<and> (\<forall>c. sent c (trace w') = (if c = 3 then [51, 10] else []))"
proof -
  have "decimal 3 = [51]" by (simp add: decimal_def dec.simps lit_def)
  then show ?thesis
    by (simp add: web_request_def Tcp_connect_def tcp_connect_def lookup_def try_simps Write_def Readn_def readn_def
        readn_loop.loop_unfold readn_round_apply andThen_apply put_len_def got_def Close_def MAXN_def resp_defs)
qed

theorem web_request_answered_witness:
  "\<exists>w'. web_request [[], [97], [98]] 3 (start [no_resp\<lparr>r_addrs := [(2, 1, 6, Sin 7 1)]\<rparr>, ok 3, ok 0, ok 2, gives [0, 0, 0], ok 0])
     = (Inr (), w') \<and> (\<exists>c. received c (trace w') = map (\<lambda>_. 0) [0..<nat 3])"
proof -
  obtain w' where client: "web_request [[], [97], [98]] 3
      (start [no_resp\<lparr>r_addrs := [(2, 1, 6, Sin 7 1)]\<rparr>, ok 3, ok 0, ok 2, gives [0, 0, 0], ok 0]) = (Inr (), w')"
    "received 3 (trace w') = [0, 0, 0]" "\<forall>c. sent c (trace w') = (if c = 3 then [51, 10] else [])"
    using web_request_example by blast
  obtain s v' where server: "web_child 4 (\<lambda>_. 0) rl_start (start web_example) = (Inr s, v')"
    "received 4 (trace v') = [51, 10]" "sent 4 (trace v') = [0, 0, 0]" "stream_ok 4 (trace v')"
    using web_child_example by blast
  have "\<forall>c. sent c (trace w') \<noteq> [] \<longrightarrow> tcp_connection c w' 4 v'"
    using client server by (simp add: tcp_connection_def tcp_stream_def)
  from web_request_answered [OF client(1) _ _ _ server(1) _ server(4) this] client(1) show ?thesis
    by (auto simp: MAXLINE_def)
qed

end
