(* ===== verification/Open_Session.thy ===== *)
theory Open_Session
  imports Descriptor_Pool Web_Session
begin

text \<open>
  \<open>my_open\<close> and \<open>openfile\<close> together: a file is opened by another process, which passes the descriptor
  back over a socket and its error back as its exit status.
\<close>

section \<open>What the kernel promises\<close>

text \<open>The status \<open>waitpid\<close> reports is that of the process that has ended with \<open>exit (st)\<close>, and \<open>close\<close>
  returns 0 or -1.\<close>

fun ev_exits :: "int \<Rightarrow> event \<Rightarrow> bool" where
  "ev_exits st (Did (C_lib f xs bs) r) \<longleftrightarrow> (f = ''waitpid'' \<longrightarrow> aux r 0 = 256 * st)"
| "ev_exits st (Did (C_close fd) r) \<longleftrightarrow> -1 \<le> r_val r"
| "ev_exits st _ \<longleftrightarrow> True"

definition exits_with :: "int \<Rightarrow> event list \<Rightarrow> bool" where
  "exits_with st tr \<longleftrightarrow> (\<forall>ev\<in>set tr. ev_exits st ev)"

lemma exits_with_append [simp]:
  "exits_with st [] \<longleftrightarrow> True" "exits_with st (ev # tr) \<longleftrightarrow> ev_exits st ev \<and> exits_with st tr"
  "exits_with st (xs @ ys) \<longleftrightarrow> exits_with st xs \<and> exits_with st ys"
  by (auto simp: exits_with_def)

text \<open>A descriptor that has been passed arrives with the message it was sent with, under the number
  \<open>pass\<close> says it has in the other process.\<close>

definition rights_passed :: "bool \<Rightarrow> (int \<Rightarrow> int) \<Rightarrow> event list \<Rightarrow> event list \<Rightarrow> bool" where
  "rights_passed m pass sender receiver \<longleftrightarrow>
     (\<forall>s x bs q fd n fl r. Did (C_lib ''sendmsg'' (s # control_for m x) bs) q \<in> set sender \<longrightarrow> 0 \<le> r_val q \<longrightarrow>
        Did (C_recvmsg fd n fl) r \<in> set receiver \<longrightarrow> 0 \<le> r_val r \<longrightarrow>
        got n r \<noteq> [] \<and> r_aux r = control_for m (pass x))"

section \<open>The two processes\<close>

text \<open>\<open>openfile\<close> has opened the file and passed its descriptor, or it ends with the number of the
  error of one of its calls.\<close>

definition passed_open :: "bool \<Rightarrow> byte list \<Rightarrow> int \<Rightarrow> int \<Rightarrow> event list \<Rightarrow> bool" where
  "passed_open m path mode x tr \<longleftrightarrow> 0 \<le> x \<and> (\<exists>r. Did (C_lib ''open'' [mode] path) r \<in> set tr \<and> r_val r = x) \<and>
     (\<exists>s bs q. Did (C_lib ''sendmsg'' (s # control_for m x) bs) q \<in> set tr \<and> 0 \<le> r_val q)"

lemma passed_openI:
  "Did (C_lib ''open'' [mode] path) q \<in> set tr \<Longrightarrow> 0 \<le> r_val q \<Longrightarrow>
   Did (C_lib ''sendmsg'' (s # control_for m (r_val q)) bs) r \<in> set tr \<Longrightarrow> 0 \<le> r_val r \<Longrightarrow>
   passed_open m path mode (r_val q) tr"
  unfolding passed_open_def by blast

lemma control_for_inject:
  "r_aux r = control_for True x \<Longrightarrow> aux r 0 = CMSG_LEN_INT \<and> aux r 1 = SOL_SOCKET \<and> aux r 2 = SCM_RIGHTS \<and> aux r 3 = x"
  "r_aux r = control_for False x \<Longrightarrow> aux r 0 = 4 \<and> aux r 1 = x"
  by (simp_all add: control_for_def aux_def)

definition failed_with :: "errno \<Rightarrow> event list \<Rightarrow> bool" where
  "failed_with e tr \<longleftrightarrow> (\<exists>c r. Did c r \<in> set tr \<and> r_val r < 0 \<and> r_errno r = e)"

lemma strtol_decimal:
  assumes "0 \<le> n" and "n < 2 ^ 31"
  shows "sint (word_of_int (strtol10 (decimal n)) :: u32) = n"
proof -
  have "atol (decimal n @ []) = digits_value (decimal n)"
    using assms dec_digits [of "nat n"] by (intro atol_digits) (auto simp: decimal_def)
  then have "strtol10 (decimal n) = n"
    using assms dec_digits [of "nat n"] by (simp add: atol_def decimal_def)
  with assms show ?thesis
    by (simp add: sint_sbintrunc' signed_take_bit_int_eq_self)
qed

lemma failed_withI: "Did c r \<in> set tr \<Longrightarrow> r_val r < 0 \<Longrightarrow> r_errno r = e \<Longrightarrow> failed_with e tr"
  unfolding failed_with_def by blast

lemma openfile_run:
  assumes "openfile_main m errno_no [prog, sock, path, decimal mode] w = (res, v)" and "0 \<le> mode" "mode < 2 ^ 31"
  shows "res = Inl Blocked \<or> res = Inl (Exit 0 '''') \<and> (\<exists>x. passed_open m path mode x (trace v)) \<or>
    res = Inl (Exit ((if 0 < errno_no (errno_v v) then errno_no (errno_v v) else 255) mod 256) '''') \<and>
      failed_with (errno_v v) (trace v)"
proof (cases "resps w")
  case Nil
  with assms(1) show ?thesis by (simp add: openfile_main_def sys_int_def sys_apply andThen_apply)
next
  case (Cons q rs)
  let ?open = "C_lib ''open'' [mode] path"
  let ?send = "C_lib ''sendmsg'' (sint (word_of_int (strtol10 sock) :: u32) # control_for m (r_val q)) [0]"
  note open_simps = openfile_main_def sys_int_def write_fd_def exit_errno_def exit0_def andThen_apply sys_apply strtol_decimal [OF assms(2,3)]
  show ?thesis
  proof (cases "r_val q < 0")
    case True
    with assms(1) Cons show ?thesis
      by (auto simp: open_simps failed_with_def intro!: exI [of _ ?open] exI [of _ q])
  next
    case opened: False
    show ?thesis
    proof (cases rs)
      case Nil
      with assms(1) Cons opened show ?thesis by (simp add: open_simps)
    next
      case (Cons r rs')
      note rs = \<open>resps w = q # rs\<close> Cons
      show ?thesis
      proof (cases "r_val r < 0")
        case True
        with assms(1) opened rs show ?thesis
          by (auto simp: open_simps intro!: failed_withI [of ?send r])
      next
        case False
        with assms(1) opened rs have "passed_open m path mode (r_val q) (trace v)"
          by (intro passed_openI) (auto simp: open_simps)
        with False assms(1) opened rs show ?thesis by (auto simp: open_simps)
      qed
    qed
  qed
qed

text \<open>A message has been received, and \<open>fd\<close> is the descriptor that came with it.\<close>

definition came_with :: "bool \<Rightarrow> int \<Rightarrow> nat \<Rightarrow> resp \<Rightarrow> bool" where
  "came_with m fd n r \<longleftrightarrow> 0 \<le> r_val r \<and> (\<forall>x. got n r \<noteq> [] \<and> r_aux r = control_for m x \<longrightarrow> fd = x)"

fun received_fd :: "bool \<Rightarrow> int \<Rightarrow> event list \<Rightarrow> bool" where
  "received_fd m fd [] \<longleftrightarrow> False"
| "received_fd m fd (Did (C_recvmsg s n fl) r # evs) \<longleftrightarrow> came_with m fd n r \<or> received_fd m fd evs"
| "received_fd m fd (ev # evs) \<longleftrightarrow> received_fd m fd evs"

lemma received_fd_append [simp]: "received_fd m fd (xs @ ys) \<longleftrightarrow> received_fd m fd xs \<or> received_fd m fd ys"
  by (induction m fd xs rule: received_fd.induct) auto

lemma received_fdD: "received_fd m fd tr \<Longrightarrow> \<exists>s n fl r. Did (C_recvmsg s n fl) r \<in> set tr \<and> came_with m fd n r"
  by (induction m fd tr rule: received_fd.induct) auto

definition opened :: "bool \<Rightarrow> (int \<Rightarrow> errno) \<Rightarrow> int \<Rightarrow> int \<Rightarrow> world \<Rightarrow> bool" where
  "opened m errno_of st fd v \<longleftrightarrow> exits_with st (trace v) \<longrightarrow>
     (if st = 0 then received_fd m fd (trace v) else fd = -1 \<and> errno_v v = errno_of st)"

lemma rights_came:
  assumes "\<not> got_len n r \<le> 0"
  shows "aux r 0 = CMSG_LEN_INT \<Longrightarrow> came_with True (aux r 3) n r" "aux r 0 \<noteq> CMSG_LEN_INT \<Longrightarrow> came_with True y n r"
    "r_aux r = [] \<Longrightarrow> came_with True y n r"
    "aux r 0 = 4 \<Longrightarrow> came_with False (aux r (Suc 0)) n r" "aux r 0 \<noteq> 4 \<Longrightarrow> came_with False y n r"
proof -
  have "0 \<le> r_val r" using assms got_len_neg_iff [of n r] by linarith
  then show "aux r 0 = CMSG_LEN_INT \<Longrightarrow> came_with True (aux r 3) n r" "aux r 0 \<noteq> CMSG_LEN_INT \<Longrightarrow> came_with True y n r"
    "r_aux r = [] \<Longrightarrow> came_with True y n r"
    "aux r 0 = 4 \<Longrightarrow> came_with False (aux r (Suc 0)) n r" "aux r 0 \<noteq> 4 \<Longrightarrow> came_with False y n r"
    by (auto simp: came_with_def control_for_def aux_def)
qed

lemma Read_fd_wp:
  assumes "\<And>n bs v r. trace v = trace w @ [Did (C_recvmsg fd k 0) r] \<Longrightarrow> Q (n, bs, None) v"
    and "\<And>n bs x v r. trace v = trace w @ [Did (C_recvmsg fd k 0) r] \<Longrightarrow> came_with m x k r \<Longrightarrow> Q (n, bs, Some x) v"
  shows "wp (Read_fd m fd k) Q (\<lambda>_ _. True) w"
  unfolding Read_fd_def read_fd_def rights_of_def Let_def
  by (intro wp_intros) (auto intro!: assms intro: rights_came)

lemma my_open_wp:
  assumes "0 \<le> st" "st < 256"
  shows "wp (my_open m errno_of path mode) (opened m errno_of st) (\<lambda>_ _. True) w"
proof -
  have [simp]: "WEXITSTATUS (256 * st) = st" "WEXITSTATUS 0 = 0"
    using assms by (simp_all add: WEXITSTATUS_def)
  show ?thesis
    unfolding my_open_def
    by (intro wp_intros Read_fd_wp; simp add: opened_def; auto)
qed

text \<open>(C14) A file opened through another process: when \<open>my_open\<close> returns and the \<open>openfile\<close> it has
  started has ended by itself, either it returns the descriptor that the other process got from \<open>open\<close>
  for the same path and mode, under its number in this process, or it returns -1 and \<open>errno\<close> is the
  error that made the other process fail, which has come back as its exit status. (The other process is
  started with the texts that \<open>my_open\<close> composes as long as these fit its buffers of ten bytes, that is, for
  numbers below \<open>10 ^ 9\<close>.)\<close>

theorem my_open_through_openfile:
  assumes parent: "my_open m errno_of path mode w = (Inr fd, w')" and "0 \<le> mode" "mode < 2 ^ 31"
    and child: "openfile_main m errno_no [prog, sock, path, decimal mode] v = (Inl (Exit st ''''), v')"
    and errnos: "\<forall>e. failed_with e (trace v') \<longrightarrow> 0 < errno_no e \<and> errno_no e < 256 \<and> errno_of (errno_no e) = e"
    and kernel: "exits_with st (trace w')" "rights_passed m pass (trace v') (trace w')"
  shows "(\<exists>x. passed_open m path mode x (trace v') \<and> fd = pass x) \<or>
    fd = -1 \<and> errno_v w' = errno_v v' \<and> failed_with (errno_v v') (trace v')"
proof -
  from openfile_run [OF child] assms(2,3) errnos
  consider x where "st = 0" "passed_open m path mode x (trace v')"
    | "st = errno_no (errno_v v')" "failed_with (errno_v v') (trace v')"
    by (auto simp: mod_pos_pos_trivial)
  then show ?thesis
  proof cases
    case 1
    with wp_returns [OF my_open_wp parent, of 0] kernel(1) have "received_fd m fd (trace w')"
      by (simp add: opened_def)
    then obtain s n fl r where "Did (C_recvmsg s n fl) r \<in> set (trace w')" "came_with m fd n r"
      using received_fdD by blast
    with 1(2) kernel(2) have "fd = pass x"
      by (auto simp: rights_passed_def passed_open_def came_with_def)
    with 1(2) show ?thesis by blast
  next
    case 2
    with errnos have st: "0 < st" "st < 256" "errno_of st = errno_v v'" by auto
    with wp_returns [OF my_open_wp parent, of st] kernel(1) 2(2) show ?thesis
      by (simp add: opened_def)
  qed
qed

text \<open>Two examples: the file is opened as 5 and arrives as 8, and a file does not exist (error 2).\<close>

definition errno_number :: "errno \<Rightarrow> int" where
  "errno_number e = (case e of Errno n \<Rightarrow> int n | _ \<Rightarrow> 255)"

definition opened_example :: "resp list" where
  "opened_example = [no_resp\<lparr>r_aux := [3, 4]\<rparr>, ok 77, ok 0, (ok 77)\<lparr>r_aux := [0]\<rparr>, (gives [0])\<lparr>r_aux := control_for True 8\<rparr>, ok 0]"

definition missing_example :: "resp list" where
  "missing_example = [no_resp\<lparr>r_aux := [3, 4]\<rparr>, ok 77, ok 0, (ok 77)\<lparr>r_aux := [512]\<rparr>, ok 0]"

lemma openfile_examples:
  "\<exists>v. openfile_main True errno_number [[], [52], [97], decimal 0] (start [ok 5, ok 1]) = (Inl (Exit 0 ''''), v) \<and>
     trace v = [Did (C_lib ''open'' [0] [97]) (ok 5), Did (C_lib ''sendmsg'' (4 # control_for True 5) [0]) (ok 1)]"
  "\<exists>v. openfile_main True errno_number [[], [52], [97], decimal 0] (start [fails (Errno 2)]) = (Inl (Exit 2 ''''), v) \<and>
     trace v = [Did (C_lib ''open'' [0] [97]) (fails (Errno 2))] \<and> errno_v v = Errno 2"
proof -
  have "strtol10 [52] = 4" "strtol10 [48] = 0" "decimal 0 = [48]"
    by (simp_all add: strtol10_def cstr_def is_space_def is_digit_def digits_value_def decimal_def dec.simps lit_def)
  note open_simps = this openfile_main_def sys_int_def write_fd_def put_len_def exit0_def exit_errno_def errno_number_def andThen_apply sys_apply resp_defs
  show "\<exists>v. openfile_main True errno_number [[], [52], [97], decimal 0] (start [ok 5, ok 1]) = (Inl (Exit 0 ''''), v) \<and>
     trace v = [Did (C_lib ''open'' [0] [97]) (ok 5), Did (C_lib ''sendmsg'' (4 # control_for True 5) [0]) (ok 1)]"
    by (simp add: open_simps)
  show "\<exists>v. openfile_main True errno_number [[], [52], [97], decimal 0] (start [fails (Errno 2)]) = (Inl (Exit 2 ''''), v) \<and>
     trace v = [Did (C_lib ''open'' [0] [97]) (fails (Errno 2))] \<and> errno_v v = Errno 2"
    by (simp add: open_simps)
qed

lemma my_open_examples:
  "\<exists>fd w. my_open True (\<lambda>n. Errno (nat n)) [97] 0 (start opened_example) = (Inr fd, w) \<and> exits_with 0 (trace w) \<and>
     rights_passed True (\<lambda>x. x + 3) [Did (C_lib ''open'' [0] [97]) (ok 5), Did (C_lib ''sendmsg'' (4 # control_for True 5) [0]) (ok 1)] (trace w)"
  "\<exists>fd w. my_open True (\<lambda>n. Errno (nat n)) [97] 0 (start missing_example) = (Inr fd, w) \<and> exits_with 2 (trace w) \<and>
     rights_passed True id [Did (C_lib ''open'' [0] [97]) (fails (Errno 2))] (trace w)"
  by (simp_all add: my_open_def Socketpair_def Fork_def Close_def Waitpid_def WIFEXITED_def WEXITSTATUS_def Read_fd_def read_fd_def
      rights_of_def got_len_def got_def aux_def andThen_apply sys_apply control_for_def set_errno_def resp_defs rights_passed_def
      CMSG_LEN_INT_def SOL_SOCKET_def SCM_RIGHTS_def opened_example_def missing_example_def)

theorem my_open_through_openfile_witness:
  "(\<exists>w'. my_open True (\<lambda>n. Errno (nat n)) [97] 0 (start opened_example) = (Inr 8, w')) \<and>
   (\<exists>w'. my_open True (\<lambda>n. Errno (nat n)) [97] 0 (start missing_example) = (Inr (-1), w') \<and> errno_v w' = Errno 2)"
proof -
  obtain v fd w where child: "openfile_main True errno_number [[], [52], [97], decimal 0] (start [ok 5, ok 1]) = (Inl (Exit 0 ''''), v)"
      "trace v = [Did (C_lib ''open'' [0] [97]) (ok 5), Did (C_lib ''sendmsg'' (4 # control_for True 5) [0]) (ok 1)]"
    and parent: "my_open True (\<lambda>n. Errno (nat n)) [97] 0 (start opened_example) = (Inr fd, w)"
    and kernel: "exits_with 0 (trace w)" "rights_passed True (\<lambda>x. x + 3) (trace v) (trace w)"
    using openfile_examples(1) my_open_examples(1) by metis
  have fine: "\<not> failed_with e (trace v)" for e
    by (auto simp: failed_with_def child(2) resp_defs)
  have five: "x = 5" if "passed_open True [97] 0 x (trace v)" for x
    using that unfolding passed_open_def child(2) by (auto simp: resp_defs)
  from my_open_through_openfile [OF parent _ _ child(1) _ kernel] fine
  have "\<exists>x. passed_open True [97] 0 x (trace v) \<and> fd = x + 3" by simp
  with five have "fd = 8" by fastforce
  moreover obtain v' fd' w' where child': "openfile_main True errno_number [[], [52], [97], decimal 0] (start [fails (Errno 2)]) = (Inl (Exit 2 ''''), v')"
      "trace v' = [Did (C_lib ''open'' [0] [97]) (fails (Errno 2))]" "errno_v v' = Errno 2"
    and parent': "my_open True (\<lambda>n. Errno (nat n)) [97] 0 (start missing_example) = (Inr fd', w')"
    and kernel': "exits_with 2 (trace w')" "rights_passed True id (trace v') (trace w')"
    using openfile_examples(2) my_open_examples(2) by metis
  have "\<forall>e. failed_with e (trace v') \<longrightarrow> 0 < errno_number e \<and> errno_number e < 256 \<and> Errno (nat (errno_number e)) = e"
    by (simp add: failed_with_def child'(2) errno_number_def resp_defs)
  moreover have "\<not> passed_open True [97] 0 x (trace v')" for x
    by (simp add: passed_open_def child'(2))
  ultimately show ?thesis
    using my_open_through_openfile [OF parent' _ _ child'(1) _ kernel'] child'(3) parent parent' by auto
qed

end
