(* ===== verification/Spec2Isabelle.thy ===== *)
theory Spec2Isabelle
  imports Traceroute Thread_Pool Icmpd Oob Web_Client Interfaces Multicast_Compat Socket_Options Local_Sockets Broadcast Udp_Checksum Open_Session
begin

text \<open>
  A verification development for the network programs of this repository: a port to C++ of the
  functions and programs of a textbook on network programming with sockets. The shared functions are
  the files directly under \<open>src/\<close>; each directory below holds one or more programs that link them.

  \<^bold>\<open>How a program is modelled.\<close> A program is a function \<open>(world, 'a) prog\<close> from the world to a
  result and the next world (\<open>Posix\<close>). The operating system is not code of the repository: a \<open>world\<close>
  holds the responses that it will give to the calls of the program, in order, and the \<open>trace\<close> of the
  calls made so far with their responses, the lines logged and the text printed. A theorem about every
  world is a theorem about every behaviour of the system: short transfers, interrupted calls, failures
  and any interleaving of what becomes ready. A call for which no response is left is one that never
  returns, \<open>Inl Blocked\<close>. The other results \<open>Inl e\<close> are \<open>exit\<close> with its status and message, \<open>abort\<close>, and
  behaviour that C leaves undefined, such as an access outside an array; \<open>Inr\<close> is a normal return. So
  every early return, every exit of an error function and every overrun of the sources is a branch of
  the model. Machine integers are words of their width, \<open>int\<close> is used where the value cannot leave the
  range of the type; memory is little endian and LP64, as on x86-64 Linux, for which the sources are
  configured.

  \<^bold>\<open>Loops.\<close> \<open>loop body x\<close> repeats a body on the loop's variables, with the number of responses left
  plus one (\<open>size\<close> of the world) as fuel. The locale \<open>consuming\<close> says that a body makes a call in every
  round that repeats; it is interpreted for every loop of the sources, and gives that the fuel is always
  enough (\<open>fuel_enough\<close>), the equation of the loop without fuel (\<open>loop_unfold\<close>) and its invariant
  rules. No loop modelled this way ends for want of fuel. Loops over arrays are structural recursion.

  \<^bold>\<open>How a claim is proved.\<close> \<open>wp m Q E w\<close> says that \<open>m\<close> returns with \<open>Q\<close> or stops with \<open>E\<close>; the rules in
  \<open>wp_intros\<close> reduce a program to its calls, and \<open>loop_wp\<close> takes the invariant of a loop. The
  collections \<open>lawful_intros\<close> (a program only consumes responses and extends the trace), \<open>eats_intros\<close>
  (it makes a call) and \<open>preserves_intros\<close> (it keeps an observation) discharge the side conditions. The
  witnesses run a program on a list of responses by rewriting.

  \<^bold>\<open>The theories\<close>, in the order in which they build on each other:

  \<^item> \<open>Prelude\<close>: machine types, byte order, bytes of words, numbers as text, C strings. \<open>Posix\<close>: the
    world, programs, calls, \<open>loop\<close>, \<open>wp\<close>.
  \<^item> \<open>Errors\<close> (\<open>error.cpp\<close>) and \<open>Wrappers\<close> (\<open>wrapsock.cpp\<close>, \<open>wrapunix.cpp\<close>, \<open>wrapstdio.cpp\<close>,
    \<open>wraplib.cpp\<close>, \<open>wrappthread.cpp\<close>): a wrapper returns the value of its call or ends the program after
    one logged line; the locale \<open>checked_call\<close> states this once and is interpreted for each wrapper.
  \<^item> \<open>Stream_IO\<close> (\<open>readn.cpp\<close>, \<open>writen.cpp\<close>, \<open>readline.cpp\<close>): all the bytes are transferred, in order,
    whatever pieces they come in; the static buffer of \<open>readline\<close> is the record \<open>rl\<close>.
  \<^item> \<open>Echo\<close> (\<open>signal.cpp\<close>, \<open>str_echo.cpp\<close>, \<open>str_cli.cpp\<close>): the echo service and its clients.
  \<^item> \<open>Sockaddr\<close> (\<open>sock_*.cpp\<close>, \<open>family_to_level.cpp\<close>, \<open>sockfd_to_family.cpp\<close>) and \<open>Connect\<close>
    (\<open>tcp_connect.cpp\<close>, \<open>tcp_listen.cpp\<close>, \<open>udp_client.cpp\<close>, \<open>udp_server.cpp\<close>, \<open>host_serv.cpp\<close>,
    \<open>connect_nonb.cpp\<close>, \<open>readable_timeo.cpp\<close>): the fields of addresses (locale \<open>field\<close>), the text of an
    address within its buffer, and what the loops over the addresses of a host leave open (locale
    \<open>attempt\<close>).
  \<^item> \<open>Rtt\<close> (\<open>rtt.cpp\<close>, \<open>unprtt.h\<close>) and \<open>Dg_Reliable\<close> (\<open>rtt/dg_send_recv.cpp\<close>): the estimator, over exact
    rationals with the two roundings as parameters, and the retransmission it times: at most four
    sends, all of this request, and a datagram received during the call that carries its number.
  \<^item> \<open>Cksum\<close> (\<open>in_cksum.cpp\<close>), \<open>Ping\<close> (\<open>ping/\<close>), \<open>Traceroute\<close> (\<open>traceroute/\<close>),
    \<open>Udp_Checksum\<close> (\<open>udpchsum/\<close>): the checksum against one's-complement addition, the packets that are sent
    and the recognition of their replies; \<open>struct proto\<close> of \<open>ping\<close> and \<open>traceroute\<close> is an interface
    (locales \<open>ping_proto\<close>, \<open>trace_proto\<close>) that the functions for IPv4 and those for IPv6 meet.
  \<^item> \<open>Datagram_Echo\<close> (\<open>dg_cli.cpp\<close>, \<open>dg_echo.cpp\<close>, \<open>udpEcho1\<close>, \<open>udpEcho2\<close>, \<open>advio/Time_*\<close>), \<open>Broadcast\<close>
    (\<open>broadcast/\<close>, \<open>udp/\<close>), \<open>Multicast\<close> and \<open>Multicast_Compat\<close> (\<open>mcast_join.cpp\<close> in its two versions,
    \<open>mcast_set_loop.cpp\<close>, \<open>mcast/\<close>), \<open>Socket_Options\<close> (\<open>sockopt/\<close>, \<open>route/checkudpsum\<close>),
    \<open>Interfaces\<close> (\<open>get_ifi_info.cpp\<close>, \<open>unpifi.h\<close>, \<open>ioctl/\<close>, \<open>if_indextoname.cpp\<close>,
    \<open>advio/recvfromflags.cpp\<close>, \<open>advio/dgechoaddr.cpp\<close>), \<open>Local_Sockets\<close> (\<open>unixdomain/\<close>).
  \<^item> \<open>Connections\<close>, \<open>Echo_Select\<close> (\<open>StringEcho4_shutdown/Server\<close>), \<open>Echo_Poll\<close>
    (\<open>StringEcho5_poll/Server\<close>): servers that serve all clients in one process; what they share, the
    connections read off the trace and a table of clients (locale \<open>slots\<close>), is in \<open>Connections\<close>.
  \<^item> \<open>Tcp_Programs\<close> (\<open>StringEcho1\<close> to \<open>StringEcho5_poll\<close>, \<open>TimeEcho1\<close> to \<open>TimeEcho3\<close>, \<open>names/\<close>,
    \<open>tcpudp/ServerSelect\<close>, \<open>nonblock/strclifork\<close>): the other clients and the forking servers.
  \<^item> \<open>Nonblock_Cli\<close> (\<open>nonblock/str_cli_nonblock.cpp\<close>, \<open>gf_time.cpp\<close>): two buffers as queues (locale
    \<open>relay_buffer\<close>); \<open>Web_Client\<close> (\<open>nonblock/webclient\<close>): the table of files and its counters.
  \<^item> \<open>Web_Servers\<close>, \<open>Descriptor_Pool\<close>, \<open>Thread_Pool\<close> (\<open>server/\<close>, with \<open>read_fd.cpp\<close> and \<open>write_fd.cpp\<close>):
    the designs of a server, by processes, by a pool of processes that get descriptors passed, and by a
    pool of threads. The threads of \<open>serv08\<close> are a step relation \<open>pool_step\<close> with the mutex and the
    condition variable, in which any thread may also end the server (\<open>M_over\<close>); its circular array is a
    bounded queue (locale \<open>bounded_fifo\<close>), through which in every interleaving each connection passes
    once and in order.
  \<^item> \<open>Icmpd\<close> (\<open>icmpd/\<close>): the daemon that passes ICMP errors on. \<open>Oob\<close> (\<open>oob/\<close>): out-of-band data and the
    heartbeat, whose signal handlers are programs over the counters they share with the main program
    (locale \<open>heart_handlers\<close>).
  \<^item> \<open>Sessions\<close>, \<open>Web_Session\<close> and this theory: two programs at the ends of one connection, with the
    promises of TCP and UDP as hypotheses on their worlds; \<open>web_child\<close> (\<open>server/web_clild.cpp\<close>) as a
    function of the stream it reads. \<open>Open_Session\<close>: \<open>my_open\<close> and \<open>openfile\<close> (\<open>unixdomain/\<close>), with the
    promises of the kernel on exit statuses and passed descriptors.

  \<^bold>\<open>What is parametric.\<close> Macros of the configuration are Boolean arguments where a function has both
  branches (\<open>ipv6\<close>, \<open>msg_control\<close>, \<open>have_vsnprintf\<close>); memory that the sources leave uninitialised is
  an argument \<open>garbage\<close> or \<open>pad\<close>; the functions of the C library that have no effect on the sources'
  state beyond their result are responses as well.

  Some sources do not compile as they are and are modelled all the same, with what is missing as a
  parameter: \<open>udpchsum\<close> (\<open>usage\<close>, and the signal handler with its jump), \<open>sockopt\<close> (the functions that print a
  value), \<open>rtt/dg_cli.cpp\<close> (\<open>Dg_send_recv\<close>), and, with \<open>IPV6\<close>, \<open>ping\<close> and \<open>traceroute\<close>, whose slips of the
  pen are listed where the model corrects them.

  \<^bold>\<open>Not modelled.\<close> \<open>StringEcho1/Client\<close>, \<open>advio/Echo_Cli_Poll\<close> and \<open>route/getrt\<close> are fragments that do
  not compile; \<open>libroute\<close> only declares functions that no file defines; \<open>main.cpp\<close> and
  \<open>tcpudp/ClientSelect\<close> print a greeting; \<open>libevent\<close> only calls that library. Of what is modelled, the branch for
  IPv6 of \<open>icmpd\<close> is left out: it calls \<open>readable_v6\<close>, which no file defines. Memory shared with
  other processes is not modelled.

  \<^bold>\<open>Signals.\<close> A handler runs where the program waits: the call is answered with \<open>EINTR\<close>. The handlers
  of \<open>Oob\<close>, which only share the counters of the heartbeat with each other, are given as sequences of signals as
  well. The handlers of \<open>SIGALRM\<close> that jump, in \<open>Dg_Reliable\<close> and in the client of \<open>Broadcast\<close> with \<open>siglongjmp\<close>, may also do so after
  the call has returned and before the program has used its answer; the one of \<open>Traceroute\<close> may then set
  \<open>gotalarm\<close>. The response of such a call says so (\<open>alarm_after\<close>, in \<open>Posix\<close>). Not modelled is an alarm
  that goes off before the program has come to wait: between \<open>alarm\<close> and \<open>sigsetjmp\<close> or the
  waiting call, which takes seconds, or between the test of \<open>gotalarm\<close> and \<open>recvfrom\<close>.

  \<^bold>\<open>Where \<open>select\<close> is called\<close> its first argument is the largest descriptor plus one. Programs that keep that
  descriptor in a variable (\<open>StringEcho4_shutdown/Server\<close>, \<open>icmpd\<close>, \<open>server/serv05\<close>, \<open>nonblock/webclient\<close>)
  keep it in the model, and the sets are cut off at it (\<open>upto_fd\<close>); elsewhere it is computed from the
  very descriptors that the sets may hold.
\<close>

section \<open>A session over TCP\<close>

text \<open>(C7) The echo service end to end: when \<open>str_cli_select_shutdown\<close> has returned on one end of a TCP
  connection and \<open>str_echo\<close> on the other, what the client has written to its standard output is
  exactly what it read from its input, whatever segments the bytes travelled in, however the
  client's two directions were interleaved, and although replies were still on their way when the
  input ended.\<close>

theorem echo_session_complete:
  assumes client: "str_cli_select_shutdown fp c w = (Inr u, w')" "relayed fp c w" "fp \<noteq> c" "c \<noteq> STDOUT" "fp \<noteq> STDOUT"
    and server: "str_echo s v = (Inr (), v')" "sent s (trace v) = received s (trace v)"
    and tcp: "tcp_connection c w' s v'"
  shows "sent STDOUT (trace w') = received fp (trace w')"
proof -
  have run: "relayed fp c w'" "saw_eof c w'"
    using str_cli_shutdown_run [OF client] by simp_all
  then have "sent STDOUT (trace w') = received c (trace w')" by (simp add: relayed_def)
  also have "\<dots> = sent s (trace v')"
    using tcp run(2) by (auto simp: tcp_connection_def intro: tcp_complete)
  also have "\<dots> = received s (trace v')"
    using str_echo_run [OF server] by simp
  also have "\<dots> = sent c (trace w')"
    using tcp str_echo_saw_eof [OF server(1)] by (auto simp: tcp_connection_def intro: tcp_complete)
  also have "\<dots> = received fp (trace w')"
    using run by (simp add: relayed_def)
  finally show ?thesis .
qed

text \<open>One line goes to the server and comes back.\<close>

theorem echo_session_complete_witness:
  "\<exists>w'. str_cli_select_shutdown 0 3 (start
       [no_resp\<lparr>r_rd := {0}\<rparr>, gives [104, 10], ok 2, no_resp\<lparr>r_rd := {0}\<rparr>, gives [], ok 0,
        no_resp\<lparr>r_rd := {3}\<rparr>, gives [104, 10], ok 2, no_resp\<lparr>r_rd := {3}\<rparr>, gives []]) = (Inr (), w') \<and>
     received 0 (trace w') = [104, 10] \<and> sent STDOUT (trace w') = received 0 (trace w')"
proof -
  let ?w = "start
       [no_resp\<lparr>r_rd := {0}\<rparr>, gives [104, 10], ok 2, no_resp\<lparr>r_rd := {0}\<rparr>, gives [], ok 0,
        no_resp\<lparr>r_rd := {3}\<rparr>, gives [104, 10], ok 2, no_resp\<lparr>r_rd := {3}\<rparr>, gives []]"
  let ?v = "start [gives [104, 10], ok 2, gives []]"
  obtain w' where run: "str_cli_select_shutdown 0 3 ?w = (Inr (), w')" "received 0 (trace w') = [104, 10]"
    "sent 3 (trace w') = [104, 10]" "received 3 (trace w') = [104, 10]"
    by (simp add: str_cli_select_shutdown_def str_cli_shutdown_loop.loop_unfold str_cli_select_shutdown_round_def [THEN fun_cong]
        relay_socket_def Select_def Read_def Write_def Shutdown_def Writen_def writen_def
        writen_round_apply writen_next_def andThen_apply sys_apply Let_def got_def got_len_def
        put_len_def ready_count_def MAXLINE_def STDOUT_def writen_loop.loop_unfold)
  obtain v' where srv: "str_echo 4 ?v = (Inr (), v')" "received 4 (trace v') = [104, 10]" "sent 4 (trace v') = [104, 10]"
    by (simp add: str_echo_def loop_def eval_nat_numeral str_echo_round_apply Writen_def writen_def
        writen_round_apply writen_next_def andThen_apply Let_def got_def put_len_def resp_defs
        received_def sent_def MAXLINE_def)
  have "relayed 0 3 ?w" by (simp add: relayed_def)
  from echo_session_complete [OF run(1) this _ _ _ srv(1)] run srv show ?thesis
    by (simp add: STDOUT_def tcp_connection_def tcp_stream_def)
qed

text \<open>(C8) A server with many clients serves each as if it were alone: whatever the \<open>select\<close> or the
  \<open>poll\<close> server does for its other connections, and at whatever point either end stops, what the
  non-blocking client at the end of one of them has printed is a beginning of what it has read from
  its input. No byte of another client, none twice, and none out of order.\<close>

theorem many_clients_apart:
  assumes server: "select_server_main v = (res, v') \<or> poll_server_main garbage v = (res, v')" "trace v = []"
    and client: "str_cli_nonblock c to fr w = (res', w')" "trace w = []" "length to = MAXLINE" "length fr = MAXLINE"
      "c \<noteq> STDIN" "c \<noteq> STDOUT"
    and tcp: "tcp_connection c w' s v'"
  shows "prefix (sent STDOUT (trace w')) (received STDIN (trace w'))"
proof -
  have client_run: "prefix (sent STDOUT (trace w')) (received c (trace w'))" "prefix (sent c (trace w')) (received STDIN (trace w'))"
    using nonblock_client_run [OF client] by (auto simp: relays_to_def prefix_def) (metis append_take_drop_id)+
  have "prefix (received c (trace w')) (sent s (trace v'))" "prefix (received s (trace v')) (sent c (trace w'))"
    using tcp by (auto simp: tcp_connection_def intro: tcp_prefix)
  with client_run servers_echo [OF server] show ?thesis
    by (meson prefix_order.trans)
qed

text \<open>Two bytes go through the \<open>select\<close> server and come back.\<close>

definition nb_short :: "resp list" where
  "nb_short = [ok 0, ok 0, ok 0, ok 0, ok 0, ok 0,
     no_resp\<lparr>r_rd := {0}\<rparr>, gives [104, 105], no_resp, no_resp, ok 2, no_resp, no_resp,
     no_resp\<lparr>r_rd := {0}\<rparr>, gives [], no_resp, no_resp, ok 0,
     no_resp\<lparr>r_rd := {3}\<rparr>, gives [104, 105], no_resp, no_resp, ok 2, no_resp, no_resp,
     no_resp\<lparr>r_rd := {3}\<rparr>, gives [], no_resp, no_resp]"

lemma nb_short_run:
  "\<exists>w'. str_cli_nonblock 3 (replicate MAXLINE 0) (replicate MAXLINE 0) (start nb_short) = (Inr (), w') \<and>
     sent 3 (trace w') = [104, 105] \<and> received 3 (trace w') = [104, 105] \<and> sent STDOUT (trace w') = [104, 105]"
  by (simp add: nb_runs nb_short_def)

theorem many_clients_apart_witness:
  "\<exists>v' w'. select_server_main (start select_example) = (Inl Blocked, v') \<and>
     str_cli_nonblock 3 (replicate MAXLINE 0) (replicate MAXLINE 0) (start nb_short) = (Inr (), w') \<and>
     sent STDOUT (trace w') = [104, 105] \<and> prefix (sent STDOUT (trace w')) (received STDIN (trace w'))"
proof -
  obtain v' where srv: "select_server_main (start select_example) = (Inl Blocked, v')"
    "received 4 (trace v') = [104, 105]" "sent 4 (trace v') = [104, 105]"
    using select_example_run by blast
  obtain w' where cli: "str_cli_nonblock 3 (replicate MAXLINE 0) (replicate MAXLINE 0) (start nb_short) = (Inr (), w')"
    "sent 3 (trace w') = [104, 105]" "received 3 (trace w') = [104, 105]" "sent STDOUT (trace w') = [104, 105]"
    using nb_short_run by blast
  have "prefix (sent STDOUT (trace w')) (received STDIN (trace w'))"
    by (rule many_clients_apart [OF disjI1 [OF srv(1)] _ cli(1), where s = 4])
      (simp_all add: srv cli STDIN_def STDOUT_def tcp_connection_def tcp_stream_def)
  with srv cli show ?thesis by blast
qed

section \<open>A request over UDP\<close>

text \<open>(C9) Reliability from end to end: when \<open>dg_send_recv\<close> talks to \<open>dg_echo\<close> over a network that loses,
  repeats, delays and reorders datagrams but does not make them up, what it returns is its own request
  and not the late reply to an earlier one, which the sequence number tells apart.\<close>

theorem request_echoed:
  assumes client: "dg_send_recv rf rd h fd out n x w = (Inr (Some data, y), w')" "length (recvhdr x) = HDR"
    and server: "dg_echo sfd v = (res, v')" "trace v = []"
    and to_server: "udp_delivers MAXLINE (fst ` set (came sfd v')) (sent_msgs fd (trace w'))"
    and to_client: "udp_delivers (HDR + n) (received_msgs fd (trace w')) (fst ` set (went sfd v'))"
    and earlier: "older_requests fd (send_seq x + 1) (trace w)"
    and sizes: "HDR + length out \<le> MAXLINE" "length out \<le> n"
  shows "data = out"
proof -
  have "came sfd v = went sfd v" using server(2) by (simp add: came_def went_def)
  from dg_echo_run [OF server(1) this] have "set (went sfd v') \<subseteq> set (came sfd v')" by auto
  with to_client have "udp_delivers (HDR + n) (received_msgs fd (trace w')) (fst ` set (came sfd v'))"
    unfolding udp_delivers_def by blast
  moreover obtain bs where "answered fd (send_seq x + 1) bs (trace w')" "data = drop HDR bs"
    "only_request (trace w) fd (send_seq x + 1) out (trace w')"
    using dg_send_recv_wp [OF client(2), of rf rd h fd out n w] client(1) by (auto simp: wp_def)
  ultimately show ?thesis
    using answer_is_echo [OF _ _ earlier to_server] sizes by blast
qed

text \<open>The first request, \<open>hi\<close> after a header with its sequence number 1 and its time.\<close>

theorem request_echoed_witness:
  "\<exists>y w'. dg_send_recv id id 1 3 [104, 105] 4096 dgs_start
       (start [ok 0, ok 0, ok 0, ok 10, ok 0, gives [1, 0, 0, 0, 0, 0, 0, 0, 104, 105], ok 0, ok 0]) = (Inr (Some [104, 105], y), w')"
proof -
  let ?req = "[1, 0, 0, 0, 0, 0, 0, 0, 104, 105] :: byte list"
  let ?w = "start [ok 0, ok 0, ok 0, ok 10, ok 0, gives ?req, ok 0, ok 0]"
  let ?v = "start [(gives ?req)\<lparr>r_addr := Sin 9 1\<rparr>, ok 10]"
  have "\<exists>data y w'. dg_send_recv id id 1 3 [104, 105] 4096 dgs_start ?w = (Inr (Some data, y), w') \<and>
      sent_msgs 3 (trace w') = {?req} \<and> received_msgs 3 (trace w') = {?req}"
    by (simp add: dg_send_recv_def dg_init_def rtt_init_def dgs_start_def Gettimeofday_def time_of_def Signal_def signal_def
        Let_def andThen_apply sys_apply send_loop.loop_unfold send_round_def rtt_ts_def ts_at_def Sendmsg_def put_len_def
        await_def await_loop.loop_unfold await_round_def recv_or_alarm_def got_def recv_seq_def word_at_def settle_def
        HDR_def aux_def bytes32_def le32_def rtt_newpack_def ok_def no_resp_def) (auto simp: sent_msgs_def received_msgs_def got_def)
  then obtain data y w' where cli: "dg_send_recv id id 1 3 [104, 105] 4096 dgs_start ?w = (Inr (Some data, y), w')"
    "sent_msgs 3 (trace w') = {?req}" "received_msgs 3 (trace w') = {?req}" by blast
  have "\<exists>v'. dg_echo 4 ?v = (Inl Blocked, v') \<and> set (came 4 v') = {(?req, Sin 9 1)} \<and> set (went 4 v') = {(?req, Sin 9 1)}"
    by (simp add: dg_echo_def forever_unfold [OF eats_dg_echo_round] dg_echo_round_def Recvfrom_def Sendto_def andThen_apply sys_apply
        got_len_def put_len_def got_def MAXLINE_def came_def went_def)
  then obtain v' where srv: "dg_echo 4 ?v = (Inl Blocked, v')" "set (came 4 v') = {(?req, Sin 9 1)}" "set (went 4 v') = {(?req, Sin 9 1)}"
    by blast
  have "data = [104, 105]"
    by (rule request_echoed [OF cli(1) _ srv(1)])
      (simp_all add: cli(2,3) srv(2,3) dgs_start_def HDR_def udp_delivers_def older_requests_def MAXLINE_def, simp add: sent_msgs_def)
  with cli show ?thesis by blast
qed

end
